theory Spec2Isabelle
  imports Main "HOL-Library.Char_ord" "HOL-Library.List_Lexorder" "HOL-Library.Sublist"
begin

section \<open>Faults and string primitives\<close>

text \<open>
  Every exception the modelled code can throw, and every read outside a container
  (undefined behaviour in C++), is a value of \<open>fault\<close>; a function that can fail
  returns \<open>fault + 'a\<close> with \<open>Inl\<close> for the failure.
\<close>

datatype fault =
    invalid_argument string
  | out_of_range
  | logic_error string
  | runtime_error string
  | system_error string
  | undefined_behaviour

definition bnd :: "fault + 'a \<Rightarrow> ('a \<Rightarrow> fault + 'b) \<Rightarrow> fault + 'b" where
  "bnd m f = (case m of Inl e \<Rightarrow> Inl e | Inr x \<Rightarrow> f x)"

text \<open>\<open>std::string::rfind(c)\<close> and \<open>find_last_of(c)\<close> for a single character:
  the index of the last occurrence, \<open>None\<close> for \<open>npos\<close>.\<close>

definition rfind_char :: "char \<Rightarrow> string \<Rightarrow> nat option" where
  "rfind_char c s =
     (if c \<in> set s then Some (length s - Suc (length (takeWhile (\<lambda>x. x \<noteq> c) (rev s))))
      else None)"

text \<open>\<open>std::string::find(c)\<close>: the index of the first occurrence.\<close>

definition find_char :: "char \<Rightarrow> string \<Rightarrow> nat option" where
  "find_char c s =
     (if c \<in> set s then Some (length (takeWhile (\<lambda>x. x \<noteq> c) s)) else None)"

text \<open>Subtraction on \<open>size_t\<close> (64 bits): the result wraps around below zero.\<close>

definition size_t_sub :: "nat \<Rightarrow> nat \<Rightarrow> nat" where
  "size_t_sub a b = (a + 2 ^ 64 - b) mod 2 ^ 64"

text \<open>\<open>s.substr(pos)\<close> throws \<open>std::out_of_range\<close> when \<open>pos > s.size()\<close>.\<close>

definition substr_from :: "string \<Rightarrow> nat \<Rightarrow> fault + string" where
  "substr_from s pos = (if length s < pos then Inl out_of_range else Inr (drop pos s))"

section \<open>The parsed command (parsedcommand.h)\<close>

record ParsedCommand =
  d_compilerCommand :: bool
  d_linkerCommand :: bool
  d_md_option_set :: bool
  d_qmakedep_option_set :: bool
  d_coverage_option_set :: bool
  d_split_dwarf_option_set :: bool
  d_isGcc :: bool
  d_isClang :: bool
  d_isSunStudio :: bool
  d_producesSunMakeRules :: bool
  d_containsUnsupportedOptions :: bool
  d_upload_all_include_dirs :: bool
  d_bstatic :: bool
  d_compiler :: string
  d_originalCommand :: "string list"
  d_defaultDepsCommand :: "string list"
  d_preProcessorOptions :: "string list"
  d_command :: "string list"
  d_dependenciesCommand :: "string list"
  d_inputFiles :: "string list"
  d_auxInputFiles :: "string list"
  d_libraryDirs :: "string list"
  d_rpathLinkDirs :: "string list"
  d_rpathDirs :: "string list"
  d_defaultLibraryDirs :: "string list"
  d_libraries :: "string set"
  d_staticLibraries :: "string set"
  d_commandProducts :: "string set"
  d_commandDepsProducts :: "string set"
  d_commandCoverageProducts :: "string set"
  d_includeDirs :: "string set"
  d_dependencyFileAIX :: "string option"
  d_bstaticStack :: "bool list"

text \<open>The default constructor: every flag false, every container empty.\<close>

definition ParsedCommand_default :: ParsedCommand where
  "ParsedCommand_default = \<lparr>
     d_compilerCommand = False, d_linkerCommand = False, d_md_option_set = False,
     d_qmakedep_option_set = False, d_coverage_option_set = False,
     d_split_dwarf_option_set = False, d_isGcc = False, d_isClang = False,
     d_isSunStudio = False, d_producesSunMakeRules = False,
     d_containsUnsupportedOptions = False, d_upload_all_include_dirs = False,
     d_bstatic = False, d_compiler = [], d_originalCommand = [],
     d_defaultDepsCommand = [], d_preProcessorOptions = [], d_command = [],
     d_dependenciesCommand = [], d_inputFiles = [], d_auxInputFiles = [],
     d_libraryDirs = [], d_rpathLinkDirs = [], d_rpathDirs = [],
     d_defaultLibraryDirs = [], d_libraries = {}, d_staticLibraries = {},
     d_commandProducts = {}, d_commandDepsProducts = {}, d_commandCoverageProducts = {},
     d_includeDirs = {}, d_dependencyFileAIX = None, d_bstaticStack = [] \<rparr>"

definition is_compiler_command :: "ParsedCommand \<Rightarrow> bool" where
  "is_compiler_command pc = d_compilerCommand pc"

definition is_linker_command :: "ParsedCommand \<Rightarrow> bool" where
  "is_linker_command pc = d_linkerCommand pc"

definition is_sun_studio :: "ParsedCommand \<Rightarrow> bool" where
  "is_sun_studio pc = d_isSunStudio pc"

definition is_AIX :: "ParsedCommand \<Rightarrow> bool" where
  "is_AIX pc = (d_dependencyFileAIX pc \<noteq> None)"

section \<open>File-name helpers (fileutils.cpp)\<close>

definition stripDirectory :: "string \<Rightarrow> string" where
  "stripDirectory path =
     (case rfind_char CHR ''/'' path of None \<Rightarrow> path | Some slash \<Rightarrow> drop (slash + 1) path)"

text \<open>\<open>path.substr(0, path.rfind("."))\<close>: with no dot, \<open>npos\<close> keeps the whole path.\<close>

definition replaceSuffix :: "string \<Rightarrow> string \<Rightarrow> string" where
  "replaceSuffix path sfx =
     (case rfind_char CHR ''.'' path of None \<Rightarrow> path | Some dot \<Rightarrow> take dot path) @ sfx"

section \<open>Product derivation (deps.cpp)\<close>

definition has_suffix_in :: "string list \<Rightarrow> string \<Rightarrow> bool" where
  "has_suffix_in sfxs file =
     (case rfind_char CHR ''.'' file of
        Some pos \<Rightarrow> drop (pos + 1) file \<in> set sfxs
      | None \<Rightarrow> False)"

definition is_header_file :: "string \<Rightarrow> bool" where
  "is_header_file file =
     has_suffix_in [''h'', ''hh'', ''H'', ''hp'', ''hxx'', ''hpp'', ''HPP'', ''h++'', ''tcc''] file"

definition is_source_file :: "string \<Rightarrow> bool" where
  "is_source_file file =
     has_suffix_in [''cc'', ''c'', ''cp'', ''cxx'', ''cpp'', ''CPP'', ''c++'', ''C''] file"

definition is_aux_input_file :: "string \<Rightarrow> ParsedCommand \<Rightarrow> bool" where
  "is_aux_input_file file parsedCommand =
     (if is_sun_studio parsedCommand then has_suffix_in [''il''] file else False)"

definition is_object_file :: "string \<Rightarrow> bool" where
  "is_object_file file = has_suffix_in [''a'', ''o'', ''so''] file"

text \<open>The validation loop of \<open>determine_products\<close>: the accumulator is
  \<open>(headers, sources, objects)\<close>; the last branch throws.\<close>

fun validate_inputs ::
  "ParsedCommand \<Rightarrow> string list \<Rightarrow> string set \<times> string set \<times> string set
     \<Rightarrow> fault + (string set \<times> string set \<times> string set)" where
  "validate_inputs pc [] acc = Inr acc"
| "validate_inputs pc (sourceFile # rest) (headers, sources, objects) =
     (if is_compiler_command pc \<and> is_header_file sourceFile
        then validate_inputs pc rest (insert sourceFile headers, sources, objects)
      else if is_compiler_command pc \<and> is_source_file sourceFile
        then validate_inputs pc rest (headers, insert sourceFile sources, objects)
      else if is_compiler_command pc \<and> is_aux_input_file sourceFile pc
        then validate_inputs pc rest (headers, sources, objects)
      else if is_linker_command pc \<and> is_object_file sourceFile
        then validate_inputs pc rest (headers, sources, insert sourceFile objects)
      else Inl (invalid_argument
             (''File '' @ [CHR 0x27] @ sourceFile @ [CHR 0x27] @
              '' uses a file suffix unsupported for caching'')))"

text \<open>"Determine which products to assume as base products."\<close>

definition base_products :: "ParsedCommand \<Rightarrow> string set \<Rightarrow> string set \<Rightarrow> string set" where
  "base_products pc headers sources =
     (if d_commandProducts pc \<noteq> {} then d_commandProducts pc
      else if is_linker_command pc then {''a.out''}
      else (\<lambda>header. header @ ''.gch'') ` headers \<union>
           (\<lambda>source. stripDirectory (replaceSuffix source ''.o'')) ` sources)"

text \<open>The \<open>-MD\<close>/\<open>-qmakedep\<close> block.\<close>

definition makedep_products :: "ParsedCommand \<Rightarrow> string set \<Rightarrow> string set \<Rightarrow> string set" where
  "makedep_products pc headers sources =
     (if d_md_option_set pc \<or> d_qmakedep_option_set pc then
        (let sfx = (if d_md_option_set pc then ''.d'' else ''.u'') in
         if d_commandDepsProducts pc \<noteq> {} then d_commandDepsProducts pc
         else if d_commandProducts pc \<noteq> {}
           then (\<lambda>product. replaceSuffix product sfx) ` d_commandProducts pc
         else (\<lambda>header. stripDirectory (replaceSuffix header sfx)) ` headers \<union>
              (\<lambda>source. stripDirectory (replaceSuffix source sfx)) ` sources)
      else {})"

text \<open>The coverage block.\<close>

definition coverage_products :: "ParsedCommand \<Rightarrow> string set \<Rightarrow> string set \<Rightarrow> string set" where
  "coverage_products pc headers sources =
     (if d_coverage_option_set pc then
        (if d_commandCoverageProducts pc \<noteq> {} then d_commandCoverageProducts pc
         else if d_commandProducts pc \<noteq> {}
           then (\<lambda>product. replaceSuffix product ''.gcno'') ` d_commandProducts pc
         else (\<lambda>header. stripDirectory (replaceSuffix header ''.gcno'')) ` headers \<union>
              (\<lambda>source. stripDirectory (replaceSuffix source ''.gcno'')) ` sources)
      else {})"

text \<open>The \<open>-gsplit-dwarf\<close> block.\<close>

definition dwarf_products :: "ParsedCommand \<Rightarrow> string set \<Rightarrow> string set" where
  "dwarf_products pc sources =
     (if d_split_dwarf_option_set pc then
        (if d_commandProducts pc \<noteq> {} then
           (if sources \<noteq> {}
            then (\<lambda>product. replaceSuffix product ''.dwo'') ` d_commandProducts pc
            else {})
         else (\<lambda>source. stripDirectory (replaceSuffix source ''.dwo'')) ` sources)
      else {})"

definition determine_products :: "ParsedCommand \<Rightarrow> fault + string set" where
  "determine_products parsedCommand =
     bnd (validate_inputs parsedCommand (d_inputFiles parsedCommand) ({}, {}, {}))
       (\<lambda>(headers, sources, objects).
          if headers = {} \<and> sources = {} \<and> objects = {} then Inr {}
          else Inr (base_products parsedCommand headers sources \<union>
                    makedep_products parsedCommand headers sources \<union>
                    coverage_products parsedCommand headers sources \<union>
                    dwarf_products parsedCommand sources))"

section \<open>Lexical path normalisation\<close>

text \<open>A \<open>std::string\<close> handed over as \<open>c_str()\<close> ends at its first NUL byte.\<close>

definition c_str :: "string \<Rightarrow> string" where
  "c_str s = takeWhile (\<lambda>c. c \<noteq> CHR 0x00) s"

text \<open>
  Modelled from the spec: \<open>buildboxcommon::FileUtils::normalizePath\<close> is called by the
  code under src/ but defined in the buildbox-common library, which is not part of the
  sources. The spec describes it as "collapses \<open>.\<close>/\<open>..\<close>/double-slash segments without
  touching the filesystem (purely lexical)". The model walks the path segment by segment:
  \<open>..\<close> removes the previous segment unless that is itself \<open>..\<close>, \<open>..\<close> at the root of
  an absolute path is dropped, \<open>.\<close> and empty segments are dropped; the segments that
  remain are joined by single slashes, and a relative path with no segment left is \<open>.\<close>.
\<close>

fun path_segments :: "string \<Rightarrow> string \<Rightarrow> string list" where
  "path_segments cur [] = (if cur = [] then [] else [cur])"
| "path_segments cur (c # cs) =
     (if c = CHR ''/'' then cur # path_segments [] cs else path_segments (cur @ [c]) cs)"

definition push_segment :: "bool \<Rightarrow> string list \<Rightarrow> string \<Rightarrow> string list" where
  "push_segment global segments segment =
     (if segment = ''..'' \<and> segments \<noteq> [] \<and> last segments \<noteq> ''..'' then butlast segments
      else if global \<and> segment = ''..'' \<and> segments = [] then segments
      else if segment \<noteq> ''.'' \<and> segment \<noteq> [] then segments @ [segment]
      else segments)"

definition join_segments :: "string list \<Rightarrow> string" where
  "join_segments segments = butlast (concat (map (\<lambda>segment. segment @ ''/'') segments))"

definition normalizePath :: "string \<Rightarrow> string" where
  "normalizePath p =
     (let path = c_str p;
          global = (path \<noteq> [] \<and> hd path = CHR ''/'');
          segments = foldl (push_segment global) [] (path_segments [] path)
      in if segments \<noteq> [] then (if global then ''/'' else []) @ join_segments segments
         else if global then ''/'' else ''.'')"

section \<open>File information of a compile command (deps.cpp)\<close>

record CommandFileInfo =
  d_dependencies :: "string set"
  d_possibleProducts :: "string set"

text \<open>The loop of \<open>get_file_info\<close> over the products, a \<open>std::set\<close> visited in
  ascending order. \<open>product.substr(product.size() - 2)\<close> computes its position in
  \<open>size_t\<close>.\<close>

fun products_loop ::
  "string list \<Rightarrow> string set \<times> string list \<Rightarrow> fault + (string set \<times> string list)" where
  "products_loop [] acc = Inr acc"
| "products_loop (product # rest) (possibleProducts, objectTargets) =
     bnd (substr_from product (size_t_sub (length product) 2))
       (\<lambda>ending. products_loop rest
          (insert (normalizePath product) possibleProducts,
           if ending = ''.o'' then objectTargets @ [product] else objectTargets))"

text \<open>
  \<open>get_file_info\<close> up to the end of that loop. What follows in the source (the
  clang-scan-deps lookup, the dependency subprocess and the parsing of its output) talks
  to the outside world and is the parameter \<open>scan_dependencies\<close>; the linker branch,
  \<open>LinkDeps::get_file_info\<close>, is the parameter \<open>link_file_info\<close>.
\<close>

definition get_file_info ::
  "(ParsedCommand \<Rightarrow> fault + CommandFileInfo) \<Rightarrow>
   (ParsedCommand \<Rightarrow> string set \<Rightarrow> string list \<Rightarrow> fault + CommandFileInfo) \<Rightarrow>
   ParsedCommand \<Rightarrow> fault + CommandFileInfo" where
  "get_file_info link_file_info scan_dependencies parsedCommand =
     (if is_linker_command parsedCommand then link_file_info parsedCommand
      else bnd (determine_products parsedCommand)
        (\<lambda>products. bnd (products_loop (sorted_list_of_set products) ({}, []))
           (\<lambda>(possibleProducts, objectTargets).
              scan_dependencies parsedCommand possibleProducts objectTargets)))"

section \<open>Last segments of a path (fileutils.cpp)\<close>

text \<open>
  The backwards scan of \<open>lastNSegments\<close>. \<open>start\<close> is the offset of
  \<open>substringStart\<close> from the beginning of the path and \<open>len\<close> is
  \<open>substringLength\<close>; the result is the substring on a hit, or the number of slashes
  seen when the scan reaches the beginning.
\<close>

fun lastNSegments_scan :: "string \<Rightarrow> int \<Rightarrow> nat \<Rightarrow> nat \<Rightarrow> int \<Rightarrow> string + int" where
  "lastNSegments_scan path n 0 len slashesSeen = Inr slashesSeen"
| "lastNSegments_scan path n (Suc k) len slashesSeen =
     (if path ! k = CHR ''/'' then
        (if slashesSeen + 1 = n then Inl (take len (drop (Suc k) path))
         else lastNSegments_scan path n k (len + 1) (slashesSeen + 1))
      else lastNSegments_scan path n k (len + 1) slashesSeen)"

text \<open>For the empty path the source reads \<open>path_p[-1]\<close>: undefined behaviour.\<close>

definition lastNSegments :: "string \<Rightarrow> int \<Rightarrow> fault + string" where
  "lastNSegments p n =
     (if n = 0 then Inr []
      else let path = c_str p; pathLength = length path in
        if pathLength = 0 then Inl undefined_behaviour
        else
          (case lastNSegments_scan path n (pathLength - 1)
                  (if path ! (pathLength - 1) = CHR ''/'' then 0 else 1) 0 of
             Inl segments \<Rightarrow> Inr segments
           | Inr slashesSeen \<Rightarrow>
               if slashesSeen = 0 \<and> n = 1 then Inr path
               else Inl (logic_error ''Not enough segments in path'')))"

section \<open>Input classes of a parsed command\<close>

text \<open>
  The classes the validation loop of \<open>determine_products\<close> sorts the input files into,
  written as predicates: the branches of the loop are tried in this order, so a file
  counts for the first class it falls into.
\<close>

definition header_input :: "ParsedCommand \<Rightarrow> string \<Rightarrow> bool" where
  "header_input pc f = (is_compiler_command pc \<and> is_header_file f)"

definition source_input :: "ParsedCommand \<Rightarrow> string \<Rightarrow> bool" where
  "source_input pc f = (is_compiler_command pc \<and> \<not> is_header_file f \<and> is_source_file f)"

definition aux_input :: "ParsedCommand \<Rightarrow> string \<Rightarrow> bool" where
  "aux_input pc f =
     (is_compiler_command pc \<and> \<not> is_header_file f \<and> \<not> is_source_file f \<and>
      is_aux_input_file f pc)"

definition object_input :: "ParsedCommand \<Rightarrow> string \<Rightarrow> bool" where
  "object_input pc f =
     (\<not> header_input pc f \<and> \<not> source_input pc f \<and> \<not> aux_input pc f \<and>
      is_linker_command pc \<and> is_object_file f)"

definition recognized_input :: "ParsedCommand \<Rightarrow> string \<Rightarrow> bool" where
  "recognized_input pc f =
     (header_input pc f \<or> source_input pc f \<or> aux_input pc f \<or> object_input pc f)"

definition headers_of :: "ParsedCommand \<Rightarrow> string set" where
  "headers_of pc = {f \<in> set (d_inputFiles pc). header_input pc f}"

definition sources_of :: "ParsedCommand \<Rightarrow> string set" where
  "sources_of pc = {f \<in> set (d_inputFiles pc). source_input pc f}"

definition objects_of :: "ParsedCommand \<Rightarrow> string set" where
  "objects_of pc = {f \<in> set (d_inputFiles pc). object_input pc f}"

text \<open>A Sun Studio compile of an inline-template file with an explicit output,
  \<open>CC -c t.il -o x.o\<close>, as the parser leaves it.\<close>

definition sun_inline_command :: ParsedCommand where
  "sun_inline_command = ParsedCommand_default
     \<lparr> d_compilerCommand := True, d_isSunStudio := True, d_producesSunMakeRules := True,
       d_compiler := ''CC'', d_originalCommand := [''CC'', ''-c'', ''t.il'', ''-o'', ''x.o''],
       d_defaultDepsCommand := [''-xM''],
       d_command := [''CC'', ''-c'', ''t.il'', ''-o'', ''x.o''],
       d_dependenciesCommand := [''CC'', ''-c'', ''t.il'', ''-xM''],
       d_inputFiles := [''t.il''], d_commandProducts := {''x.o''} \<rparr>"

text \<open>A gcc compile of one source file with an explicit output,
  \<open>gcc -c hello.c -o hello.o\<close>.\<close>

definition gcc_hello_command :: ParsedCommand where
  "gcc_hello_command = ParsedCommand_default
     \<lparr> d_compilerCommand := True, d_isGcc := True, d_compiler := ''gcc'',
       d_originalCommand := [''gcc'', ''-c'', ''hello.c'', ''-o'', ''hello.o''],
       d_defaultDepsCommand := [''-M''],
       d_command := [''gcc'', ''-c'', ''hello.c'', ''-o'', ''hello.o''],
       d_dependenciesCommand := [''gcc'', ''-c'', ''hello.c'', ''-M''],
       d_inputFiles := [''hello.c''], d_commandProducts := {''hello.o''} \<rparr>"

text \<open>The same with the one-character output name of \<open>gcc -c foo.c -o a\<close>.\<close>

definition gcc_short_output_command :: ParsedCommand where
  "gcc_short_output_command = ParsedCommand_default
     \<lparr> d_compilerCommand := True, d_isGcc := True, d_compiler := ''gcc'',
       d_originalCommand := [''gcc'', ''-c'', ''foo.c'', ''-o'', ''a''],
       d_defaultDepsCommand := [''-M''],
       d_command := [''gcc'', ''-c'', ''foo.c'', ''-o'', ''a''],
       d_dependenciesCommand := [''gcc'', ''-c'', ''foo.c'', ''-M''],
       d_inputFiles := [''foo.c''], d_commandProducts := {''a''} \<rparr>"

text \<open>A gcc compile whose input is not a C or C++ file, \<open>gcc -c hello.txt\<close>.\<close>

definition gcc_text_command :: ParsedCommand where
  "gcc_text_command = ParsedCommand_default
     \<lparr> d_compilerCommand := True, d_isGcc := True, d_compiler := ''gcc'',
       d_originalCommand := [''gcc'', ''-c'', ''hello.txt''],
       d_defaultDepsCommand := [''-M''],
       d_command := [''gcc'', ''-c'', ''hello.txt''],
       d_dependenciesCommand := [''gcc'', ''-c'', ''hello.txt'', ''-M''],
       d_inputFiles := [''hello.txt''] \<rparr>"

text \<open>Stand-ins for the two parameters of \<open>get_file_info\<close>, used to run it on concrete
  commands: no linker information, and a scan that reports the object targets it was
  given as the dependencies.\<close>

definition stub_link_file_info :: "ParsedCommand \<Rightarrow> fault + CommandFileInfo" where
  "stub_link_file_info pc = Inr \<lparr>d_dependencies = {}, d_possibleProducts = {}\<rparr>"

definition stub_scan_dependencies ::
  "ParsedCommand \<Rightarrow> string set \<Rightarrow> string list \<Rightarrow> fault + CommandFileInfo" where
  "stub_scan_dependencies pc possibleProducts objectTargets =
     Inr \<lparr>d_dependencies = set objectTargets, d_possibleProducts = possibleProducts\<rparr>"

section \<open>Configuration and path rewriting (env.h, fileutils.cpp)\<close>

text \<open>
  The process-wide configuration variables of env.h that the modelled functions read,
  together with what they take from outside the sources:
  \<^item> the state of the file system: \<open>isDirectory\<close>, \<open>isRegularFile\<close>, the target of a
    symbolic link (\<open>symlink_target\<close>, \<open>None\<close> for a path that is not a link), the
    lookup of a command in \<open>PATH\<close> (\<open>getPathToCommand\<close>) and the name of the temporary
    file created for an AIX compiler;
  \<^item> \<open>makePathRelative\<close> of the buildbox-common library, and its digest and
    serialisation functions for a \<open>Command\<close> message;
  \<^item> the tables of compilerdefaults.h, which is not among the sources: the compiler
    names of each family, the languages accepted after \<open>-x\<close> and the default
    dependency options; the compile-time macro \<open>RECC_PLATFORM_COMPILER\<close>; and whether
    the build is for Solaris (\<open>__sun\<close>).
\<close>

record Digest =
  hash_hex :: string
  size_bytes :: nat

record Command =
  arguments :: "string list"
  environment_variables :: "(string \<times> string) list"
  output_files :: "string list"
  output_directories :: "string list"
  output_paths :: "string list"
  platform :: "(string \<times> string) list option"
  working_directory :: string

record environment =
  RECC_PROJECT_ROOT :: string
  RECC_PREFIX_REPLACEMENT :: "(string \<times> string) list"
  RECC_NO_PATH_REWRITE :: bool
  RECC_DEPS_GLOBAL_PATHS :: bool
  RECC_REAPI_VERSION :: string
  RECC_ACTION_SALT :: string
  RECC_ACTION_UNCACHEABLE :: bool
  RECC_OUTPUT_DIRECTORIES_OVERRIDE :: "string list"
  RECC_REMOTE_PLATFORM :: "(string \<times> string) list"
  isDirectory :: "string \<Rightarrow> bool"
  isRegularFile :: "string \<Rightarrow> bool"
  makePathRelative :: "string \<Rightarrow> string \<Rightarrow> string"
  make_digest :: "Command \<Rightarrow> Digest"
  SerializeAsString :: "Command \<Rightarrow> string"
  symlink_target :: "string \<Rightarrow> string option"
  getPathToCommand :: "string \<Rightarrow> string"
  temporary_file_name :: string
  RECC_PLATFORM_COMPILER :: "string option"
  on_solaris :: bool
  Gcc :: "string set"
  GccPreprocessor :: "string set"
  SunCPP :: "string set"
  AIX :: "string set"
  CCompilers :: "string set"
  GccSupportedLanguages :: "string set"
  GccDefaultDeps :: "string list"
  SunCPPDefaultDeps :: "string list"
  AIXDefaultDeps :: "string list"

definition hasPathPrefix :: "string \<Rightarrow> string \<Rightarrow> bool" where
  "hasPathPrefix path pfx =
     (if pfx = [] then False
      else if path = pfx then True
      else let tmpPrefix = (if last pfx \<noteq> CHR ''/'' then pfx @ ''/'' else pfx)
           in take (length tmpPrefix) path = tmpPrefix)"

text \<open>The loop over the replacement pairs: the first pair whose key is a path prefix
  decides.\<close>

fun resolve_first :: "(string \<times> string) list \<Rightarrow> string \<Rightarrow> string" where
  "resolve_first [] path = path"
| "resolve_first (pair # pairs) path =
     (if hasPathPrefix path (fst pair)
      then normalizePath (snd pair @ ''/'' @ drop (length (fst pair)) path)
      else resolve_first pairs path)"

definition resolvePathFromPrefixMap :: "environment \<Rightarrow> string \<Rightarrow> string" where
  "resolvePathFromPrefixMap env path =
     (if RECC_PREFIX_REPLACEMENT env = [] then path
      else resolve_first (RECC_PREFIX_REPLACEMENT env) path)"

definition rewritePathToRelative :: "environment \<Rightarrow> string \<Rightarrow> string \<Rightarrow> string" where
  "rewritePathToRelative env path workingDirectory =
     (if \<not> RECC_NO_PATH_REWRITE env \<and> hasPathPrefix path (RECC_PROJECT_ROOT env)
      then makePathRelative env path workingDirectory
      else path)"

definition modifyPathForRemote :: "environment \<Rightarrow> string \<Rightarrow> string \<Rightarrow> bool \<Rightarrow> string" where
  "modifyPathForRemote env path workingDirectory normalizeIt =
     (let replacedPath = resolvePathFromPrefixMap env path;
          replacedPath = rewritePathToRelative env replacedPath workingDirectory
      in if normalizeIt \<and> \<not> RECC_NO_PATH_REWRITE env then normalizePath replacedPath
         else replacedPath)"

section \<open>Command and Action messages (actionbuilder.cpp)\<close>

text \<open>
  Modelled from the spec: \<open>Env::version_string_to_pair\<close> and
  \<open>Env::configured_reapi_version_equal_to_or_newer_than\<close> are declared in env.h and
  defined in env.cpp, which is not among the sources. The spec speaks of the "REAPI
  version \<open>\<ge>\<close> 2.1" and "\<open>\<ge>\<close> 2.2" and lists the supported versions 2.0, 2.1 and 2.2;
  the test env_reapi_version.t.cpp parses \<open>2.0\<close> to \<open>(2, 0)\<close>, rejects \<open>2\<close>, \<open>2.0.0\<close>,
  \<open>3.14\<close> and \<open>versionFoo\<close> with \<open>std::invalid_argument\<close>, and compares the configured
  version with the given one as pairs of numbers.
\<close>

definition digit_value :: "char \<Rightarrow> nat option" where
  "digit_value c =
     (if 48 \<le> (of_char c :: nat) \<and> (of_char c :: nat) \<le> 57 then Some (of_char c - 48)
      else None)"

definition version_string_to_pair :: "string \<Rightarrow> fault + (nat \<times> nat)" where
  "version_string_to_pair version =
     (case version of
        [major, dot, minor] \<Rightarrow>
          (case (digit_value major, dot = CHR ''.'', digit_value minor) of
             (Some a, True, Some b) \<Rightarrow> Inr (a, b)
           | _ \<Rightarrow> Inl (invalid_argument version))
      | _ \<Rightarrow> Inl (invalid_argument version))"

definition version_ge :: "nat \<times> nat \<Rightarrow> nat \<times> nat \<Rightarrow> bool" where
  "version_ge configured version =
     (fst version < fst configured \<or>
      (fst version = fst configured \<and> snd version \<le> snd configured))"

definition configured_reapi_version_equal_to_or_newer_than ::
  "environment \<Rightarrow> string \<Rightarrow> fault + bool" where
  "configured_reapi_version_equal_to_or_newer_than env version =
     bnd (version_string_to_pair (RECC_REAPI_VERSION env))
       (\<lambda>configured. bnd (version_string_to_pair version)
          (\<lambda>given. Inr (version_ge configured given)))"

text \<open>The bodies of the three loops of \<open>populateCommandProto\<close> over the output files,
  the output directories and the platform properties.\<close>

definition add_output_file :: "bool \<Rightarrow> Command \<Rightarrow> string \<Rightarrow> Command" where
  "add_output_file outputPathsSupported commandProto file =
     (if outputPathsSupported
      then commandProto\<lparr>output_paths := output_paths commandProto @ [file]\<rparr>
      else commandProto\<lparr>output_files := output_files commandProto @ [file]\<rparr>)"

definition add_output_directory :: "bool \<Rightarrow> Command \<Rightarrow> string \<Rightarrow> Command" where
  "add_output_directory outputPathsSupported commandProto directory =
     (if outputPathsSupported
      then commandProto\<lparr>output_paths := output_paths commandProto @ [directory]\<rparr>
      else commandProto\<lparr>output_directories := output_directories commandProto @ [directory]\<rparr>)"

definition add_platform_property :: "Command \<Rightarrow> string \<times> string \<Rightarrow> Command" where
  "add_platform_property commandProto platformIter =
     (if snd platformIter \<noteq> []
      then commandProto\<lparr>platform :=
             Some ((case platform commandProto of None \<Rightarrow> [] | Some properties \<Rightarrow> properties)
                   @ [platformIter])\<rparr>
      else commandProto)"

definition Command_default :: Command where
  "Command_default = \<lparr> arguments = [], environment_variables = [], output_files = [],
     output_directories = [], output_paths = [], platform = None, working_directory = [] \<rparr>"

text \<open>The sets and maps of the source are given as the lists of their elements in
  iteration (ascending) order.\<close>

definition populateCommandProto ::
  "environment \<Rightarrow> string list \<Rightarrow> string list \<Rightarrow> string list \<Rightarrow> (string \<times> string) list
     \<Rightarrow> (string \<times> string) list \<Rightarrow> string \<Rightarrow> fault + Command" where
  "populateCommandProto env command outputFiles outputDirectories remoteEnvironment
       platformProperties workingDirectory =
     (let commandProto = Command_default\<lparr>arguments := command\<rparr>;
          commandProto = commandProto\<lparr>environment_variables := remoteEnvironment\<rparr>
      in bnd (configured_reapi_version_equal_to_or_newer_than env ''2.1'')
           (\<lambda>outputPathsSupported.
              let commandProto = foldl (add_output_file outputPathsSupported) commandProto
                                   outputFiles;
                  commandProto = foldl (add_output_directory outputPathsSupported) commandProto
                                   outputDirectories;
                  commandProto = foldl add_platform_property commandProto platformProperties
              in Inr (commandProto\<lparr>working_directory := workingDirectory\<rparr>)))"

definition generateCommandProto ::
  "environment \<Rightarrow> string list \<Rightarrow> string list \<Rightarrow> string list \<Rightarrow> (string \<times> string) list
     \<Rightarrow> (string \<times> string) list \<Rightarrow> string \<Rightarrow> fault + Command" where
  "generateCommandProto env command products outputDirectories remoteEnvironment
       platformProperties workingDirectory =
     populateCommandProto env command products outputDirectories remoteEnvironment
       platformProperties (resolvePathFromPrefixMap env workingDirectory)"

record Action =
  command_digest :: Digest
  input_root_digest :: Digest
  do_not_cache :: bool
  salt :: "string option"
  action_platform :: "(string \<times> string) list option"

text \<open>What the end of \<open>BuildAction\<close> hands back and stores: the Action, the Command it
  refers to, and the entry added to the blob map.\<close>

record built_action =
  action :: Action
  commandProto :: Command
  command_blob :: "Digest \<times> string"

text \<open>
  The last part of \<open>ActionBuilder::BuildAction\<close>, from the call of
  \<open>generateCommandProto\<close> to the return. The parts before it (dependencies, Merkle
  tree, working directory, remote environment) do not read \<open>RECC_ACTION_SALT\<close> or
  \<open>RECC_REAPI_VERSION\<close>; their results are the arguments: the rewritten command
  line, the products, the remote environment, the working directory of the command
  and the digest of the input root.
\<close>

definition BuildAction ::
  "environment \<Rightarrow> string list \<Rightarrow> string list \<Rightarrow> (string \<times> string) list \<Rightarrow> string
     \<Rightarrow> Digest \<Rightarrow> fault + built_action" where
  "BuildAction env command products remoteEnv commandWorkingDirectory directoryDigest =
     bnd (generateCommandProto env command products (RECC_OUTPUT_DIRECTORIES_OVERRIDE env)
            remoteEnv (RECC_REMOTE_PLATFORM env) commandWorkingDirectory)
       (\<lambda>commandProto.
          let commandDigest = make_digest env commandProto;
              blob = (commandDigest, SerializeAsString env commandProto);
              action = \<lparr> command_digest = commandDigest,
                         input_root_digest = directoryDigest,
                         do_not_cache = RECC_ACTION_UNCACHEABLE env,
                         salt = None, action_platform = None \<rparr>;
              action = (if RECC_ACTION_SALT env \<noteq> []
                        then action\<lparr>salt := Some (RECC_ACTION_SALT env)\<rparr> else action)
          in bnd (configured_reapi_version_equal_to_or_newer_than env ''2.2'')
               (\<lambda>platformInAction.
                  let action = (if platformInAction
                                then action\<lparr>action_platform :=
                                       Some (case platform commandProto of None \<Rightarrow> []
                                             | Some properties \<Rightarrow> properties)\<rparr>
                                else action)
                  in Inr \<lparr> action = action, commandProto = commandProto,
                             command_blob = blob \<rparr>))"

text \<open>A configuration for examples: nothing set, REAPI 2.2, an empty file system,
  library functions that are the identity on paths and digest a message by its
  arguments, and for the tables of compilerdefaults.h the compiler names and default
  options the spec mentions.\<close>

definition example_environment :: environment where
  "example_environment = \<lparr>
     RECC_PROJECT_ROOT = [], RECC_PREFIX_REPLACEMENT = [], RECC_NO_PATH_REWRITE = False,
     RECC_DEPS_GLOBAL_PATHS = False, RECC_REAPI_VERSION = ''2.2'', RECC_ACTION_SALT = [],
     RECC_ACTION_UNCACHEABLE = False, RECC_OUTPUT_DIRECTORIES_OVERRIDE = [],
     RECC_REMOTE_PLATFORM = [(''ISA'', ''x86-64''), (''OSFamily'', [])],
     isDirectory = (\<lambda>path. False), isRegularFile = (\<lambda>path. False),
     makePathRelative = (\<lambda>path workingDirectory. path),
     make_digest = (\<lambda>message. \<lparr>hash_hex = concat (arguments message),
                                 size_bytes = length (arguments message)\<rparr>),
     SerializeAsString = (\<lambda>message. concat (arguments message)),
     symlink_target = (\<lambda>path. None), getPathToCommand = (\<lambda>path. path),
     temporary_file_name = ''/tmp/recc-aix-deps'', RECC_PLATFORM_COMPILER = None,
     on_solaris = False,
     Gcc = {''gcc'', ''g++'', ''c++'', ''clang'', ''clang++''},
     GccPreprocessor = {''gcc-preprocessor''},
     SunCPP = {''CC''},
     AIX = {''xlc'', ''xlc++'', ''xlC''},
     CCompilers = {''cc'', ''c89'', ''c99''},
     GccSupportedLanguages = {''c'', ''c++'', ''c-header'', ''c++-header''},
     GccDefaultDeps = [''-M''], SunCPPDefaultDeps = [''-xM''],
     AIXDefaultDeps = [''-M'', ''-MF''] \<rparr>"

definition old_reapi_environment :: environment where
  "old_reapi_environment = example_environment\<lparr>RECC_REAPI_VERSION := ''2.0''\<rparr>"

section \<open>The command parser (parsedcommand.cpp, parsedcommandfactory.cpp)\<close>

subsection \<open>Construction of a ParsedCommand\<close>

definition isAbsolutePath :: "string \<Rightarrow> bool" where
  "isAbsolutePath path = (path \<noteq> [] \<and> hd path = CHR ''/'')"

text \<open>\<open>resolveSymlink\<close>: \<open>getStat\<close> and \<open>getSymlinkContents\<close> throw when the path is
  empty, does not exist or is not a symbolic link.\<close>

definition resolveSymlink :: "environment \<Rightarrow> string \<Rightarrow> fault + string" where
  "resolveSymlink env path =
     (case symlink_target env path of
        None \<Rightarrow> Inl (runtime_error path)
      | Some target \<Rightarrow>
          if isAbsolutePath target then Inr target
          else Inr ((case rfind_char CHR ''/'' path of None \<Rightarrow> []
                     | Some lastSlash \<Rightarrow> take (lastSlash + 1) path) @ target))"

definition is_version_character :: "char \<Rightarrow> bool" where
  "is_version_character character =
     ((48 \<le> (of_char character :: nat) \<and> (of_char character :: nat) \<le> 57) \<or>
      character = CHR ''.'' \<or> character = CHR ''-'')"

text \<open>The tail of \<open>commandBasename\<close>: an \<open>_r\<close> suffix (possibly followed by one more
  character) is cut, then the trailing version characters.\<close>

definition strip_version :: "string \<Rightarrow> string" where
  "strip_version basename =
     (let len = length basename;
          len = (if 2 < len \<and> drop (len - 2) basename = ''_r'' then len - 2
                 else if 3 < len \<and> take 2 (drop (len - 3) basename) = ''_r'' then len - 3
                 else len)
      in rev (dropWhile is_version_character (rev (take len basename))))"

function commandBasename :: "environment \<Rightarrow> string \<Rightarrow> nat \<Rightarrow> fault + string" where
  "commandBasename env path symlinks =
     (let basename = (case rfind_char CHR ''/'' path of None \<Rightarrow> path
                      | Some lastSlash \<Rightarrow> drop (lastSlash + 1) path)
      in if basename \<in> CCompilers env then
           (let absolutePath = getPathToCommand env path
            in if absolutePath \<noteq> [] \<and> symlink_target env absolutePath \<noteq> None then
                 (if 40 \<le> symlinks then Inl (system_error ''ELOOP'')
                  else bnd (resolveSymlink env absolutePath)
                         (\<lambda>symlinkTarget. commandBasename env symlinkTarget (symlinks + 1)))
               else (case RECC_PLATFORM_COMPILER env of Some compiler \<Rightarrow> Inr compiler
                     | None \<Rightarrow> Inr basename))
         else Inr (strip_version basename))"
  by pat_completeness auto
termination
  by (relation "measure (\<lambda>(env, path, symlinks). 40 - symlinks)") auto

text \<open>The constructor \<open>ParsedCommand(command, workingDirectory)\<close>.\<close>

definition ParsedCommand_init ::
  "environment \<Rightarrow> string list \<Rightarrow> string \<Rightarrow> fault + ParsedCommand" where
  "ParsedCommand_init env command workingDirectory =
     (if command = [] then Inr ParsedCommand_default
      else let compiler = hd command in
        if compiler = [] then Inr ParsedCommand_default
        else bnd (commandBasename env compiler 0)
          (\<lambda>basename.
             let pc = ParsedCommand_default\<lparr>d_compiler := basename\<rparr>;
                 pc = (if basename \<in> Gcc env then
                         pc\<lparr>d_defaultDepsCommand := GccDefaultDeps env,
                            d_isClang := (basename = ''clang'' \<or> basename = ''clang++''),
                            d_isGcc := \<not> (basename = ''clang'' \<or> basename = ''clang++'')\<rparr>
                       else if basename \<in> SunCPP env then
                         pc\<lparr>d_defaultDepsCommand := SunCPPDefaultDeps env,
                            d_producesSunMakeRules := True, d_isSunStudio := True\<rparr>
                       else if basename \<in> AIX env then
                         pc\<lparr>d_defaultDepsCommand := AIXDefaultDeps env @ [temporary_file_name env],
                            d_producesSunMakeRules := True,
                            d_dependencyFileAIX := Some (temporary_file_name env)\<rparr>
                       else pc);
                 pc = (if d_isClang pc \<and> RECC_DEPS_GLOBAL_PATHS env
                       then pc\<lparr>d_defaultDepsCommand := d_defaultDepsCommand pc @ [''-v'']\<rparr>
                       else pc)
             in Inr (pc\<lparr>d_command := d_command pc @
                                        [modifyPathForRemote env compiler workingDirectory False],
                          d_dependenciesCommand := d_dependenciesCommand pc @ [compiler],
                          d_originalCommand := tl command\<rparr>)))"

subsection \<open>Rule tables and option matching\<close>

text \<open>The handlers of \<open>struct ParseRule\<close>, as names; \<open>apply_rule\<close> below runs them.\<close>

datatype parse_rule =
    rule_parseOptionSimple
  | rule_parseInterfersWithDepsOption
  | rule_parseIsInputPathOption
  | rule_parseIsEqualInputPathOption
  | rule_parseIsCompileOption
  | rule_parseOptionRedirectsOutput
  | rule_parseOptionRedirectsDepsOutput
  | rule_parseOptionDepsRuleTarget
  | rule_parseIsPreprocessorArgOption
  | rule_parseIsMacro
  | rule_parseOptionSetsGccLanguage
  | rule_parseOptionIsUnsupported
  | rule_parseOptionCoverageOutput
  | rule_parseOptionRedirectsCoverageOutput
  | rule_parseOptionSplitDwarf
  | rule_parseOptionSolarisPhase
  | rule_parseOptionNative
  | rule_parseOptionParam
  | rule_parseLdLibrary
  | rule_parseLdLibraryPath
  | rule_parseLdOptionDynamic
  | rule_parseLdOptionStatic
  | rule_parseLdOptionState
  | rule_parseLdOptionEmulation
  | rule_parseSolarisLdOptionB
  | rule_parseSolarisLdOptionD
  | rule_parseSolarisLdOptionY
  | rule_parseSolarisLdMapfile

text \<open>
  \<open>CompilerParseRulesMap\<close> is a \<open>std::map\<close> ordered by \<open>std::greater<std::string>\<close>:
  its entries are visited with the keys in descending lexicographic order. The model is
  the list of the entries in that order; the tables below list the entries of the
  source's initialisers accordingly.
\<close>

type_synonym 'h rules_map = "(string \<times> 'h) list"

type_synonym CompilerParseRulesMap = "parse_rule rules_map"

definition rules_map_ordered :: "'h rules_map \<Rightarrow> bool" where
  "rules_map_ordered options = sorted_wrt (\<lambda>a b. b < a) (map fst options)"

definition GccRules :: CompilerParseRulesMap where
  "GccRules =
    [(''-z'', rule_parseOptionParam),
     (''-x'', rule_parseOptionSetsGccLanguage),
     (''-specs'', rule_parseOptionIsUnsupported),
     (''-save-temps'', rule_parseOptionIsUnsupported),
     (''-o'', rule_parseOptionRedirectsOutput),
     (''-mtune'', rule_parseOptionNative),
     (''-mcpu'', rule_parseOptionNative),
     (''-march'', rule_parseOptionNative),
     (''-isystem'', rule_parseIsInputPathOption),
     (''-isysroot'', rule_parseIsInputPathOption),
     (''-iquote'', rule_parseIsInputPathOption),
     (''-iprefix'', rule_parseIsInputPathOption),
     (''-include'', rule_parseIsInputPathOption),
     (''-imacros'', rule_parseIsInputPathOption),
     (''-idirafter'', rule_parseIsInputPathOption),
     (''-gsplit-dwarf'', rule_parseOptionSplitDwarf),
     (''-ftest-coverage'', rule_parseOptionCoverageOutput),
     (''-fprofile-use'', rule_parseOptionIsUnsupported),
     (''-fprofile-note'', rule_parseOptionRedirectsCoverageOutput),
     (''-fdump'', rule_parseOptionIsUnsupported),
     (''-fbranch-probabilities'', rule_parseOptionIsUnsupported),
     (''-fauto-profile'', rule_parseOptionIsUnsupported),
     (''-c'', rule_parseIsCompileOption),
     (''-Xpreprocessor'', rule_parseIsPreprocessorArgOption),
     (''-Wp,'', rule_parseIsPreprocessorArgOption),
     (''-Wmissing-include-dirs'', rule_parseInterfersWithDepsOption),
     (''-Werror=missing-include-dirs'', rule_parseInterfersWithDepsOption),
     (''-S'', rule_parseOptionIsUnsupported),
     (''-MV'', rule_parseInterfersWithDepsOption),
     (''-MT'', rule_parseOptionDepsRuleTarget),
     (''-MQ'', rule_parseOptionDepsRuleTarget),
     (''-MP'', rule_parseInterfersWithDepsOption),
     (''-MMD'', rule_parseInterfersWithDepsOption),
     (''-MM'', rule_parseOptionIsUnsupported),
     (''-MG'', rule_parseInterfersWithDepsOption),
     (''-MF'', rule_parseOptionRedirectsDepsOutput),
     (''-MD'', rule_parseInterfersWithDepsOption),
     (''-M'', rule_parseOptionIsUnsupported),
     (''-I'', rule_parseIsInputPathOption),
     (''-E'', rule_parseOptionIsUnsupported),
     (''-D'', rule_parseIsMacro),
     (''--sysroot'', rule_parseIsEqualInputPathOption),
     (''--param'', rule_parseOptionParam),
     (''--coverage'', rule_parseOptionCoverageOutput)]"

definition GccPreprocessorRules :: CompilerParseRulesMap where
  "GccPreprocessorRules =
    [(''-o'', rule_parseOptionRedirectsOutput),
     (''-isystem'', rule_parseIsInputPathOption),
     (''-isysroot'', rule_parseIsInputPathOption),
     (''-iquote'', rule_parseIsInputPathOption),
     (''-iprefix'', rule_parseIsInputPathOption),
     (''-include'', rule_parseIsInputPathOption),
     (''-imacros'', rule_parseIsInputPathOption),
     (''-idirafter'', rule_parseIsInputPathOption),
     (''-MV'', rule_parseInterfersWithDepsOption),
     (''-MT'', rule_parseOptionDepsRuleTarget),
     (''-MQ'', rule_parseOptionDepsRuleTarget),
     (''-MP'', rule_parseInterfersWithDepsOption),
     (''-MMD'', rule_parseInterfersWithDepsOption),
     (''-MM'', rule_parseOptionIsUnsupported),
     (''-MG'', rule_parseInterfersWithDepsOption),
     (''-MF'', rule_parseOptionRedirectsDepsOutput),
     (''-MD'', rule_parseInterfersWithDepsOption),
     (''-M'', rule_parseOptionIsUnsupported),
     (''-I'', rule_parseIsInputPathOption),
     (''--sysroot'', rule_parseIsEqualInputPathOption)]"

definition SunCPPRules :: CompilerParseRulesMap where
  "SunCPPRules =
    [(''-xprofile'', rule_parseOptionIsUnsupported),
     (''-xpch'', rule_parseOptionIsUnsupported),
     (''-xarch'', rule_parseOptionSimple),
     (''-xar'', rule_parseOptionIsUnsupported),
     (''-xMMD'', rule_parseInterfersWithDepsOption),
     (''-xMF'', rule_parseOptionRedirectsDepsOutput),
     (''-xMD'', rule_parseInterfersWithDepsOption),
     (''-xM1'', rule_parseOptionIsUnsupported),
     (''-xM'', rule_parseOptionIsUnsupported),
     (''-o'', rule_parseOptionRedirectsOutput),
     (''-include'', rule_parseIsInputPathOption),
     (''-c'', rule_parseIsCompileOption),
     (''-S'', rule_parseOptionIsUnsupported),
     (''-Qoption'', rule_parseOptionSolarisPhase),
     (''-I'', rule_parseIsInputPathOption),
     (''-E'', rule_parseOptionIsUnsupported),
     (''-D'', rule_parseIsMacro),
     (''-###'', rule_parseOptionIsUnsupported)]"

definition AixRules :: CompilerParseRulesMap where
  "AixRules =
    [(''-qsyntaxonly'', rule_parseInterfersWithDepsOption),
     (''-qshowpdf'', rule_parseOptionIsUnsupported),
     (''-qmakedep=gcc'', rule_parseInterfersWithDepsOption),
     (''-qmakedep'', rule_parseInterfersWithDepsOption),
     (''-qinclude'', rule_parseIsInputPathOption),
     (''-qexpfile'', rule_parseOptionRedirectsOutput),
     (''-qdump_class_hierachy'', rule_parseOptionIsUnsupported),
     (''-qcinc'', rule_parseIsInputPathOption),
     (''-o'', rule_parseOptionRedirectsOutput),
     (''-c'', rule_parseIsCompileOption),
     (''-S'', rule_parseOptionIsUnsupported),
     (''-MF'', rule_parseOptionRedirectsDepsOutput),
     (''-M'', rule_parseInterfersWithDepsOption),
     (''-I'', rule_parseIsInputPathOption),
     (''-E'', rule_parseOptionIsUnsupported),
     (''-D'', rule_parseIsMacro),
     (''-#'', rule_parseOptionIsUnsupported)]"

definition LdRules :: CompilerParseRulesMap where
  "LdRules =
    [(''-z'', rule_parseOptionParam),
     (''-static'', rule_parseLdOptionStatic),
     (''-soname'', rule_parseOptionParam),
     (''-rpath-link'', rule_parseLdLibraryPath),
     (''-rpath'', rule_parseLdLibraryPath),
     (''-o'', rule_parseOptionRedirectsOutput),
     (''-non_shared'', rule_parseLdOptionStatic),
     (''-m'', rule_parseLdOptionEmulation),
     (''-l'', rule_parseLdLibrary),
     (''-dy'', rule_parseLdOptionDynamic),
     (''-dn'', rule_parseLdOptionStatic),
     (''-dT'', rule_parseOptionIsUnsupported),
     (''-call_shared'', rule_parseLdOptionDynamic),
     (''-a'', rule_parseOptionIsUnsupported),
     (''-Y'', rule_parseOptionIsUnsupported),
     (''-T'', rule_parseOptionIsUnsupported),
     (''-R'', rule_parseLdLibraryPath),
     (''-Map'', rule_parseOptionIsUnsupported),
     (''-L'', rule_parseLdLibraryPath),
     (''-Bstatic'', rule_parseLdOptionStatic),
     (''-Bdynamic'', rule_parseLdOptionDynamic),
     (''--version-script'', rule_parseOptionIsUnsupported),
     (''--sysroot'', rule_parseOptionIsUnsupported),
     (''--soname'', rule_parseOptionParam),
     (''--script'', rule_parseOptionIsUnsupported),
     (''--rpath-link'', rule_parseLdLibraryPath),
     (''--rpath'', rule_parseLdLibraryPath),
     (''--retain-symbols-file'', rule_parseOptionIsUnsupported),
     (''--push-state'', rule_parseLdOptionState),
     (''--pop-state'', rule_parseLdOptionState),
     (''--out-implib'', rule_parseOptionIsUnsupported),
     (''--library-path'', rule_parseLdLibraryPath),
     (''--library'', rule_parseLdLibrary),
     (''--just-symbols'', rule_parseOptionIsUnsupported),
     (''--error-handling-script'', rule_parseOptionIsUnsupported),
     (''--dynamic-list'', rule_parseOptionIsUnsupported),
     (''--dependency-file'', rule_parseOptionIsUnsupported),
     (''--default-script'', rule_parseOptionIsUnsupported)]"

definition SolarisLdRules :: CompilerParseRulesMap where
  "SolarisLdRules =
    [(''-z'', rule_parseOptionParam),
     (''-u'', rule_parseIsMacro),
     (''-soname'', rule_parseOptionParam),
     (''-rpath'', rule_parseLdLibraryPath),
     (''-o'', rule_parseOptionRedirectsOutput),
     (''-l'', rule_parseLdLibrary),
     (''-h'', rule_parseOptionParam),
     (''-d'', rule_parseSolarisLdOptionD),
     (''-Y'', rule_parseSolarisLdOptionY),
     (''-R'', rule_parseLdLibraryPath),
     (''-M'', rule_parseSolarisLdMapfile),
     (''-L'', rule_parseLdLibraryPath),
     (''-B'', rule_parseSolarisLdOptionB),
     (''--library-path'', rule_parseLdLibraryPath),
     (''--library'', rule_parseLdLibrary)]"

definition isspace :: "char \<Rightarrow> bool" where
  "isspace c = (c = CHR '' '' \<or> (9 \<le> (of_char c :: nat) \<and> (of_char c :: nat) \<le> 13))"

text \<open>The substring search of \<open>matchCompilerOptions\<close>: the first entry, in the order of
  the map, whose key equals \<open>option.substr(0, key.length())\<close>.\<close>

fun substring_search :: "'h rules_map \<Rightarrow> string \<Rightarrow> (string \<times> 'h) option" where
  "substring_search [] option = None"
| "substring_search (option_map_val # rest) option =
     (if take (length (fst option_map_val)) option = fst option_map_val
      then Some option_map_val
      else substring_search rest option)"

definition matchCompilerOptions :: "string \<Rightarrow> 'h rules_map \<Rightarrow> string \<times> 'h option" where
  "matchCompilerOptions option options =
     (if option \<noteq> [] \<and> (hd option = CHR ''-'' \<or> hd option = CHR ''+'') then
        (let tempOption = takeWhile (\<lambda>c. c \<noteq> CHR ''='') option;
             tempOption = filter (\<lambda>c. \<not> isspace c) tempOption
         in case map_of options tempOption of
              Some handler \<Rightarrow> (tempOption, Some handler)
            | None \<Rightarrow>
                (case substring_search options option of
                   Some (key, handler) \<Rightarrow> (key, Some handler)
                 | None \<Rightarrow> ([], None)))
      else ([], None))"

text \<open>The rule the spec states for a token without an exact match: the table sorted by
  descending key length, and the first key that is a prefix of the token.\<close>

definition longest_prefix_rule :: "'h rules_map \<Rightarrow> string \<Rightarrow> (string \<times> 'h) option" where
  "longest_prefix_rule options option =
     find (\<lambda>entry. prefix (fst entry) option)
       (rev (sort_key (\<lambda>entry. length (fst entry)) options))"

subsection \<open>The parse rules\<close>

text \<open>
  A handler works on the \<open>ParsedCommand\<close> it is given and returns it changed.
  \<open>d_originalCommand\<close> is a \<open>std::list\<close>; \<open>front()\<close> and \<open>pop_front()\<close> on an empty
  list are undefined behaviour.
\<close>

definition front :: "ParsedCommand \<Rightarrow> fault + string" where
  "front command =
     (case d_originalCommand command of [] \<Rightarrow> Inl undefined_behaviour | token # rest \<Rightarrow> Inr token)"

definition pop_front :: "ParsedCommand \<Rightarrow> fault + ParsedCommand" where
  "pop_front command =
     (case d_originalCommand command of
        [] \<Rightarrow> Inl undefined_behaviour
      | token # rest \<Rightarrow> Inr (command\<lparr>d_originalCommand := rest\<rparr>))"

definition push_command :: "string \<Rightarrow> ParsedCommand \<Rightarrow> ParsedCommand" where
  "push_command arg command = command\<lparr>d_command := d_command command @ [arg]\<rparr>"

definition push_dependencies :: "string \<Rightarrow> ParsedCommand \<Rightarrow> ParsedCommand" where
  "push_dependencies arg command =
     command\<lparr>d_dependenciesCommand := d_dependenciesCommand command @ [arg]\<rparr>"

definition set_unsupported :: "ParsedCommand \<Rightarrow> ParsedCommand" where
  "set_unsupported command = command\<lparr>d_containsUnsupportedOptions := True\<rparr>"

text \<open>The common tail of \<open>appendAndRemoveOption\<close> and \<open>parseGccOption\<close>: a path given
  to an output option is recorded as a product or as a dependency product.\<close>

definition record_output :: "bool \<Rightarrow> bool \<Rightarrow> string \<Rightarrow> ParsedCommand \<Rightarrow> ParsedCommand" where
  "record_output isOutput depsOutput replacedPath command =
     (if isOutput \<and> \<not> depsOutput
        then command\<lparr>d_commandProducts := insert replacedPath (d_commandProducts command)\<rparr>
      else if isOutput
        then command\<lparr>d_commandDepsProducts := insert replacedPath (d_commandDepsProducts command)\<rparr>
      else command)"

definition record_include_dir ::
  "environment \<Rightarrow> string \<Rightarrow> string \<Rightarrow> ParsedCommand \<Rightarrow> ParsedCommand" where
  "record_include_dir env path replacedPath command =
     (if isDirectory env (normalizePath path)
      then command\<lparr>d_includeDirs := insert replacedPath (d_includeDirs command)\<rparr>
      else command)"

definition appendAndRemoveOption ::
  "environment \<Rightarrow> ParsedCommand \<Rightarrow> string \<Rightarrow> bool \<Rightarrow> bool \<Rightarrow> bool \<Rightarrow> bool
     \<Rightarrow> fault + ParsedCommand" where
  "appendAndRemoveOption env command workingDirectory isPath toDeps isOutput depsOutput =
     bnd (front command)
       (\<lambda>option.
          if isPath then
            (let replacedPath = modifyPathForRemote env option workingDirectory True;
                 command = record_include_dir env option replacedPath command;
                 command = (if toDeps then push_dependencies option command else command);
                 command = push_command replacedPath command;
                 command = record_output isOutput depsOutput replacedPath command
             in pop_front command)
          else
            (let command = push_command option command;
                 command = (if toDeps then push_dependencies option command else command)
             in pop_front command))"

definition parseGccOption ::
  "environment \<Rightarrow> ParsedCommand \<Rightarrow> string \<Rightarrow> string \<Rightarrow> bool \<Rightarrow> bool \<Rightarrow> bool
     \<Rightarrow> fault + ParsedCommand" where
  "parseGccOption env command workingDirectory option toDeps isOutput depsOutput =
     bnd (front command)
       (\<lambda>val.
          if val = option then
            bnd (appendAndRemoveOption env command workingDirectory False toDeps False False)
              (\<lambda>command. appendAndRemoveOption env command workingDirectory True toDeps
                             isOutput depsOutput)
          else
            bnd (substr_from val (length option))
              (\<lambda>optionPath.
                 let equalPos = find_char CHR ''='' val;
                     modifiedOption = (if equalPos \<noteq> None then option @ ''='' else option);
                     optionPath = (case equalPos of None \<Rightarrow> optionPath
                                   | Some pos \<Rightarrow> drop (pos + 1) val);
                     replacedPath = modifyPathForRemote env optionPath workingDirectory True;
                     command = record_include_dir env optionPath replacedPath command;
                     command = push_command (modifiedOption @ replacedPath) command;
                     command = (if isOutput \<and> \<not> depsOutput then
                                  command\<lparr>d_commandProducts :=
                                    insert replacedPath (d_commandProducts command)\<rparr>
                                else if isOutput then
                                  command\<lparr>d_commandDepsProducts :=
                                    insert replacedPath (d_commandDepsProducts command)\<rparr>
                                else if toDeps then
                                  push_dependencies (modifiedOption @ optionPath) command
                                else command)
                 in pop_front command))"

definition parseOptionSimple :: "environment \<Rightarrow> ParsedCommand \<Rightarrow> string \<Rightarrow> string
    \<Rightarrow> fault + ParsedCommand" where
  "parseOptionSimple env command workingDirectory option =
     appendAndRemoveOption env command workingDirectory False True False False"

definition parseInterfersWithDepsOption :: "environment \<Rightarrow> ParsedCommand \<Rightarrow> string \<Rightarrow> string
    \<Rightarrow> fault + ParsedCommand" where
  "parseInterfersWithDepsOption env command workingDirectory option =
     bnd (front command)
       (\<lambda>token.
          let command =
                (if token = ''-MMD'' \<or> token = ''-MD'' \<or> token = ''-xMMD'' \<or> token = ''-xMD''
                   then command\<lparr>d_md_option_set := True\<rparr>
                 else if is_AIX command \<and> (option = ''-M'' \<or> option = ''-qmakedep'')
                   then command\<lparr>d_qmakedep_option_set := True\<rparr>
                 else if token = ''-Wmissing-include-dirs'' \<or>
                         token = ''-Werror=missing-include-dirs''
                   then command\<lparr>d_upload_all_include_dirs := True\<rparr>
                 else command)
          in pop_front (push_command token command))"

definition parseIsInputPathOption :: "environment \<Rightarrow> ParsedCommand \<Rightarrow> string \<Rightarrow> string
    \<Rightarrow> fault + ParsedCommand" where
  "parseIsInputPathOption env command workingDirectory option =
     parseGccOption env command workingDirectory option True False False"

definition parseIsEqualInputPathOption :: "environment \<Rightarrow> ParsedCommand \<Rightarrow> string \<Rightarrow> string
    \<Rightarrow> fault + ParsedCommand" where
  "parseIsEqualInputPathOption env command workingDirectory option =
     parseGccOption env command workingDirectory option True False False"

definition parseIsCompileOption :: "environment \<Rightarrow> ParsedCommand \<Rightarrow> string \<Rightarrow> string
    \<Rightarrow> fault + ParsedCommand" where
  "parseIsCompileOption env command workingDirectory option =
     appendAndRemoveOption env (command\<lparr>d_compilerCommand := True\<rparr>) workingDirectory
       False True False False"

definition parseOptionRedirectsOutput :: "environment \<Rightarrow> ParsedCommand \<Rightarrow> string \<Rightarrow> string
    \<Rightarrow> fault + ParsedCommand" where
  "parseOptionRedirectsOutput env command workingDirectory option =
     parseGccOption env command workingDirectory option False True False"

definition parseOptionRedirectsDepsOutput :: "environment \<Rightarrow> ParsedCommand \<Rightarrow> string \<Rightarrow> string
    \<Rightarrow> fault + ParsedCommand" where
  "parseOptionRedirectsDepsOutput env command workingDirectory option =
     parseGccOption env command workingDirectory option False True True"

definition parseOptionDepsRuleTarget :: "environment \<Rightarrow> ParsedCommand \<Rightarrow> string \<Rightarrow> string
    \<Rightarrow> fault + ParsedCommand" where
  "parseOptionDepsRuleTarget env command workingDirectory option =
     parseGccOption env command workingDirectory option False False False"

text \<open>\<open>parseStageOptionList\<close>: the state of the loop is \<open>(quoted, current, result)\<close>.\<close>

definition stage_option_step :: "bool \<times> string \<times> string list \<Rightarrow> char \<Rightarrow> bool \<times> string \<times> string list" where
  "stage_option_step state character =
     (case state of (quoted, current, result) \<Rightarrow>
        if character = CHR 0x27 then (\<not> quoted, current, result)
        else if character = CHR '','' \<and> \<not> quoted then (quoted, [], result @ [current])
        else (quoted, current @ [character], result))"

definition parseStageOptionList :: "string \<Rightarrow> string list \<Rightarrow> string list" where
  "parseStageOptionList option result =
     (case foldl stage_option_step (False, [], result) option of
        (quoted, current, result) \<Rightarrow> result @ [current])"

definition parseIsPreprocessorArgOption :: "environment \<Rightarrow> ParsedCommand \<Rightarrow> string \<Rightarrow> string
    \<Rightarrow> fault + ParsedCommand" where
  "parseIsPreprocessorArgOption env command workingDirectory option =
     bnd (front command)
       (\<lambda>val.
          if option = ''-Wp,'' then
            bnd (substr_from val (length option))
              (\<lambda>optionList.
                 pop_front (command\<lparr>d_preProcessorOptions :=
                   parseStageOptionList optionList (d_preProcessorOptions command)\<rparr>))
          else if option = ''-Xpreprocessor'' then
            bnd (pop_front command)
              (\<lambda>command. bnd (front command)
                 (\<lambda>arg. pop_front (command\<lparr>d_preProcessorOptions :=
                                       d_preProcessorOptions command @ [arg]\<rparr>)))
          else pop_front command)"

definition parseIsMacro :: "environment \<Rightarrow> ParsedCommand \<Rightarrow> string \<Rightarrow> string
    \<Rightarrow> fault + ParsedCommand" where
  "parseIsMacro env command workingDirectory option =
     bnd (front command)
       (\<lambda>token.
          let command = push_dependencies token (push_command token command)
          in if token = option then
               bnd (pop_front command)
                 (\<lambda>command. bnd (front command)
                    (\<lambda>arg. pop_front (push_dependencies arg (push_command arg command))))
             else pop_front command)"

definition parseOptionSetsGccLanguage :: "environment \<Rightarrow> ParsedCommand \<Rightarrow> string \<Rightarrow> string
    \<Rightarrow> fault + ParsedCommand" where
  "parseOptionSetsGccLanguage env command workingDirectory option =
     bnd (front command)
       (\<lambda>originalCommandOption. bnd (pop_front command)
          (\<lambda>command.
             if originalCommandOption = option \<and> d_originalCommand command = []
               then Inr (set_unsupported command)
             else
               bnd (if originalCommandOption = option then front command
                    else substr_from originalCommandOption (length option))
                 (\<lambda>language.
                    let command = command\<lparr>d_originalCommand :=
                                    originalCommandOption # d_originalCommand command\<rparr>;
                        command = (if language \<notin> GccSupportedLanguages env
                                   then set_unsupported command else command)
                    in parseGccOption env command workingDirectory option True False False)))"

definition parseOptionIsUnsupported :: "environment \<Rightarrow> ParsedCommand \<Rightarrow> string \<Rightarrow> string
    \<Rightarrow> fault + ParsedCommand" where
  "parseOptionIsUnsupported env command workingDirectory option =
     Inr (command\<lparr>d_containsUnsupportedOptions := True,
                   d_dependenciesCommand := d_dependenciesCommand command @ d_originalCommand command,
                   d_command := d_command command @ d_originalCommand command,
                   d_originalCommand := []\<rparr>)"

definition parseOptionCoverageOutput :: "environment \<Rightarrow> ParsedCommand \<Rightarrow> string \<Rightarrow> string
    \<Rightarrow> fault + ParsedCommand" where
  "parseOptionCoverageOutput env command workingDirectory option =
     bnd (front command)
       (\<lambda>originalCommandOption. bnd (pop_front command)
          (\<lambda>command. Inr (push_command originalCommandOption
                             (command\<lparr>d_coverage_option_set := True\<rparr>))))"

definition parseOptionSplitDwarf :: "environment \<Rightarrow> ParsedCommand \<Rightarrow> string \<Rightarrow> string
    \<Rightarrow> fault + ParsedCommand" where
  "parseOptionSplitDwarf env command workingDirectory option =
     appendAndRemoveOption env (command\<lparr>d_split_dwarf_option_set := True\<rparr>) workingDirectory
       False True False False"

definition parseOptionSolarisPhase :: "environment \<Rightarrow> ParsedCommand \<Rightarrow> string \<Rightarrow> string
    \<Rightarrow> fault + ParsedCommand" where
  "parseOptionSolarisPhase env command workingDirectory option =
     (if length (d_originalCommand command) < 3
      then parseOptionIsUnsupported env command workingDirectory option
      else bnd (appendAndRemoveOption env command workingDirectory False True False False)
        (\<lambda>command. bnd (appendAndRemoveOption env command workingDirectory False True False False)
           (\<lambda>command. appendAndRemoveOption env command workingDirectory False True False False)))"

definition parseOptionRedirectsCoverageOutput :: "environment \<Rightarrow> ParsedCommand \<Rightarrow> string \<Rightarrow> string
    \<Rightarrow> fault + ParsedCommand" where
  "parseOptionRedirectsCoverageOutput env command workingDirectory option =
     bnd (front command)
       (\<lambda>originalCommandOption. bnd (pop_front command)
          (\<lambda>command.
             case find_char CHR ''='' originalCommandOption of
               Some equalPos \<Rightarrow>
                 (let optionPath = drop (equalPos + 1) originalCommandOption;
                      replacedPath = modifyPathForRemote env optionPath workingDirectory True
                  in Inr (push_command originalCommandOption
                            (command\<lparr>d_commandCoverageProducts :=
                               insert replacedPath (d_commandCoverageProducts command)\<rparr>)))
             | None \<Rightarrow> Inr (set_unsupported command)))"

definition parseOptionNative :: "environment \<Rightarrow> ParsedCommand \<Rightarrow> string \<Rightarrow> string
    \<Rightarrow> fault + ParsedCommand" where
  "parseOptionNative env command workingDirectory option =
     bnd (front command)
       (\<lambda>originalCommandOption.
          case find_char CHR ''='' originalCommandOption of
            Some equalPos \<Rightarrow>
              if drop (equalPos + 1) originalCommandOption = ''native''
              then parseOptionIsUnsupported env command workingDirectory option
              else appendAndRemoveOption env command workingDirectory False True False False
          | None \<Rightarrow> appendAndRemoveOption env command workingDirectory False True False False)"

definition parseOptionParam :: "environment \<Rightarrow> ParsedCommand \<Rightarrow> string \<Rightarrow> string
    \<Rightarrow> fault + ParsedCommand" where
  "parseOptionParam env command workingDirectory option =
     bnd (front command)
       (\<lambda>val.
          if val = option then
            (if length (d_originalCommand command) < 2
             then parseOptionIsUnsupported env command workingDirectory option
             else bnd (appendAndRemoveOption env command workingDirectory False True False False)
               (\<lambda>command. appendAndRemoveOption env command workingDirectory False True
                              False False))
          else appendAndRemoveOption env command workingDirectory False True False False)"

definition parseLdLibrary :: "environment \<Rightarrow> ParsedCommand \<Rightarrow> string \<Rightarrow> string
    \<Rightarrow> fault + ParsedCommand" where
  "parseLdLibrary env command workingDirectory option =
     bnd (front command)
       (\<lambda>val.
          bnd (if val = option then
                 bnd (appendAndRemoveOption env command workingDirectory False False False False)
                   (\<lambda>command. bnd (front command)
                      (\<lambda>library.
                         bnd (appendAndRemoveOption env command workingDirectory False False
                                False False)
                           (\<lambda>command. Inr (library, command))))
               else
                 bnd (substr_from val (length option))
                   (\<lambda>library.
                      let library = (case find_char CHR ''='' val of None \<Rightarrow> library
                                     | Some equalPos \<Rightarrow> drop (equalPos + 1) val)
                      in bnd (appendAndRemoveOption env command workingDirectory False False
                                False False)
                           (\<lambda>command. Inr (library, command))))
            (\<lambda>(library, command).
               if library = [] then parseOptionIsUnsupported env command workingDirectory option
               else if d_bstatic command
                 then Inr (command\<lparr>d_staticLibraries := insert library (d_staticLibraries command)\<rparr>)
               else Inr (command\<lparr>d_libraries := insert library (d_libraries command)\<rparr>)))"

text \<open>\<open>std::getline(iss, token, separator)\<close> in a loop: the pieces between separators;
  nothing is read after a final separator.\<close>

fun getline_tokens :: "char \<Rightarrow> string \<Rightarrow> string \<Rightarrow> string list" where
  "getline_tokens separator token [] = (if token = [] then [] else [token])"
| "getline_tokens separator token (c # cs) =
     (if c = separator then token # getline_tokens separator [] cs
      else getline_tokens separator (token @ [c]) cs)"

datatype library_dirs = to_rpathLinkDirs | to_rpathDirs | to_libraryDirs

definition push_library_dir :: "library_dirs \<Rightarrow> string \<Rightarrow> ParsedCommand \<Rightarrow> ParsedCommand" where
  "push_library_dir libraryDirs token command =
     (case libraryDirs of
        to_rpathLinkDirs \<Rightarrow> command\<lparr>d_rpathLinkDirs := d_rpathLinkDirs command @ [token]\<rparr>
      | to_rpathDirs \<Rightarrow> command\<lparr>d_rpathDirs := d_rpathDirs command @ [token]\<rparr>
      | to_libraryDirs \<Rightarrow> command\<lparr>d_libraryDirs := d_libraryDirs command @ [token]\<rparr>)"

text \<open>The loop of \<open>parseLdLibraryPath\<close> over the directories of the path list.\<close>

fun library_path_loop ::
  "environment \<Rightarrow> string \<Rightarrow> string \<Rightarrow> library_dirs \<Rightarrow> string list \<Rightarrow> ParsedCommand
     \<Rightarrow> fault + ParsedCommand" where
  "library_path_loop env workingDirectory option libraryDirs [] command = Inr command"
| "library_path_loop env workingDirectory option libraryDirs (token # tokens) command =
     (if isDirectory env token then
        library_path_loop env workingDirectory option libraryDirs tokens
          (push_library_dir libraryDirs token
             (push_command (modifyPathForRemote env token workingDirectory True)
                (push_command option command)))
      else if option = ''-R'' \<and> isRegularFile env token then
        parseOptionIsUnsupported env command workingDirectory option
      else library_path_loop env workingDirectory option libraryDirs tokens command)"

definition parseLdLibraryPath :: "environment \<Rightarrow> ParsedCommand \<Rightarrow> string \<Rightarrow> string
    \<Rightarrow> fault + ParsedCommand" where
  "parseLdLibraryPath env command workingDirectory option =
     bnd (front command)
       (\<lambda>val. bnd (pop_front command)
          (\<lambda>command.
             bnd (if val = option then
                    bnd (front command)
                      (\<lambda>libraryPath. bnd (pop_front command)
                         (\<lambda>command. Inr (libraryPath, command)))
                  else
                    bnd (substr_from val (length option))
                      (\<lambda>libraryPath.
                         Inr (if take 1 libraryPath = ''='' then drop 1 libraryPath
                              else libraryPath, command)))
               (\<lambda>(libraryPath, command).
                  if libraryPath = []
                  then parseOptionIsUnsupported env command workingDirectory option
                  else library_path_loop env workingDirectory option
                         (if option = ''-rpath-link'' \<or> option = ''--rpath-link''
                            then to_rpathLinkDirs
                          else if option = ''-rpath'' \<or> option = ''--rpath'' \<or> option = ''-R''
                            then to_rpathDirs
                          else to_libraryDirs)
                         (getline_tokens CHR '':'' [] libraryPath) command)))"

definition parseLdOptionDynamic :: "environment \<Rightarrow> ParsedCommand \<Rightarrow> string \<Rightarrow> string
    \<Rightarrow> fault + ParsedCommand" where
  "parseLdOptionDynamic env command workingDirectory option =
     appendAndRemoveOption env (command\<lparr>d_bstatic := False\<rparr>) workingDirectory
       False True False False"

definition parseLdOptionStatic :: "environment \<Rightarrow> ParsedCommand \<Rightarrow> string \<Rightarrow> string
    \<Rightarrow> fault + ParsedCommand" where
  "parseLdOptionStatic env command workingDirectory option =
     appendAndRemoveOption env (command\<lparr>d_bstatic := True\<rparr>) workingDirectory
       False True False False"

definition parseLdOptionState :: "environment \<Rightarrow> ParsedCommand \<Rightarrow> string \<Rightarrow> string
    \<Rightarrow> fault + ParsedCommand" where
  "parseLdOptionState env command workingDirectory option =
     (if option = ''--push-state'' then
        appendAndRemoveOption env
          (command\<lparr>d_bstaticStack := d_bstaticStack command @ [d_bstatic command]\<rparr>)
          workingDirectory False True False False
      else if option = ''--pop-state'' \<and> d_bstaticStack command \<noteq> [] then
        appendAndRemoveOption env
          (command\<lparr>d_bstatic := last (d_bstaticStack command),
                    d_bstaticStack := butlast (d_bstaticStack command)\<rparr>)
          workingDirectory False True False False
      else parseOptionIsUnsupported env command workingDirectory option)"

definition parseLdOptionEmulation :: "environment \<Rightarrow> ParsedCommand \<Rightarrow> string \<Rightarrow> string
    \<Rightarrow> fault + ParsedCommand" where
  "parseLdOptionEmulation env command workingDirectory option =
     bnd (front command)
       (\<lambda>token.
          let command = push_dependencies token (push_command token command)
          in if token = option then
               bnd (pop_front command)
                 (\<lambda>command. bnd (front command)
                    (\<lambda>arg. pop_front (push_dependencies arg (push_command arg command))))
             else pop_front command)"

text \<open>The common beginning of the three Solaris handlers \<open>-B\<close>, \<open>-d\<close> and \<open>-Y\<close>: the
  argument follows the option in the same token or is the next token. The result is
  \<open>None\<close> when the option is the last token and the command was marked unsupported.\<close>

definition solaris_option_argument ::
  "environment \<Rightarrow> ParsedCommand \<Rightarrow> string \<Rightarrow> string \<Rightarrow> fault + (string option \<times> ParsedCommand)" where
  "solaris_option_argument env command workingDirectory option =
     bnd (front command)
       (\<lambda>val.
          if val = option then
            (if length (d_originalCommand command) < 2
             then bnd (parseOptionIsUnsupported env command workingDirectory option)
                    (\<lambda>command. Inr (None, command))
             else bnd (appendAndRemoveOption env command workingDirectory False True False False)
               (\<lambda>command. bnd (front command)
                  (\<lambda>arg. bnd (appendAndRemoveOption env command workingDirectory False True
                                 False False)
                     (\<lambda>command. Inr (Some arg, command)))))
          else
            bnd (substr_from val (length option))
              (\<lambda>arg. bnd (appendAndRemoveOption env command workingDirectory False True
                             False False)
                 (\<lambda>command. Inr (Some arg, command))))"

definition parseSolarisLdOptionB :: "environment \<Rightarrow> ParsedCommand \<Rightarrow> string \<Rightarrow> string
    \<Rightarrow> fault + ParsedCommand" where
  "parseSolarisLdOptionB env command workingDirectory option =
     bnd (solaris_option_argument env command workingDirectory option)
       (\<lambda>(argument, command).
          case argument of
            None \<Rightarrow> Inr command
          | Some arg \<Rightarrow>
              if arg = ''dynamic'' then Inr (command\<lparr>d_bstatic := False\<rparr>)
              else if arg = ''static'' then Inr (command\<lparr>d_bstatic := True\<rparr>)
              else Inr command)"

definition parseSolarisLdOptionD :: "environment \<Rightarrow> ParsedCommand \<Rightarrow> string \<Rightarrow> string
    \<Rightarrow> fault + ParsedCommand" where
  "parseSolarisLdOptionD env command workingDirectory option =
     bnd (solaris_option_argument env command workingDirectory option)
       (\<lambda>(argument, command).
          case argument of
            None \<Rightarrow> Inr command
          | Some arg \<Rightarrow>
              if arg = ''y'' then Inr (command\<lparr>d_bstatic := False\<rparr>)
              else if arg = ''n'' then Inr (command\<lparr>d_bstatic := True\<rparr>)
              else Inr command)"

definition parseSolarisLdOptionY :: "environment \<Rightarrow> ParsedCommand \<Rightarrow> string \<Rightarrow> string
    \<Rightarrow> fault + ParsedCommand" where
  "parseSolarisLdOptionY env command workingDirectory option =
     bnd (solaris_option_argument env command workingDirectory option)
       (\<lambda>(argument, command).
          case argument of
            None \<Rightarrow> Inr command
          | Some arg \<Rightarrow>
              if take 2 arg = ''P,'' then
                Inr (command\<lparr>d_defaultLibraryDirs :=
                       filter (isDirectory env) (getline_tokens CHR '':'' [] (drop 2 arg))\<rparr>)
              else parseOptionIsUnsupported env command workingDirectory option)"

definition parseSolarisLdMapfile :: "environment \<Rightarrow> ParsedCommand \<Rightarrow> string \<Rightarrow> string
    \<Rightarrow> fault + ParsedCommand" where
  "parseSolarisLdMapfile env command workingDirectory option =
     bnd (front command)
       (\<lambda>val.
          bnd (if val = option then
                 bnd (appendAndRemoveOption env command workingDirectory False False False False)
                   (\<lambda>command. bnd (front command)
                      (\<lambda>mapfile.
                         bnd (appendAndRemoveOption env command workingDirectory False False
                                False False)
                           (\<lambda>command. Inr (mapfile, command))))
               else
                 bnd (substr_from val (length option))
                   (\<lambda>mapfile.
                      bnd (appendAndRemoveOption env command workingDirectory False False
                             False False)
                        (\<lambda>command. Inr (mapfile, command))))
            (\<lambda>(mapfile, command).
               if mapfile = [] then parseOptionIsUnsupported env command workingDirectory option
               else Inr (command\<lparr>d_auxInputFiles := d_auxInputFiles command @ [mapfile]\<rparr>)))"

text \<open>Calling the handler a table entry names.\<close>

fun apply_rule ::
  "parse_rule \<Rightarrow> environment \<Rightarrow> ParsedCommand \<Rightarrow> string \<Rightarrow> string \<Rightarrow> fault + ParsedCommand" where
  "apply_rule rule_parseOptionSimple = parseOptionSimple"
| "apply_rule rule_parseInterfersWithDepsOption = parseInterfersWithDepsOption"
| "apply_rule rule_parseIsInputPathOption = parseIsInputPathOption"
| "apply_rule rule_parseIsEqualInputPathOption = parseIsEqualInputPathOption"
| "apply_rule rule_parseIsCompileOption = parseIsCompileOption"
| "apply_rule rule_parseOptionRedirectsOutput = parseOptionRedirectsOutput"
| "apply_rule rule_parseOptionRedirectsDepsOutput = parseOptionRedirectsDepsOutput"
| "apply_rule rule_parseOptionDepsRuleTarget = parseOptionDepsRuleTarget"
| "apply_rule rule_parseIsPreprocessorArgOption = parseIsPreprocessorArgOption"
| "apply_rule rule_parseIsMacro = parseIsMacro"
| "apply_rule rule_parseOptionSetsGccLanguage = parseOptionSetsGccLanguage"
| "apply_rule rule_parseOptionIsUnsupported = parseOptionIsUnsupported"
| "apply_rule rule_parseOptionCoverageOutput = parseOptionCoverageOutput"
| "apply_rule rule_parseOptionRedirectsCoverageOutput = parseOptionRedirectsCoverageOutput"
| "apply_rule rule_parseOptionSplitDwarf = parseOptionSplitDwarf"
| "apply_rule rule_parseOptionSolarisPhase = parseOptionSolarisPhase"
| "apply_rule rule_parseOptionNative = parseOptionNative"
| "apply_rule rule_parseOptionParam = parseOptionParam"
| "apply_rule rule_parseLdLibrary = parseLdLibrary"
| "apply_rule rule_parseLdLibraryPath = parseLdLibraryPath"
| "apply_rule rule_parseLdOptionDynamic = parseLdOptionDynamic"
| "apply_rule rule_parseLdOptionStatic = parseLdOptionStatic"
| "apply_rule rule_parseLdOptionState = parseLdOptionState"
| "apply_rule rule_parseLdOptionEmulation = parseLdOptionEmulation"
| "apply_rule rule_parseSolarisLdOptionB = parseSolarisLdOptionB"
| "apply_rule rule_parseSolarisLdOptionD = parseSolarisLdOptionD"
| "apply_rule rule_parseSolarisLdOptionY = parseSolarisLdOptionY"
| "apply_rule rule_parseSolarisLdMapfile = parseSolarisLdMapfile"

text \<open>The body of the loop of \<open>parseCommand\<close>, for a nonempty \<open>d_originalCommand\<close>.\<close>

definition parse_token ::
  "environment \<Rightarrow> CompilerParseRulesMap \<Rightarrow> string \<Rightarrow> ParsedCommand \<Rightarrow> fault + ParsedCommand" where
  "parse_token env parseRules workingDirectory command =
     bnd (front command)
       (\<lambda>currToken.
          case matchCompilerOptions currToken parseRules of
            (matched, Some handler) \<Rightarrow> apply_rule handler env command workingDirectory matched
          | (matched, None) \<Rightarrow>
              if currToken = ''-'' then pop_front (set_unsupported command)
              else if currToken \<noteq> [] \<and> hd currToken = CHR ''@''
                then pop_front (set_unsupported command)
              else if currToken \<noteq> [] \<and>
                      (hd currToken = CHR ''-'' \<or>
                       (is_sun_studio command \<and> hd currToken = CHR ''+''))
                then appendAndRemoveOption env command workingDirectory False True False False
              else
                pop_front
                  (command\<lparr>d_command := d_command command @
                                [modifyPathForRemote env currToken workingDirectory True],
                            d_dependenciesCommand := d_dependenciesCommand command @ [currToken],
                            d_inputFiles := d_inputFiles command @ [currToken]\<rparr>))"

text \<open>What every step of the parser does to the part of the state the loop and the
  classification of the command depend on: tokens are only ever removed, the linker
  flag is not touched, and the unsupported flag is never reset.\<close>

definition advances :: "ParsedCommand \<Rightarrow> ParsedCommand \<Rightarrow> bool" where
  "advances command command' =
     (length (d_originalCommand command') < length (d_originalCommand command) \<and>
      d_linkerCommand command' = d_linkerCommand command \<and>
      (d_containsUnsupportedOptions command \<longrightarrow> d_containsUnsupportedOptions command'))"

section \<open>Dependencies from make rules (deps.cpp)\<close>

text \<open>The variables of the loop of \<open>dependencies_from_make_rules\<close>.\<close>

record make_rules_state =
  result :: "string set"
  saw_colon_on_line :: bool
  saw_backslash :: bool
  current_filename :: string

definition insert_current :: "make_rules_state \<Rightarrow> string set" where
  "insert_current st =
     (if current_filename st \<noteq> [] then insert (current_filename st) (result st)
      else result st)"

text \<open>The body of the loop, for one character.\<close>

definition make_rules_step :: "bool \<Rightarrow> make_rules_state \<Rightarrow> char \<Rightarrow> make_rules_state" where
  "make_rules_step is_sun_format st character =
     (if saw_backslash st then
        (let st = st\<lparr>saw_backslash := False\<rparr>
         in if character \<noteq> CHR 0x0A \<and> saw_colon_on_line st
            then st\<lparr>current_filename := current_filename st @ [character]\<rparr>
            else st)
      else if character = CHR 0x5C then st\<lparr>saw_backslash := True\<rparr>
      else if character = CHR '':'' \<and> \<not> saw_colon_on_line st
        then st\<lparr>saw_colon_on_line := True\<rparr>
      else if character = CHR 0x0A then
        st\<lparr>saw_colon_on_line := False, result := insert_current st, current_filename := []\<rparr>
      else if character = CHR '' '' then
        (if is_sun_format then
           (if current_filename st \<noteq> [] \<and> saw_colon_on_line st
            then st\<lparr>current_filename := current_filename st @ [character]\<rparr>
            else st)
         else st\<lparr>result := insert_current st, current_filename := []\<rparr>)
      else if saw_colon_on_line st
        then st\<lparr>current_filename := current_filename st @ [character]\<rparr>
      else st)"

definition make_rules_start :: make_rules_state where
  "make_rules_start =
     \<lparr>result = {}, saw_colon_on_line = False, saw_backslash = False, current_filename = []\<rparr>"

definition dependencies_from_make_rules :: "string \<Rightarrow> bool \<Rightarrow> string set" where
  "dependencies_from_make_rules rules is_sun_format =
     insert_current (foldl (make_rules_step is_sun_format) make_rules_start rules)"

text \<open>The loop with \<open>is_sun_format = false\<close>, and the two kinds of state it is in between
  two tokens: before the colon of a line, and after it.\<close>

definition make_rules_run :: "make_rules_state \<Rightarrow> string \<Rightarrow> make_rules_state" where
  "make_rules_run st text = foldl (make_rules_step False) st text"

definition in_body :: "string set \<Rightarrow> string \<Rightarrow> make_rules_state" where
  "in_body deps current =
     \<lparr>result = deps, saw_colon_on_line = True, saw_backslash = False,
      current_filename = current\<rparr>"

definition before_colon :: "string set \<Rightarrow> make_rules_state" where
  "before_colon deps =
     \<lparr>result = deps, saw_colon_on_line = False, saw_backslash = False,
      current_filename = []\<rparr>"

subsection \<open>Make rules and their layout\<close>

text \<open>
  A make rule as a compiler writes it in dependency-output mode: a target, a colon, and
  the dependencies. A file name is a sequence of plain characters and of characters
  escaped by a backslash; a plain character is not a backslash and not white space.
  Between the colon and the first name, and after every name, there is a gap: a
  sequence of blanks and of backslash-newline continuations. The layout of a rule is
  the choice of its gaps.
\<close>

datatype name_char = Plain char | Escaped char

datatype gap_item = Blank | Continuation

record make_rule =
  target :: string
  first_gap :: "gap_item list"
  dependencies :: "(name_char list \<times> gap_item list) list"

definition render_name_char :: "name_char \<Rightarrow> string" where
  "render_name_char nc = (case nc of Plain c \<Rightarrow> [c] | Escaped c \<Rightarrow> [CHR 0x5C, c])"

definition name_char_text :: "name_char \<Rightarrow> char" where
  "name_char_text nc = (case nc of Plain c \<Rightarrow> c | Escaped c \<Rightarrow> c)"

definition render_name :: "name_char list \<Rightarrow> string" where
  "render_name name = concat (map render_name_char name)"

text \<open>The file name a written name stands for.\<close>

definition name_text :: "name_char list \<Rightarrow> string" where
  "name_text name = map name_char_text name"

definition render_gap_item :: "gap_item \<Rightarrow> string" where
  "render_gap_item item = (case item of Blank \<Rightarrow> '' '' | Continuation \<Rightarrow> [CHR 0x5C, CHR 0x0A])"

definition render_gap :: "gap_item list \<Rightarrow> string" where
  "render_gap gap = concat (map render_gap_item gap)"

definition render_dependency :: "name_char list \<times> gap_item list \<Rightarrow> string" where
  "render_dependency dep = render_name (fst dep) @ render_gap (snd dep)"

text \<open>A rule on its (continued) line, without the newline that ends it.\<close>

definition render_rule :: "make_rule \<Rightarrow> string" where
  "render_rule rule =
     target rule @ '':'' @ render_gap (first_gap rule) @
     concat (map render_dependency (dependencies rule))"

text \<open>The rules of a file, each ended by a newline.\<close>

definition render_rules :: "make_rule list \<Rightarrow> string" where
  "render_rules rules = concat (map (\<lambda>rule. render_rule rule @ [CHR 0x0A]) rules)"

definition valid_name_char :: "name_char \<Rightarrow> bool" where
  "valid_name_char nc =
     (case nc of
        Plain c \<Rightarrow> c \<noteq> CHR 0x5C \<and> c \<noteq> CHR 0x0A \<and> c \<noteq> CHR '' '' \<and> c \<noteq> CHR 0x09
      | Escaped c \<Rightarrow> c \<noteq> CHR 0x0A)"

definition valid_name :: "name_char list \<Rightarrow> bool" where
  "valid_name name = (name \<noteq> [] \<and> list_all valid_name_char name)"

definition valid_target :: "string \<Rightarrow> bool" where
  "valid_target t = list_all (\<lambda>c. c \<noteq> CHR '':'' \<and> c \<noteq> CHR 0x5C \<and> c \<noteq> CHR 0x0A) t"

text \<open>\<open>separated\<close> is what make itself asks of the gaps between two names: something
  must be there, a blank or a continuation. \<open>spaced\<close> asks for at least one blank.\<close>

fun gaps_ok :: "(gap_item list \<Rightarrow> bool) \<Rightarrow> (name_char list \<times> gap_item list) list \<Rightarrow> bool" where
  "gaps_ok ok [] = True"
| "gaps_ok ok [dep] = True"
| "gaps_ok ok (dep # next_dep # deps) = (ok (snd dep) \<and> gaps_ok ok (next_dep # deps))"

definition well_formed_rule :: "(gap_item list \<Rightarrow> bool) \<Rightarrow> make_rule \<Rightarrow> bool" where
  "well_formed_rule ok rule =
     (valid_target (target rule) \<and> list_all (\<lambda>dep. valid_name (fst dep)) (dependencies rule) \<and>
      gaps_ok ok (dependencies rule))"

definition separated :: "make_rule list \<Rightarrow> bool" where
  "separated rules = list_all (well_formed_rule (\<lambda>gap. gap \<noteq> [])) rules"

definition spaced :: "make_rule list \<Rightarrow> bool" where
  "spaced rules = list_all (well_formed_rule (\<lambda>gap. Blank \<in> set gap)) rules"

text \<open>What a list of rules says, whatever its layout: the file names of the
  dependencies.\<close>

definition rule_names :: "make_rule \<Rightarrow> string list" where
  "rule_names rule = map (\<lambda>dep. name_text (fst dep)) (dependencies rule)"

text \<open>The text of a file of rules; the newline of the last rule may be missing.\<close>

definition render_file :: "bool \<Rightarrow> make_rule list \<Rightarrow> string" where
  "render_file final_newline rules =
     (if final_newline then render_rules rules else butlast (render_rules rules))"

text \<open>Two lists of rules that differ in layout only (and possibly in their targets).\<close>

definition same_dependencies :: "make_rule list \<Rightarrow> make_rule list \<Rightarrow> bool" where
  "same_dependencies rules rules' = (map rule_names rules = map rule_names rules')"

text \<open>The rule \<open>a: b c\<close> in two layouts: with a blank between the two names, and with
  a backslash-newline between them.\<close>

definition rule_blank :: make_rule where
  "rule_blank = \<lparr> target = ''a'', first_gap = [Blank],
     dependencies = [([Plain CHR ''b''], [Blank]), ([Plain CHR ''c''], [])] \<rparr>"

definition rule_continued :: make_rule where
  "rule_continued = \<lparr> target = ''a'', first_gap = [Blank],
     dependencies = [([Plain CHR ''b''], [Continuation]), ([Plain CHR ''c''], [])] \<rparr>"

text \<open>The same rule as gcc lays it out, \<open>a: b \<close> followed by a continuation and
  three blanks before \<open>c\<close>.\<close>

definition rule_gcc_layout :: make_rule where
  "rule_gcc_layout = \<lparr> target = ''a'', first_gap = [Blank],
     dependencies = [([Plain CHR ''b''], [Blank, Continuation, Blank, Blank, Blank]),
                     ([Plain CHR ''c''], [])] \<rparr>"

subsection \<open>Every parse rule consumes a token\<close>

text \<open>Facts about the handlers that the loop of \<open>parseCommand\<close> needs in order to
  terminate: a handler that returns has removed at least one token.\<close>

lemma front_Inr: "front c = Inr t \<Longrightarrow> d_originalCommand c \<noteq> [] \<and> t = hd (d_originalCommand c)"
  by (auto simp: front_def split: list.splits)

lemma pop_front_Inr:
  "pop_front c = Inr c' \<Longrightarrow>
   d_originalCommand c \<noteq> [] \<and> c' = c\<lparr>d_originalCommand := tl (d_originalCommand c)\<rparr>"
  by (auto simp: pop_front_def split: list.splits)

lemma bnd_Inr: "bnd m f = Inr y \<Longrightarrow> \<exists>x. m = Inr x \<and> f x = Inr y"
  by (cases m) (auto simp: bnd_def)

lemma tl_shorter: "xs \<noteq> [] \<Longrightarrow> length (tl xs) < length xs"
  by (cases xs) auto

text \<open>A step that removes at least one token and leaves the three flags alone.\<close>

lemma appendAndRemoveOption_Inr:
  assumes "appendAndRemoveOption env c wd isPath toDeps isOutput depsOutput = Inr c'"
  shows "d_originalCommand c \<noteq> [] \<and> d_originalCommand c' = tl (d_originalCommand c) \<and>
         d_linkerCommand c' = d_linkerCommand c \<and>
         d_compilerCommand c' = d_compilerCommand c \<and>
         d_containsUnsupportedOptions c' = d_containsUnsupportedOptions c"
  using assms
  by (auto simp: appendAndRemoveOption_def Let_def push_command_def push_dependencies_def
      record_output_def record_include_dir_def
      dest!: bnd_Inr front_Inr pop_front_Inr split: if_splits)

lemma parseOptionIsUnsupported_Inr:
  assumes "parseOptionIsUnsupported env c wd opt = Inr c'"
  shows "d_originalCommand c' = [] \<and> d_containsUnsupportedOptions c' \<and>
         d_linkerCommand c' = d_linkerCommand c \<and> d_compilerCommand c' = d_compilerCommand c"
  using assms by (auto simp: parseOptionIsUnsupported_def)

lemma parseGccOption_Inr:
  assumes "parseGccOption env c wd opt toDeps isOutput depsOutput = Inr c'"
  shows "d_originalCommand c \<noteq> [] \<and>
         length (d_originalCommand c') < length (d_originalCommand c) \<and>
         d_linkerCommand c' = d_linkerCommand c \<and>
         d_compilerCommand c' = d_compilerCommand c \<and>
         d_containsUnsupportedOptions c' = d_containsUnsupportedOptions c"
proof -
  from assms obtain val where val: "front c = Inr val" and
    rest: "(if val = opt then
            bnd (appendAndRemoveOption env c wd False toDeps False False)
              (\<lambda>command. appendAndRemoveOption env command wd True toDeps isOutput depsOutput)
          else
            bnd (substr_from val (length opt))
              (\<lambda>optionPath.
                 let equalPos = find_char CHR ''='' val;
                     modifiedOption = (if equalPos \<noteq> None then opt @ ''='' else opt);
                     optionPath = (case equalPos of None \<Rightarrow> optionPath
                                   | Some pos \<Rightarrow> drop (pos + 1) val);
                     replacedPath = modifyPathForRemote env optionPath wd True;
                     command = record_include_dir env optionPath replacedPath c;
                     command = push_command (modifiedOption @ replacedPath) command;
                     command = (if isOutput \<and> \<not> depsOutput then
                                  command\<lparr>d_commandProducts :=
                                    insert replacedPath (d_commandProducts command)\<rparr>
                                else if isOutput then
                                  command\<lparr>d_commandDepsProducts :=
                                    insert replacedPath (d_commandDepsProducts command)\<rparr>
                                else if toDeps then
                                  push_dependencies (modifiedOption @ optionPath) command
                                else command)
                 in pop_front command)) = Inr c'"
    unfolding parseGccOption_def by (auto dest!: bnd_Inr)
  have ne: "d_originalCommand c \<noteq> []" using val by (auto dest: front_Inr)
  show ?thesis
  proof (cases "val = opt")
    case True
    with rest obtain c1 where
      c1: "appendAndRemoveOption env c wd False toDeps False False = Inr c1" and
      c2: "appendAndRemoveOption env c1 wd True toDeps isOutput depsOutput = Inr c'"
      by (auto dest!: bnd_Inr)
    from appendAndRemoveOption_Inr [OF c1] appendAndRemoveOption_Inr [OF c2] ne
    show ?thesis
      using tl_shorter [of "d_originalCommand c"] tl_shorter [of "d_originalCommand c1"]
      by auto
  next
    case False
    with rest ne show ?thesis
      by (auto simp: Let_def push_command_def push_dependencies_def record_include_dir_def
          tl_shorter dest!: bnd_Inr pop_front_Inr split: if_splits)
  qed
qed


lemmas step_simps = Let_def push_command_def push_dependencies_def set_unsupported_def tl_shorter

lemmas step_dests = bnd_Inr front_Inr pop_front_Inr appendAndRemoveOption_Inr
  parseGccOption_Inr parseOptionIsUnsupported_Inr

lemma parseOptionSimple_Inr:
  assumes "parseOptionSimple env c wd opt = Inr c'" and "d_originalCommand c \<noteq> []"
  shows "advances c c' \<and> d_compilerCommand c' = d_compilerCommand c"
  using assms unfolding parseOptionSimple_def advances_def
  by (auto simp: step_simps dest!: step_dests split: if_splits option.splits prod.splits)

lemma parseInterfersWithDepsOption_Inr:
  assumes "parseInterfersWithDepsOption env c wd opt = Inr c'" and "d_originalCommand c \<noteq> []"
  shows "advances c c' \<and> d_compilerCommand c' = d_compilerCommand c"
  using assms unfolding parseInterfersWithDepsOption_def advances_def
  by (auto simp: step_simps dest!: step_dests split: if_splits option.splits prod.splits)

lemma parseIsInputPathOption_Inr:
  assumes "parseIsInputPathOption env c wd opt = Inr c'" and "d_originalCommand c \<noteq> []"
  shows "advances c c' \<and> d_compilerCommand c' = d_compilerCommand c"
  using assms unfolding parseIsInputPathOption_def advances_def
  by (auto simp: step_simps dest!: step_dests split: if_splits option.splits prod.splits)

lemma parseIsEqualInputPathOption_Inr:
  assumes "parseIsEqualInputPathOption env c wd opt = Inr c'" and "d_originalCommand c \<noteq> []"
  shows "advances c c' \<and> d_compilerCommand c' = d_compilerCommand c"
  using assms unfolding parseIsEqualInputPathOption_def advances_def
  by (auto simp: step_simps dest!: step_dests split: if_splits option.splits prod.splits)

lemma parseOptionRedirectsOutput_Inr:
  assumes "parseOptionRedirectsOutput env c wd opt = Inr c'" and "d_originalCommand c \<noteq> []"
  shows "advances c c' \<and> d_compilerCommand c' = d_compilerCommand c"
  using assms unfolding parseOptionRedirectsOutput_def advances_def
  by (auto simp: step_simps dest!: step_dests split: if_splits option.splits prod.splits)

lemma parseOptionRedirectsDepsOutput_Inr:
  assumes "parseOptionRedirectsDepsOutput env c wd opt = Inr c'" and "d_originalCommand c \<noteq> []"
  shows "advances c c' \<and> d_compilerCommand c' = d_compilerCommand c"
  using assms unfolding parseOptionRedirectsDepsOutput_def advances_def
  by (auto simp: step_simps dest!: step_dests split: if_splits option.splits prod.splits)

lemma parseOptionDepsRuleTarget_Inr:
  assumes "parseOptionDepsRuleTarget env c wd opt = Inr c'" and "d_originalCommand c \<noteq> []"
  shows "advances c c' \<and> d_compilerCommand c' = d_compilerCommand c"
  using assms unfolding parseOptionDepsRuleTarget_def advances_def
  by (auto simp: step_simps dest!: step_dests split: if_splits option.splits prod.splits)

lemma parseIsPreprocessorArgOption_Inr:
  assumes "parseIsPreprocessorArgOption env c wd opt = Inr c'" and "d_originalCommand c \<noteq> []"
  shows "advances c c' \<and> d_compilerCommand c' = d_compilerCommand c"
  using assms unfolding parseIsPreprocessorArgOption_def advances_def
  by (auto simp: step_simps dest!: step_dests split: if_splits option.splits prod.splits)

lemma parseIsMacro_Inr:
  assumes "parseIsMacro env c wd opt = Inr c'" and "d_originalCommand c \<noteq> []"
  shows "advances c c' \<and> d_compilerCommand c' = d_compilerCommand c"
  using assms unfolding parseIsMacro_def advances_def
  by (auto simp: step_simps dest!: step_dests split: if_splits option.splits prod.splits)

lemma parseOptionSetsGccLanguage_Inr:
  assumes "parseOptionSetsGccLanguage env c wd opt = Inr c'" and "d_originalCommand c \<noteq> []"
  shows "advances c c' \<and> d_compilerCommand c' = d_compilerCommand c"
  using assms unfolding parseOptionSetsGccLanguage_def advances_def
  by (auto simp: step_simps dest!: step_dests split: if_splits option.splits prod.splits)

lemma parseOptionCoverageOutput_Inr:
  assumes "parseOptionCoverageOutput env c wd opt = Inr c'" and "d_originalCommand c \<noteq> []"
  shows "advances c c' \<and> d_compilerCommand c' = d_compilerCommand c"
  using assms unfolding parseOptionCoverageOutput_def advances_def
  by (auto simp: step_simps dest!: step_dests split: if_splits option.splits prod.splits)

lemma parseOptionRedirectsCoverageOutput_Inr:
  assumes "parseOptionRedirectsCoverageOutput env c wd opt = Inr c'" and "d_originalCommand c \<noteq> []"
  shows "advances c c' \<and> d_compilerCommand c' = d_compilerCommand c"
  using assms unfolding parseOptionRedirectsCoverageOutput_def advances_def
  by (auto simp: step_simps dest!: step_dests split: if_splits option.splits prod.splits)

lemma parseOptionSplitDwarf_Inr:
  assumes "parseOptionSplitDwarf env c wd opt = Inr c'" and "d_originalCommand c \<noteq> []"
  shows "advances c c' \<and> d_compilerCommand c' = d_compilerCommand c"
  using assms unfolding parseOptionSplitDwarf_def advances_def
  by (auto simp: step_simps dest!: step_dests split: if_splits option.splits prod.splits)

lemma parseOptionSolarisPhase_Inr:
  assumes "parseOptionSolarisPhase env c wd opt = Inr c'" and "d_originalCommand c \<noteq> []"
  shows "advances c c' \<and> d_compilerCommand c' = d_compilerCommand c"
  using assms unfolding parseOptionSolarisPhase_def advances_def
  by (auto simp: step_simps dest!: step_dests split: if_splits option.splits prod.splits)

lemma parseOptionNative_Inr:
  assumes "parseOptionNative env c wd opt = Inr c'" and "d_originalCommand c \<noteq> []"
  shows "advances c c' \<and> d_compilerCommand c' = d_compilerCommand c"
  using assms unfolding parseOptionNative_def advances_def
  by (auto simp: step_simps dest!: step_dests split: if_splits option.splits prod.splits)

lemma parseOptionParam_Inr:
  assumes "parseOptionParam env c wd opt = Inr c'" and "d_originalCommand c \<noteq> []"
  shows "advances c c' \<and> d_compilerCommand c' = d_compilerCommand c"
  using assms unfolding parseOptionParam_def advances_def
  by (auto simp: step_simps dest!: step_dests split: if_splits option.splits prod.splits)

lemma parseLdLibrary_Inr:
  assumes "parseLdLibrary env c wd opt = Inr c'" and "d_originalCommand c \<noteq> []"
  shows "advances c c' \<and> d_compilerCommand c' = d_compilerCommand c"
  using assms unfolding parseLdLibrary_def advances_def
  by (auto simp: step_simps dest!: step_dests split: if_splits option.splits prod.splits)

lemma parseLdOptionDynamic_Inr:
  assumes "parseLdOptionDynamic env c wd opt = Inr c'" and "d_originalCommand c \<noteq> []"
  shows "advances c c' \<and> d_compilerCommand c' = d_compilerCommand c"
  using assms unfolding parseLdOptionDynamic_def advances_def
  by (auto simp: step_simps dest!: step_dests split: if_splits option.splits prod.splits)

lemma parseLdOptionStatic_Inr:
  assumes "parseLdOptionStatic env c wd opt = Inr c'" and "d_originalCommand c \<noteq> []"
  shows "advances c c' \<and> d_compilerCommand c' = d_compilerCommand c"
  using assms unfolding parseLdOptionStatic_def advances_def
  by (auto simp: step_simps dest!: step_dests split: if_splits option.splits prod.splits)

lemma parseLdOptionState_Inr:
  assumes "parseLdOptionState env c wd opt = Inr c'" and "d_originalCommand c \<noteq> []"
  shows "advances c c' \<and> d_compilerCommand c' = d_compilerCommand c"
  using assms unfolding parseLdOptionState_def advances_def
  by (auto simp: step_simps dest!: step_dests split: if_splits option.splits prod.splits)

lemma parseLdOptionEmulation_Inr:
  assumes "parseLdOptionEmulation env c wd opt = Inr c'" and "d_originalCommand c \<noteq> []"
  shows "advances c c' \<and> d_compilerCommand c' = d_compilerCommand c"
  using assms unfolding parseLdOptionEmulation_def advances_def
  by (auto simp: step_simps dest!: step_dests split: if_splits option.splits prod.splits)

lemma parseSolarisLdMapfile_Inr:
  assumes "parseSolarisLdMapfile env c wd opt = Inr c'" and "d_originalCommand c \<noteq> []"
  shows "advances c c' \<and> d_compilerCommand c' = d_compilerCommand c"
  using assms unfolding parseSolarisLdMapfile_def advances_def
  by (auto simp: step_simps dest!: step_dests split: if_splits option.splits prod.splits)


lemma parseIsCompileOption_Inr:
  assumes "parseIsCompileOption env c wd opt = Inr c'" and "d_originalCommand c \<noteq> []"
  shows "advances c c'"
  using assms unfolding parseIsCompileOption_def advances_def
  by (auto simp: step_simps dest!: step_dests)

lemma parseOptionIsUnsupported_advances:
  assumes "parseOptionIsUnsupported env c wd opt = Inr c'" and "d_originalCommand c \<noteq> []"
  shows "advances c c' \<and> d_compilerCommand c' = d_compilerCommand c"
  using assms unfolding advances_def
  by (auto dest!: parseOptionIsUnsupported_Inr)

lemma library_path_loop_Inr:
  "library_path_loop env wd opt dirs tokens c = Inr c' \<Longrightarrow>
   length (d_originalCommand c') \<le> length (d_originalCommand c) \<and>
   d_linkerCommand c' = d_linkerCommand c \<and>
   d_compilerCommand c' = d_compilerCommand c \<and>
   (d_containsUnsupportedOptions c \<longrightarrow> d_containsUnsupportedOptions c')"
proof (induction tokens arbitrary: c)
  case Nil
  then show ?case by simp
next
  case (Cons token tokens)
  show ?case
  proof (cases "isDirectory env token")
    case True
    let ?c = "push_library_dir dirs token
        (push_command (modifyPathForRemote env token wd True) (push_command opt c))"
    from Cons.prems True have "library_path_loop env wd opt dirs tokens ?c = Inr c'"
      by simp
    from Cons.IH [OF this] show ?thesis
      by (cases dirs) (simp_all add: push_library_dir_def push_command_def)
  next
    case False
    show ?thesis
    proof (cases "opt = ''-R'' \<and> isRegularFile env token")
      case True
      with Cons.prems False have "parseOptionIsUnsupported env c wd opt = Inr c'"
        by simp
      from parseOptionIsUnsupported_Inr [OF this] show ?thesis by simp
    next
      case no: False
      with Cons.prems False have "library_path_loop env wd opt dirs tokens c = Inr c'"
        by auto
      from Cons.IH [OF this] show ?thesis .
    qed
  qed
qed

lemma parseLdLibraryPath_Inr:
  assumes "parseLdLibraryPath env c wd opt = Inr c'" and "d_originalCommand c \<noteq> []"
  shows "advances c c' \<and> d_compilerCommand c' = d_compilerCommand c"
proof -
  from assms(1) obtain val c1 r where
    c1: "pop_front c = Inr c1" and
    r: "(if val = opt then
           bnd (front c1) (\<lambda>libraryPath. bnd (pop_front c1)
             (\<lambda>command. Inr (libraryPath, command)))
         else bnd (substr_from val (length opt))
           (\<lambda>libraryPath. Inr (if take 1 libraryPath = ''='' then drop 1 libraryPath
                                else libraryPath, c1))) = Inr r" and
    fin: "(case r of (libraryPath, command) \<Rightarrow>
            if libraryPath = [] then parseOptionIsUnsupported env command wd opt
            else library_path_loop env wd opt
                   (if opt = ''-rpath-link'' \<or> opt = ''--rpath-link'' then to_rpathLinkDirs
                    else if opt = ''-rpath'' \<or> opt = ''--rpath'' \<or> opt = ''-R''
                      then to_rpathDirs
                    else to_libraryDirs)
                   (getline_tokens CHR '':'' [] libraryPath) command) = Inr c'"
    unfolding parseLdLibraryPath_def
    by (blast dest!: bnd_Inr)
  obtain libraryPath c2 where r2: "r = (libraryPath, c2)" by (cases r)
  have s1: "c1 = c\<lparr>d_originalCommand := tl (d_originalCommand c)\<rparr>"
    using pop_front_Inr [OF c1] by simp
  have s2: "length (d_originalCommand c2) \<le> length (d_originalCommand c1) \<and>
      d_linkerCommand c2 = d_linkerCommand c1 \<and> d_compilerCommand c2 = d_compilerCommand c1 \<and>
      d_containsUnsupportedOptions c2 = d_containsUnsupportedOptions c1"
    using r unfolding r2
    by (auto dest!: bnd_Inr pop_front_Inr split: if_splits)
  have s3: "length (d_originalCommand c') \<le> length (d_originalCommand c2) \<and>
      d_linkerCommand c' = d_linkerCommand c2 \<and> d_compilerCommand c' = d_compilerCommand c2 \<and>
      (d_containsUnsupportedOptions c2 \<longrightarrow> d_containsUnsupportedOptions c')"
  proof (cases "libraryPath = []")
    case True
    with fin r2 have "parseOptionIsUnsupported env c2 wd opt = Inr c'" by simp
    from parseOptionIsUnsupported_Inr [OF this] show ?thesis by simp
  next
    case False
    with fin r2 obtain dirs where
      "library_path_loop env wd opt dirs (getline_tokens CHR '':'' [] libraryPath) c2 = Inr c'"
      by simp
    from library_path_loop_Inr [OF this] show ?thesis .
  qed
  from s1 s2 s3 assms(2) show ?thesis
    by (cases "d_originalCommand c") (auto simp: advances_def)
qed

lemma solaris_option_argument_Inr:
  assumes "solaris_option_argument env c wd opt = Inr (argument, c')"
    and "d_originalCommand c \<noteq> []"
  shows "advances c c' \<and> d_compilerCommand c' = d_compilerCommand c"
  using assms unfolding solaris_option_argument_def advances_def
  by (auto simp: step_simps dest!: step_dests split: if_splits option.splits prod.splits)

lemma parseSolarisLdOptionB_Inr:
  assumes "parseSolarisLdOptionB env c wd opt = Inr c'" and "d_originalCommand c \<noteq> []"
  shows "advances c c' \<and> d_compilerCommand c' = d_compilerCommand c"
proof (cases "solaris_option_argument env c wd opt")
  case (Inl e)
  with assms(1) show ?thesis by (simp add: parseSolarisLdOptionB_def bnd_def)
next
  case (Inr r)
  obtain argument c1 where r: "r = (argument, c1)" by (cases r)
  from Inr r have a: "solaris_option_argument env c wd opt = Inr (argument, c1)" by simp
  from solaris_option_argument_Inr [OF a assms(2)] assms(1) a show ?thesis
    by (auto simp: parseSolarisLdOptionB_def bnd_def advances_def dest!: parseOptionIsUnsupported_Inr
        split: option.splits if_splits)
qed

lemma parseSolarisLdOptionD_Inr:
  assumes "parseSolarisLdOptionD env c wd opt = Inr c'" and "d_originalCommand c \<noteq> []"
  shows "advances c c' \<and> d_compilerCommand c' = d_compilerCommand c"
proof (cases "solaris_option_argument env c wd opt")
  case (Inl e)
  with assms(1) show ?thesis by (simp add: parseSolarisLdOptionD_def bnd_def)
next
  case (Inr r)
  obtain argument c1 where r: "r = (argument, c1)" by (cases r)
  from Inr r have a: "solaris_option_argument env c wd opt = Inr (argument, c1)" by simp
  from solaris_option_argument_Inr [OF a assms(2)] assms(1) a show ?thesis
    by (auto simp: parseSolarisLdOptionD_def bnd_def advances_def dest!: parseOptionIsUnsupported_Inr
        split: option.splits if_splits)
qed

lemma parseSolarisLdOptionY_Inr:
  assumes "parseSolarisLdOptionY env c wd opt = Inr c'" and "d_originalCommand c \<noteq> []"
  shows "advances c c' \<and> d_compilerCommand c' = d_compilerCommand c"
proof (cases "solaris_option_argument env c wd opt")
  case (Inl e)
  with assms(1) show ?thesis by (simp add: parseSolarisLdOptionY_def bnd_def)
next
  case (Inr r)
  obtain argument c1 where r: "r = (argument, c1)" by (cases r)
  from Inr r have a: "solaris_option_argument env c wd opt = Inr (argument, c1)" by simp
  from solaris_option_argument_Inr [OF a assms(2)] assms(1) a show ?thesis
    by (auto simp: parseSolarisLdOptionY_def bnd_def advances_def dest!: parseOptionIsUnsupported_Inr
        split: option.splits if_splits)
qed

lemma apply_rule_advances:
  assumes "apply_rule handler env c wd opt = Inr c'" and "d_originalCommand c \<noteq> []"
  shows "advances c c'"
proof (cases handler)
  case rule_parseOptionSimple
  with assms show ?thesis using parseOptionSimple_Inr [of env c wd opt c'] by simp
next
  case rule_parseInterfersWithDepsOption
  with assms show ?thesis using parseInterfersWithDepsOption_Inr [of env c wd opt c'] by simp
next
  case rule_parseIsInputPathOption
  with assms show ?thesis using parseIsInputPathOption_Inr [of env c wd opt c'] by simp
next
  case rule_parseIsEqualInputPathOption
  with assms show ?thesis using parseIsEqualInputPathOption_Inr [of env c wd opt c'] by simp
next
  case rule_parseIsCompileOption
  with assms show ?thesis using parseIsCompileOption_Inr [of env c wd opt c'] by simp
next
  case rule_parseOptionRedirectsOutput
  with assms show ?thesis using parseOptionRedirectsOutput_Inr [of env c wd opt c'] by simp
next
  case rule_parseOptionRedirectsDepsOutput
  with assms show ?thesis using parseOptionRedirectsDepsOutput_Inr [of env c wd opt c'] by simp
next
  case rule_parseOptionDepsRuleTarget
  with assms show ?thesis using parseOptionDepsRuleTarget_Inr [of env c wd opt c'] by simp
next
  case rule_parseIsPreprocessorArgOption
  with assms show ?thesis using parseIsPreprocessorArgOption_Inr [of env c wd opt c'] by simp
next
  case rule_parseIsMacro
  with assms show ?thesis using parseIsMacro_Inr [of env c wd opt c'] by simp
next
  case rule_parseOptionSetsGccLanguage
  with assms show ?thesis using parseOptionSetsGccLanguage_Inr [of env c wd opt c'] by simp
next
  case rule_parseOptionIsUnsupported
  with assms show ?thesis using parseOptionIsUnsupported_advances [of env c wd opt c'] by simp
next
  case rule_parseOptionCoverageOutput
  with assms show ?thesis using parseOptionCoverageOutput_Inr [of env c wd opt c'] by simp
next
  case rule_parseOptionRedirectsCoverageOutput
  with assms show ?thesis using parseOptionRedirectsCoverageOutput_Inr [of env c wd opt c'] by simp
next
  case rule_parseOptionSplitDwarf
  with assms show ?thesis using parseOptionSplitDwarf_Inr [of env c wd opt c'] by simp
next
  case rule_parseOptionSolarisPhase
  with assms show ?thesis using parseOptionSolarisPhase_Inr [of env c wd opt c'] by simp
next
  case rule_parseOptionNative
  with assms show ?thesis using parseOptionNative_Inr [of env c wd opt c'] by simp
next
  case rule_parseOptionParam
  with assms show ?thesis using parseOptionParam_Inr [of env c wd opt c'] by simp
next
  case rule_parseLdLibrary
  with assms show ?thesis using parseLdLibrary_Inr [of env c wd opt c'] by simp
next
  case rule_parseLdLibraryPath
  with assms show ?thesis using parseLdLibraryPath_Inr [of env c wd opt c'] by simp
next
  case rule_parseLdOptionDynamic
  with assms show ?thesis using parseLdOptionDynamic_Inr [of env c wd opt c'] by simp
next
  case rule_parseLdOptionStatic
  with assms show ?thesis using parseLdOptionStatic_Inr [of env c wd opt c'] by simp
next
  case rule_parseLdOptionState
  with assms show ?thesis using parseLdOptionState_Inr [of env c wd opt c'] by simp
next
  case rule_parseLdOptionEmulation
  with assms show ?thesis using parseLdOptionEmulation_Inr [of env c wd opt c'] by simp
next
  case rule_parseSolarisLdOptionB
  with assms show ?thesis using parseSolarisLdOptionB_Inr [of env c wd opt c'] by simp
next
  case rule_parseSolarisLdOptionD
  with assms show ?thesis using parseSolarisLdOptionD_Inr [of env c wd opt c'] by simp
next
  case rule_parseSolarisLdOptionY
  with assms show ?thesis using parseSolarisLdOptionY_Inr [of env c wd opt c'] by simp
next
  case rule_parseSolarisLdMapfile
  with assms show ?thesis using parseSolarisLdMapfile_Inr [of env c wd opt c'] by simp
qed

lemma apply_rule_compiler:
  assumes "apply_rule handler env c wd opt = Inr c'" and "d_originalCommand c \<noteq> []"
    and "handler \<noteq> rule_parseIsCompileOption"
  shows "d_compilerCommand c' = d_compilerCommand c"
proof (cases handler)
  case rule_parseOptionSimple
  with assms show ?thesis using parseOptionSimple_Inr [of env c wd opt c'] by simp
next
  case rule_parseInterfersWithDepsOption
  with assms show ?thesis using parseInterfersWithDepsOption_Inr [of env c wd opt c'] by simp
next
  case rule_parseIsInputPathOption
  with assms show ?thesis using parseIsInputPathOption_Inr [of env c wd opt c'] by simp
next
  case rule_parseIsEqualInputPathOption
  with assms show ?thesis using parseIsEqualInputPathOption_Inr [of env c wd opt c'] by simp
next
  case rule_parseIsCompileOption
  with assms show ?thesis by simp
next
  case rule_parseOptionRedirectsOutput
  with assms show ?thesis using parseOptionRedirectsOutput_Inr [of env c wd opt c'] by simp
next
  case rule_parseOptionRedirectsDepsOutput
  with assms show ?thesis using parseOptionRedirectsDepsOutput_Inr [of env c wd opt c'] by simp
next
  case rule_parseOptionDepsRuleTarget
  with assms show ?thesis using parseOptionDepsRuleTarget_Inr [of env c wd opt c'] by simp
next
  case rule_parseIsPreprocessorArgOption
  with assms show ?thesis using parseIsPreprocessorArgOption_Inr [of env c wd opt c'] by simp
next
  case rule_parseIsMacro
  with assms show ?thesis using parseIsMacro_Inr [of env c wd opt c'] by simp
next
  case rule_parseOptionSetsGccLanguage
  with assms show ?thesis using parseOptionSetsGccLanguage_Inr [of env c wd opt c'] by simp
next
  case rule_parseOptionIsUnsupported
  with assms show ?thesis using parseOptionIsUnsupported_advances [of env c wd opt c'] by simp
next
  case rule_parseOptionCoverageOutput
  with assms show ?thesis using parseOptionCoverageOutput_Inr [of env c wd opt c'] by simp
next
  case rule_parseOptionRedirectsCoverageOutput
  with assms show ?thesis using parseOptionRedirectsCoverageOutput_Inr [of env c wd opt c'] by simp
next
  case rule_parseOptionSplitDwarf
  with assms show ?thesis using parseOptionSplitDwarf_Inr [of env c wd opt c'] by simp
next
  case rule_parseOptionSolarisPhase
  with assms show ?thesis using parseOptionSolarisPhase_Inr [of env c wd opt c'] by simp
next
  case rule_parseOptionNative
  with assms show ?thesis using parseOptionNative_Inr [of env c wd opt c'] by simp
next
  case rule_parseOptionParam
  with assms show ?thesis using parseOptionParam_Inr [of env c wd opt c'] by simp
next
  case rule_parseLdLibrary
  with assms show ?thesis using parseLdLibrary_Inr [of env c wd opt c'] by simp
next
  case rule_parseLdLibraryPath
  with assms show ?thesis using parseLdLibraryPath_Inr [of env c wd opt c'] by simp
next
  case rule_parseLdOptionDynamic
  with assms show ?thesis using parseLdOptionDynamic_Inr [of env c wd opt c'] by simp
next
  case rule_parseLdOptionStatic
  with assms show ?thesis using parseLdOptionStatic_Inr [of env c wd opt c'] by simp
next
  case rule_parseLdOptionState
  with assms show ?thesis using parseLdOptionState_Inr [of env c wd opt c'] by simp
next
  case rule_parseLdOptionEmulation
  with assms show ?thesis using parseLdOptionEmulation_Inr [of env c wd opt c'] by simp
next
  case rule_parseSolarisLdOptionB
  with assms show ?thesis using parseSolarisLdOptionB_Inr [of env c wd opt c'] by simp
next
  case rule_parseSolarisLdOptionD
  with assms show ?thesis using parseSolarisLdOptionD_Inr [of env c wd opt c'] by simp
next
  case rule_parseSolarisLdOptionY
  with assms show ?thesis using parseSolarisLdOptionY_Inr [of env c wd opt c'] by simp
next
  case rule_parseSolarisLdMapfile
  with assms show ?thesis using parseSolarisLdMapfile_Inr [of env c wd opt c'] by simp
qed

lemma parse_token_advances:
  assumes "parse_token env rules wd c = Inr c'"
  shows "advances c c'"
proof -
  from assms obtain tok where tok: "front c = Inr tok"
    unfolding parse_token_def by (auto dest!: bnd_Inr)
  then have ne: "d_originalCommand c \<noteq> []" by (auto dest: front_Inr)
  show ?thesis
  proof (cases "snd (matchCompilerOptions tok rules)")
    case None
    with assms tok ne show ?thesis
      unfolding parse_token_def advances_def
      by (auto simp: bnd_def step_simps dest!: pop_front_Inr appendAndRemoveOption_Inr
          split: if_splits prod.splits)
  next
    case (Some handler)
    with assms tok have "apply_rule handler env c wd (fst (matchCompilerOptions tok rules)) = Inr c'"
      unfolding parse_token_def by (auto simp: bnd_def split: prod.splits)
    from apply_rule_advances [OF this ne] show ?thesis .
  qed
qed

subsection \<open>The parser loop and the factory functions\<close>

function parseCommand ::
  "environment \<Rightarrow> CompilerParseRulesMap \<Rightarrow> string \<Rightarrow> ParsedCommand \<Rightarrow> fault + ParsedCommand" where
  "parseCommand env parseRules workingDirectory command =
     (if d_originalCommand command = [] then Inr command
      else case parse_token env parseRules workingDirectory command of
             Inl e \<Rightarrow> Inl e
           | Inr command' \<Rightarrow> parseCommand env parseRules workingDirectory command')"
  by pat_completeness auto
termination
  by (relation "measure (\<lambda>(env, parseRules, workingDirectory, command).
        length (d_originalCommand command))")
    (auto dest: parse_token_advances simp: advances_def)

declare parseCommand.simps [simp del]

lemma parseCommand_empty:
  "d_originalCommand command = [] \<Longrightarrow>
   parseCommand env parseRules workingDirectory command = Inr command"
  by (subst parseCommand.simps) simp

lemma parseCommand_token:
  "d_originalCommand command \<noteq> [] \<Longrightarrow>
   parseCommand env parseRules workingDirectory command =
     (case parse_token env parseRules workingDirectory command of
        Inl e \<Rightarrow> Inl e
      | Inr command' \<Rightarrow> parseCommand env parseRules workingDirectory command')"
  by (subst parseCommand.simps) simp

text \<open>\<open>getParsedCommandMap\<close> and the search for the table of the compiler. The map is
  unordered; the compiler families of the source do not overlap, so the order in which
  they are tried does not matter.\<close>

definition getParsedCommandMap :: "environment \<Rightarrow> (string set \<times> CompilerParseRulesMap) list" where
  "getParsedCommandMap env =
     [(Gcc env, GccRules), (GccPreprocessor env, GccPreprocessorRules),
      (SunCPP env, SunCPPRules), (AIX env, AixRules)]"

text \<open>The handling of the options collected from \<open>-Wp,\<close> and \<open>-Xpreprocessor\<close>: they
  are parsed as a command of their own and its results are merged.\<close>

definition merge_preprocessor_command :: "ParsedCommand \<Rightarrow> ParsedCommand \<Rightarrow> ParsedCommand" where
  "merge_preprocessor_command preprocessorCommand parsedCommand =
     parsedCommand\<lparr>
       d_command := d_command parsedCommand @
         concat (map (\<lambda>preproArg. [''-Xpreprocessor'', preproArg])
                   (d_command preprocessorCommand)),
       d_dependenciesCommand := d_dependenciesCommand parsedCommand @
         concat (map (\<lambda>preproArg. [''-Xpreprocessor'', preproArg])
                   (d_dependenciesCommand preprocessorCommand)),
       d_commandProducts := d_commandProducts parsedCommand \<union>
         d_commandProducts preprocessorCommand,
       d_commandDepsProducts := d_commandDepsProducts parsedCommand \<union>
         d_commandDepsProducts preprocessorCommand,
       d_md_option_set := (d_md_option_set preprocessorCommand \<or>
                           d_md_option_set parsedCommand)\<rparr>"

text \<open>The second half of \<open>createParsedCommand\<close>, after the arguments have been parsed:
  the classification of the command, the preprocessor options, the default dependency
  options.\<close>

definition classify_parsed_command ::
  "environment \<Rightarrow> string list \<Rightarrow> string \<Rightarrow> ParsedCommand \<Rightarrow> fault + ParsedCommand" where
  "classify_parsed_command env command workingDirectory parsedCommand =
     (if d_containsUnsupportedOptions parsedCommand \<or> d_inputFiles parsedCommand = []
      then Inr (parsedCommand\<lparr>d_compilerCommand := False\<rparr>)
      else
        (let parsedCommand =
               (if \<not> is_compiler_command parsedCommand
                then parsedCommand\<lparr>d_linkerCommand := True\<rparr>
                else parsedCommand)
         in bnd (if d_preProcessorOptions parsedCommand \<noteq> [] then
                   bnd (parseCommand env GccPreprocessorRules workingDirectory
                          (ParsedCommand_default\<lparr>d_originalCommand :=
                             d_preProcessorOptions parsedCommand\<rparr>))
                     (\<lambda>preprocessorCommand.
                        Inr (merge_preprocessor_command preprocessorCommand parsedCommand))
                 else Inr parsedCommand)
              (\<lambda>parsedCommand.
                 Inr (parsedCommand\<lparr>
                   d_dependenciesCommand :=
                     d_dependenciesCommand parsedCommand @ d_defaultDepsCommand parsedCommand,
                   d_originalCommand := command @ d_originalCommand parsedCommand\<rparr>))))"

definition createParsedCommand ::
  "environment \<Rightarrow> string list \<Rightarrow> string \<Rightarrow> fault + ParsedCommand" where
  "createParsedCommand env command workingDirectory =
     (if command = [] then Inr ParsedCommand_default
      else bnd (ParsedCommand_init env command workingDirectory)
        (\<lambda>parsedCommand.
           case find (\<lambda>val. d_compiler parsedCommand \<in> fst val) (getParsedCommandMap env) of
             None \<Rightarrow> Inr (parsedCommand\<lparr>d_containsUnsupportedOptions := True\<rparr>)
           | Some val \<Rightarrow>
               bnd (parseCommand env (snd val) workingDirectory parsedCommand)
                 (classify_parsed_command env command workingDirectory)))"

definition createParsedLinkerCommand ::
  "environment \<Rightarrow> string list \<Rightarrow> string \<Rightarrow> fault + ParsedCommand" where
  "createParsedLinkerCommand env command workingDirectory =
     bnd (ParsedCommand_init env command workingDirectory)
       (\<lambda>parsedCommand.
          bnd (parseCommand env (if on_solaris env then SolarisLdRules else LdRules)
                 workingDirectory parsedCommand)
            (\<lambda>parsedCommand.
               if d_containsUnsupportedOptions parsedCommand \<or>
                  is_compiler_command parsedCommand
               then Inr parsedCommand
               else Inr (parsedCommand\<lparr>
                      d_linkerCommand := True,
                      d_originalCommand := command @ d_originalCommand parsedCommand\<rparr>)))"

subsection \<open>Example commands\<close>

text \<open>\<open>gcc - hello.c\<close> and \<open>gcc @args.rsp -c hello.c\<close> as the parser leaves them: the
  command is unsupported, and the tokens after \<open>-\<close> and \<open>@args.rsp\<close> have been parsed
  (an early return keeps \<open>d_originalCommand\<close> empty).\<close>

definition gcc_stdin_command :: ParsedCommand where
  "gcc_stdin_command = ParsedCommand_default
     \<lparr> d_isGcc := True, d_containsUnsupportedOptions := True, d_compiler := ''gcc'',
       d_defaultDepsCommand := [''-M''],
       d_command := [''gcc'', ''hello.c''],
       d_dependenciesCommand := [''gcc'', ''hello.c''],
       d_inputFiles := [''hello.c''] \<rparr>"

definition gcc_response_file_command :: ParsedCommand where
  "gcc_response_file_command = ParsedCommand_default
     \<lparr> d_isGcc := True, d_containsUnsupportedOptions := True, d_compiler := ''gcc'',
       d_defaultDepsCommand := [''-M''],
       d_command := [''gcc'', ''-c'', ''hello.c''],
       d_dependenciesCommand := [''gcc'', ''-c'', ''hello.c''],
       d_inputFiles := [''hello.c''] \<rparr>"

text \<open>\<open>ld main.o -lfoo -o x\<close> as \<open>createParsedLinkerCommand\<close> leaves it.\<close>

definition ld_main_command :: ParsedCommand where
  "ld_main_command = ParsedCommand_default
     \<lparr> d_linkerCommand := True, d_compiler := ''ld'',
       d_originalCommand := [''ld'', ''main.o'', ''-lfoo'', ''-o'', ''x''],
       d_command := [''ld'', ''main.o'', ''-lfoo'', ''-o'', ''x''],
       d_dependenciesCommand := [''ld'', ''main.o''],
       d_inputFiles := [''main.o''], d_libraries := {''foo''},
       d_commandProducts := {''x''} \<rparr>"

section \<open>Properties\<close>

subsection \<open>The product loop of get_file_info\<close>

lemma size_t_sub_small: "n < 2 \<Longrightarrow> n < size_t_sub n 2"
  by (cases n) (auto simp: size_t_sub_def)

lemma size_t_sub_large:
  assumes "2 \<le> n" "n < 2 ^ 64"
  shows "size_t_sub n 2 = n - 2"
proof -
  have "n + 2 ^ 64 - 2 = (n - 2) + (2 ^ 64 :: nat)" using assms by simp
  moreover have "n - 2 < (2 ^ 64 :: nat)" using assms by simp
  ultimately show ?thesis unfolding size_t_sub_def by (metis mod_add_self2 mod_less)
qed

lemma products_loop_short:
  "\<exists>p\<in>set ps. length p < 2 \<Longrightarrow> products_loop ps acc = Inl out_of_range"
proof (induction ps arbitrary: acc)
  case Nil
  then show ?case by simp
next
  case (Cons p ps)
  obtain P T where acc: "acc = (P, T)" by (cases acc)
  show ?case
  proof (cases "length p < 2")
    case True
    then show ?thesis
      using size_t_sub_small [of "length p"]
      by (simp add: acc bnd_def substr_from_def)
  next
    case False
    with Cons.prems have "\<exists>q\<in>set ps. length q < 2" by auto
    then show ?thesis
      using Cons.IH by (simp add: acc bnd_def substr_from_def)
  qed
qed

lemma products_loop_long:
  "\<forall>p\<in>set ps. 2 \<le> length p \<and> length p < 2 ^ 64 \<Longrightarrow>
   products_loop ps (P, T) =
     Inr (P \<union> normalizePath ` set ps, T @ filter (\<lambda>p. drop (length p - 2) p = ''.o'') ps)"
proof (induction ps arbitrary: P T)
  case Nil
  then show ?case by simp
next
  case (Cons p ps)
  then have p: "2 \<le> length p" "length p < 2 ^ 64" by auto
  from Cons show ?case
    by (simp add: bnd_def substr_from_def size_t_sub_large [OF p])
qed

subsection \<open>Validation of the input files\<close>

lemma validate_inputs_recognized:
  "\<forall>f\<in>set fs. recognized_input pc f \<Longrightarrow>
   validate_inputs pc fs (H, S, Ob) =
     Inr (H \<union> {f \<in> set fs. header_input pc f}, S \<union> {f \<in> set fs. source_input pc f},
          Ob \<union> {f \<in> set fs. object_input pc f})"
proof (induction fs arbitrary: H S Ob)
  case Nil
  then show ?case by simp
next
  case (Cons f fs)
  then have f: "recognized_input pc f" and fs: "\<forall>g\<in>set fs. recognized_input pc g"
    by auto
  show ?case
    using f Cons.IH [OF fs]
    by (auto simp: recognized_input_def header_input_def source_input_def aux_input_def
        object_input_def)
qed

lemma validate_inputs_unrecognized:
  "\<exists>f\<in>set fs. \<not> recognized_input pc f \<Longrightarrow>
   \<exists>msg. validate_inputs pc fs acc = Inl (invalid_argument msg)"
proof (induction fs arbitrary: acc)
  case Nil
  then show ?case by simp
next
  case (Cons f fs)
  obtain H S Ob where acc: "acc = (H, S, Ob)" by (cases acc)
  show ?case
  proof (cases "recognized_input pc f")
    case True
    with Cons.prems have "\<exists>g\<in>set fs. \<not> recognized_input pc g" by auto
    from Cons.IH [OF this] show ?thesis
      by (auto simp: acc)
  next
    case False
    then show ?thesis
      by (auto simp: acc recognized_input_def header_input_def source_input_def aux_input_def
          object_input_def)
  qed
qed

lemmas command_eval =
  ParsedCommand_default_def is_compiler_command_def is_linker_command_def is_sun_studio_def
  is_header_file_def is_source_file_def is_aux_input_file_def is_object_file_def
  has_suffix_in_def rfind_char_def header_input_def source_input_def aux_input_def
  object_input_def recognized_input_def headers_of_def sources_of_def objects_of_def

subsection \<open>The loops of populateCommandProto and the end of BuildAction\<close>

lemma foldl_add_output_file:
  "foldl (add_output_file b) c fs =
     (if b then c\<lparr>output_paths := output_paths c @ fs\<rparr>
      else c\<lparr>output_files := output_files c @ fs\<rparr>)"
  by (induction fs arbitrary: c) (auto simp: add_output_file_def)

lemma foldl_add_output_directory:
  "foldl (add_output_directory b) c ds =
     (if b then c\<lparr>output_paths := output_paths c @ ds\<rparr>
      else c\<lparr>output_directories := output_directories c @ ds\<rparr>)"
  by (induction ds arbitrary: c) (auto simp: add_output_directory_def)

lemma foldl_add_platform_property_outputs:
  "output_paths (foldl add_platform_property c ps) = output_paths c \<and>
   output_files (foldl add_platform_property c ps) = output_files c \<and>
   output_directories (foldl add_platform_property c ps) = output_directories c"
  by (induction ps arbitrary: c) (auto simp: add_platform_property_def)

lemma configured_version_valid:
  "version_string_to_pair (RECC_REAPI_VERSION env) = Inr v \<Longrightarrow>
   configured_reapi_version_equal_to_or_newer_than env ''2.1'' = Inr (version_ge v (2, 1)) \<and>
   configured_reapi_version_equal_to_or_newer_than env ''2.2'' = Inr (version_ge v (2, 2))"
  by (simp add: configured_reapi_version_equal_to_or_newer_than_def bnd_def
      version_string_to_pair_def digit_value_def)

lemma populateCommandProto_outputs:
  assumes "version_string_to_pair (RECC_REAPI_VERSION env) = Inr v"
  shows "\<exists>c. populateCommandProto env command outputFiles outputDirectories
            remoteEnvironment platformProperties workingDirectory = Inr c \<and>
          (if version_ge v (2, 1)
           then output_paths c = outputFiles @ outputDirectories \<and>
                output_files c = [] \<and> output_directories c = []
           else output_paths c = [] \<and> output_files c = outputFiles \<and>
                output_directories c = outputDirectories)"
  using configured_version_valid [OF assms]
  by (simp add: populateCommandProto_def bnd_def Let_def foldl_add_output_file
      foldl_add_output_directory foldl_add_platform_property_outputs Command_default_def)

lemma BuildAction_platform:
  assumes "version_string_to_pair (RECC_REAPI_VERSION env) = Inr v"
  shows "\<exists>b. BuildAction env command products remoteEnv commandWorkingDirectory
            directoryDigest = Inr b \<and>
          action_platform (action b) =
            (if version_ge v (2, 2)
             then Some (case platform (commandProto b) of None \<Rightarrow> []
                        | Some properties \<Rightarrow> properties)
             else None)"
proof -
  obtain c where c: "generateCommandProto env command products
      (RECC_OUTPUT_DIRECTORIES_OVERRIDE env) remoteEnv (RECC_REMOTE_PLATFORM env)
      commandWorkingDirectory = Inr c"
    using populateCommandProto_outputs [OF assms] unfolding generateCommandProto_def by blast
  show ?thesis
    using configured_version_valid [OF assms] c
    by (simp add: BuildAction_def bnd_def Let_def)
qed



lemmas action_eval =
  BuildAction_def generateCommandProto_def populateCommandProto_def
  configured_reapi_version_equal_to_or_newer_than_def version_string_to_pair_def
  digit_value_def version_ge_def resolvePathFromPrefixMap_def bnd_def Let_def
  add_output_file_def add_output_directory_def add_platform_property_def
  Command_default_def example_environment_def

subsection \<open>Normalising a path twice\<close>

lemma push_segment_length: "length (push_segment g segs x) \<le> Suc (length segs)"
  by (auto simp: push_segment_def)

lemma push_segment_cases:
  "push_segment g n x = butlast n \<or> push_segment g n x = n \<or> push_segment g n x = n @ [x]"
  by (simp add: push_segment_def)

lemma foldl_push_length:
  "length (foldl (push_segment g) acc xs) \<le> length acc + length xs"
proof (induction xs arbitrary: acc)
  case Nil
  then show ?case by simp
next
  case (Cons x xs)
  have "length (foldl (push_segment g) (push_segment g acc x) xs)
      \<le> length (push_segment g acc x) + length xs"
    by (rule Cons.IH)
  also have "\<dots> \<le> Suc (length acc) + length xs"
    using push_segment_length [of g acc x] by simp
  finally show ?case by simp
qed

lemma fixpoint_snoc:
  assumes "foldl (push_segment g) [] (zs @ [z]) = zs @ [z]"
  shows "foldl (push_segment g) [] zs = zs"
proof -
  let ?n = "foldl (push_segment g) [] zs"
  have len: "length ?n \<le> length zs"
    using foldl_push_length [of g "[]" zs] by simp
  have eq: "push_segment g ?n z = zs @ [z]"
    using assms by simp
  consider (pop) "push_segment g ?n z = butlast ?n"
    | (keep) "push_segment g ?n z = ?n"
    | (app) "push_segment g ?n z = ?n @ [z]"
    using push_segment_cases [of g ?n z] by blast
  then show ?thesis
  proof cases
    case pop
    with eq have "length (butlast ?n) = Suc (length zs)" by simp
    with len show ?thesis by simp
  next
    case keep
    with eq have "length ?n = Suc (length zs)" by simp
    with len show ?thesis by simp
  next
    case app
    with eq show ?thesis by simp
  qed
qed

lemma fixpoint_butlast:
  assumes "foldl (push_segment g) [] ys = ys"
  shows "foldl (push_segment g) [] (butlast ys) = butlast ys"
proof (cases ys rule: rev_cases)
  case Nil
  then show ?thesis by simp
next
  case (snoc zs z)
  with assms show ?thesis
    using fixpoint_snoc [of g zs z] by simp
qed

lemma foldl_push_idem:
  "foldl (push_segment g) [] (foldl (push_segment g) [] xs) = foldl (push_segment g) [] xs"
proof (induction xs rule: rev_induct)
  case Nil
  then show ?case by simp
next
  case (snoc x xs)
  let ?n = "foldl (push_segment g) [] xs"
  consider (pop) "push_segment g ?n x = butlast ?n"
    | (keep) "push_segment g ?n x = ?n"
    | (app) "push_segment g ?n x = ?n @ [x]"
    using push_segment_cases [of g ?n x] by blast
  then show ?case
  proof cases
    case pop
    then show ?thesis using fixpoint_butlast [OF snoc.IH] by simp
  next
    case keep
    then show ?thesis using snoc.IH by simp
  next
    case app
    then show ?thesis using snoc.IH by simp
  qed
qed

lemma foldl_push_set:
  "set (foldl (push_segment g) acc xs) \<subseteq> set acc \<union> (set xs - {''.'', []})"
proof (induction xs arbitrary: acc)
  case Nil
  then show ?case by simp
next
  case (Cons x xs)
  have "set (push_segment g acc x) \<subseteq> set acc \<union> ({x} - {''.'', []})"
    by (auto simp: push_segment_def dest: in_set_butlastD)
  with Cons.IH [of "push_segment g acc x"] show ?case by auto
qed

lemma path_segments_chars:
  "q \<in> set (path_segments cur s) \<Longrightarrow> set q \<subseteq> (set cur \<union> set s) - {CHR ''/''} \<union> set cur"
  by (induction cur s rule: path_segments.induct) (auto split: if_splits)

lemma path_segments_append:
  "CHR ''/'' \<notin> set s \<Longrightarrow> path_segments cur (s @ rest) = path_segments (cur @ s) rest"
  by (induction s arbitrary: cur) auto

lemma join_segments_Cons:
  "join_segments (s # segs) = s @ (if segs = [] then [] else ''/'' @ join_segments segs)"
proof (cases segs)
  case Nil
  then show ?thesis by (simp add: join_segments_def)
next
  case (Cons t ts)
  then show ?thesis by (simp add: join_segments_def butlast_append)
qed

lemma path_segments_join:
  "segs \<noteq> [] \<Longrightarrow> \<forall>s\<in>set segs. s \<noteq> [] \<and> CHR ''/'' \<notin> set s \<Longrightarrow>
   path_segments cur (join_segments segs) = (cur @ hd segs) # tl segs"
proof (induction segs arbitrary: cur)
  case Nil
  then show ?case by simp
next
  case (Cons s segs)
  show ?case
  proof (cases segs)
    case Nil
    with Cons.prems show ?thesis
      using path_segments_append [of s cur "[]"]
      by (simp add: join_segments_Cons)
  next
    case (Cons t ts)
    with Cons.prems Cons.IH [of "[]"] show ?thesis
      using path_segments_append [of s cur "''/'' @ join_segments segs"]
      by (simp add: join_segments_Cons)
  qed
qed

lemma join_segments_Nil: "join_segments [] = []"
  by (simp add: join_segments_def)

lemma join_segments_chars:
  "set (join_segments segs) \<subseteq> \<Union> (set ` set segs) \<union> {CHR ''/''}"
  by (induction segs) (auto simp: join_segments_Cons join_segments_Nil split: if_splits)

lemma c_str_id: "CHR 0x00 \<notin> set s \<Longrightarrow> c_str s = s"
  by (auto simp: c_str_def)

lemma c_str_chars: "CHR 0x00 \<notin> set (c_str s)"
  unfolding c_str_def by (auto dest: set_takeWhileD)

lemma normalizePath_idempotent: "normalizePath (normalizePath p) = normalizePath p"
proof -
  define path where "path = c_str p"
  define g where "g = (path \<noteq> [] \<and> hd path = CHR ''/'')"
  define segs where "segs = foldl (push_segment g) [] (path_segments [] path)"
  have seg_ok: "s \<noteq> [] \<and> s \<noteq> ''.'' \<and> CHR ''/'' \<notin> set s \<and> CHR 0x00 \<notin> set s" if "s \<in> set segs" for s
  proof -
    from that have s: "s \<in> set (path_segments [] path)" "s \<noteq> []" "s \<noteq> ''.''"
      using foldl_push_set [of g "[]" "path_segments [] path"] unfolding segs_def by auto
    from path_segments_chars [OF s(1)] have "set s \<subseteq> set path - {CHR ''/''}" by simp
    with c_str_chars [of p] s show ?thesis unfolding path_def by auto
  qed
  have fixed: "foldl (push_segment g) [] segs = segs"
    unfolding segs_def by (rule foldl_push_idem)
  have res: "normalizePath p =
      (if segs \<noteq> [] then (if g then ''/'' else []) @ join_segments segs
       else if g then ''/'' else ''.'')"
    by (simp add: normalizePath_def Let_def path_def g_def segs_def)
  show ?thesis
  proof (cases "segs = []")
    case True
    then show ?thesis
      unfolding res
      by (simp add: normalizePath_def c_str_def push_segment_def)
  next
    case False
    let ?r = "(if g then ''/'' else []) @ join_segments segs"
    have r: "normalizePath p = ?r" using False res by simp
    have nonul: "CHR 0x00 \<notin> set ?r"
      using join_segments_chars [of segs] seg_ok by auto
    have hdseg: "hd segs \<in> set segs" using False by simp
    obtain s rest where segs: "segs = s # rest" using False by (cases segs) auto
    have s: "s \<noteq> []" "CHR ''/'' \<notin> set s" using seg_ok [of s] segs by auto
    have joinhd: "join_segments segs \<noteq> [] \<and> hd (join_segments segs) = hd s"
      using s by (simp add: segs join_segments_Cons)
    have "hd s \<in> set s" using s by simp
    with s have hds: "hd s \<noteq> CHR ''/''" by metis
    have glob: "(?r \<noteq> [] \<and> hd ?r = CHR ''/'') = g"
      using joinhd hds by simp
    have pieces: "path_segments [] (join_segments segs) = segs"
      using path_segments_join [of segs "[]"] False seg_ok by simp
    have "foldl (push_segment g) [] (path_segments [] ?r) = segs"
      using fixed by (cases g) (simp_all add: pieces push_segment_def)
    then have "normalizePath ?r = ?r"
      using False glob
      by (simp add: normalizePath_def Let_def c_str_id [OF nonul] del: foldl_append)
    then show ?thesis by (simp only: r)
  qed
qed

lemma hasPathPrefix_empty: "\<not> hasPathPrefix path []"
  by (simp add: hasPathPrefix_def)

subsection \<open>Matching an option against a rule table\<close>

lemma take_eq_prefix: "(take (length k) s = k) = prefix k s"
  by (metis append_eq_conv_conj prefix_def take_is_prefix)

lemma substring_search_find:
  "substring_search options option = find (\<lambda>entry. prefix (fst entry) option) options"
  by (induction options) (simp_all add: take_eq_prefix)

lemma prefix_le_lex: "prefix (xs :: string) ys \<Longrightarrow> xs \<le> ys"
proof (induction xs arbitrary: ys)
  case Nil
  then show ?case by simp
next
  case (Cons x xs)
  then obtain zs where "ys = x # zs" "prefix xs zs"
    by (cases ys) auto
  with Cons.IH [of zs] show ?case by simp
qed

lemma find_Some_in: "find P xs = Some e \<Longrightarrow> e \<in> set xs \<and> P e"
  by (induction xs) (auto split: if_splits)

lemma find_None_notin: "(find P xs = None) = (\<forall>e\<in>set xs. \<not> P e)"
  by (induction xs) auto

lemma distinct_keys_eq:
  "distinct (map fst xs) \<Longrightarrow> a \<in> set xs \<Longrightarrow> b \<in> set xs \<Longrightarrow> fst a = fst b \<Longrightarrow> a = b"
  by (induction xs) (auto simp: image_iff)

lemma find_first_lex:
  "sorted_wrt (\<lambda>a b. fst b < fst a) (options :: (string \<times> 'h) list) \<Longrightarrow>
   find P options = Some e \<Longrightarrow> e' \<in> set options \<Longrightarrow> P e' \<Longrightarrow> fst e' \<le> fst e"
proof (induction options)
  case Nil
  then show ?case by simp
next
  case (Cons a options)
  show ?case
  proof (cases "P a")
    case True
    with Cons.prems have "e = a" by simp
    with Cons.prems show ?thesis by auto
  next
    case False
    with Cons.prems have "find P options = Some e" "e' \<in> set options" by auto
    with Cons show ?thesis by simp
  qed
qed

lemma find_first_length:
  "sorted_wrt (\<lambda>a b. length (fst b) \<le> length (fst a)) (options :: (string \<times> 'h) list) \<Longrightarrow>
   find P options = Some e \<Longrightarrow> e' \<in> set options \<Longrightarrow> P e' \<Longrightarrow>
   length (fst e') \<le> length (fst e)"
proof (induction options)
  case Nil
  then show ?case by simp
next
  case (Cons a options)
  show ?case
  proof (cases "P a")
    case True
    with Cons.prems have "e = a" by simp
    with Cons.prems show ?thesis by auto
  next
    case False
    with Cons.prems have "find P options = Some e" "e' \<in> set options" by auto
    with Cons show ?thesis by simp
  qed
qed

lemma ordered_distinct_keys:
  "rules_map_ordered options \<Longrightarrow> distinct (map fst options)"
  unfolding rules_map_ordered_def
  by (induction options) auto

lemma find_by_length:
  assumes ord: "rules_map_ordered options"
    and perm: "set byLength = set options"
    and len: "sorted_wrt (\<lambda>a b. length (fst b) \<le> length (fst a)) byLength"
  shows "find (\<lambda>entry. prefix (fst entry) option) byLength =
         find (\<lambda>entry. prefix (fst entry) option) options"
proof -
  let ?P = "\<lambda>entry :: string \<times> 'a. prefix (fst entry) option"
  have lex: "sorted_wrt (\<lambda>a b. fst b < fst a) options"
    using ord by (simp add: rules_map_ordered_def sorted_wrt_map)
  show ?thesis
  proof (cases "find ?P options")
    case None
    then have "\<forall>e\<in>set byLength. \<not> ?P e"
      using perm by (simp add: find_None_notin)
    then have "find ?P byLength = None" by (simp add: find_None_notin)
    with None show ?thesis by simp
  next
    case (Some e1)
    then have e1: "e1 \<in> set options" "?P e1"
      using find_Some_in [of ?P options e1] by simp_all
    then have "\<exists>e\<in>set byLength. ?P e" using perm by auto
    then have "find ?P byLength \<noteq> None" by (simp add: find_None_notin)
    then obtain e2 where e2f: "find ?P byLength = Some e2" by blast
    then have e2: "e2 \<in> set options" "?P e2"
      using find_Some_in [of ?P byLength e2] perm by simp_all
    have "length (fst e1) \<le> length (fst e2)"
      using find_first_length [OF len e2f, of e1] e1 perm by simp
    with e1 e2 have "prefix (fst e1) (fst e2)"
      using prefix_length_prefix [of "fst e1" option "fst e2"] by simp
    then have "fst e1 \<le> fst e2" by (rule prefix_le_lex)
    moreover have "fst e2 \<le> fst e1"
      using find_first_lex [OF lex Some, of e2] e2 by simp
    ultimately have "fst e1 = fst e2" by simp
    then have "e1 = e2"
      using distinct_keys_eq [OF ordered_distinct_keys [OF ord] e1(1) e2(1)] by simp
    with Some e2f show ?thesis by simp
  qed
qed

lemma longest_prefix_rule_substring_search:
  assumes "rules_map_ordered options"
  shows "longest_prefix_rule options option = substring_search options option"
proof -
  have "sorted (map (\<lambda>entry. length (fst entry)) (sort_key (\<lambda>entry. length (fst entry)) options))"
    by (rule sorted_sort_key)
  then have len: "sorted_wrt (\<lambda>a b. length (fst b) \<le> length (fst a))
      (rev (sort_key (\<lambda>entry. length (fst entry)) options))"
    by (simp add: sorted_wrt_rev sorted_map)
  have perm: "set (rev (sort_key (\<lambda>entry. length (fst entry)) options)) = set options"
    by simp
  have "find (\<lambda>entry. prefix (fst entry) option)
      (rev (sort_key (\<lambda>entry. length (fst entry)) options)) =
      find (\<lambda>entry. prefix (fst entry) option) options"
    by (rule find_by_length [OF assms perm len])
  then show ?thesis
    by (simp only: longest_prefix_rule_def substring_search_find)
qed

lemma longest_prefix_rule_longest:
  assumes "longest_prefix_rule options option = Some (key, handler)"
  shows "(key, handler) \<in> set options \<and> prefix key option \<and>
         (\<forall>entry\<in>set options. prefix (fst entry) option \<longrightarrow> length (fst entry) \<le> length key)"
proof -
  let ?ys = "rev (sort_key (\<lambda>entry. length (fst entry)) options)"
  have "sorted (map (\<lambda>entry. length (fst entry)) (sort_key (\<lambda>entry. length (fst entry)) options))"
    by (rule sorted_sort_key)
  then have len: "sorted_wrt (\<lambda>a b. length (fst b) \<le> length (fst a)) ?ys"
    by (simp add: sorted_wrt_rev sorted_map)
  have f: "find (\<lambda>entry. prefix (fst entry) option) ?ys = Some (key, handler)"
    using assms by (simp add: longest_prefix_rule_def)
  then have "(key, handler) \<in> set ?ys" "prefix key option"
    using find_Some_in [of "\<lambda>entry. prefix (fst entry) option" ?ys "(key, handler)"]
    by simp_all
  moreover have "\<forall>entry\<in>set options. prefix (fst entry) option \<longrightarrow>
      length (fst entry) \<le> length key"
    using find_first_length [OF len f] by auto
  ultimately show ?thesis by simp
qed

lemma GccRules_ordered: "rules_map_ordered GccRules"
  unfolding rules_map_ordered_def GccRules_def
  by (simp add: less_char_def)

subsection \<open>One step of the parser\<close>

lemma matchCompilerOptions_handler:
  "matchCompilerOptions tok rules = (matched, Some handler) \<Longrightarrow>
   (matched, handler) \<in> set rules"
  by (auto simp: matchCompilerOptions_def Let_def substring_search_find
      split: if_splits option.splits dest: map_of_SomeD find_Some_in)

lemma parse_token_compiler:
  assumes "parse_token env rules wd c = Inr c'"
    and "rule_parseIsCompileOption \<notin> snd ` set rules"
  shows "d_compilerCommand c' = d_compilerCommand c"
proof -
  from assms obtain tok where tok: "front c = Inr tok"
    unfolding parse_token_def by (auto dest!: bnd_Inr)
  then have ne: "d_originalCommand c \<noteq> []" by (auto dest: front_Inr)
  show ?thesis
  proof (cases "snd (matchCompilerOptions tok rules)")
    case None
    with assms tok ne show ?thesis
      unfolding parse_token_def
      by (auto simp: bnd_def step_simps dest!: pop_front_Inr appendAndRemoveOption_Inr
          split: if_splits prod.splits)
  next
    case (Some handler)
    then have "(fst (matchCompilerOptions tok rules), handler) \<in> set rules"
      using matchCompilerOptions_handler [of tok rules "fst (matchCompilerOptions tok rules)" handler]
      by (cases "matchCompilerOptions tok rules") simp
    then have h: "handler \<noteq> rule_parseIsCompileOption"
      using assms(2) by (metis image_eqI snd_conv)
    from Some assms tok have "apply_rule handler env c wd (fst (matchCompilerOptions tok rules)) = Inr c'"
      unfolding parse_token_def by (auto simp: bnd_def split: prod.splits)
    from apply_rule_compiler [OF this ne h] show ?thesis .
  qed
qed

subsection \<open>What the parser loop preserves\<close>

lemma parseCommand_frame:
  "parseCommand env rules wd c = Inr c' \<Longrightarrow>
   d_originalCommand c' = [] \<and> d_linkerCommand c' = d_linkerCommand c \<and>
   (d_containsUnsupportedOptions c \<longrightarrow> d_containsUnsupportedOptions c')"
proof (induction env rules wd c rule: parseCommand.induct)
  case (1 env rules wd c)
  show ?case
  proof (cases "d_originalCommand c = []")
    case True
    with "1.prems" show ?thesis by (simp add: parseCommand_empty)
  next
    case False
    with "1.prems" obtain c1 where
      c1: "parse_token env rules wd c = Inr c1" and
      rest: "parseCommand env rules wd c1 = Inr c'"
      by (cases "parse_token env rules wd c") (simp_all add: parseCommand_token)
    from "1.IH" [OF False c1 rest] parse_token_advances [OF c1]
    show ?thesis by (simp add: advances_def)
  qed
qed

lemma parseCommand_compiler:
  "rule_parseIsCompileOption \<notin> snd ` set rules \<Longrightarrow>
   parseCommand env rules wd c = Inr c' \<Longrightarrow> d_compilerCommand c' = d_compilerCommand c"
proof (induction env rules wd c rule: parseCommand.induct)
  case (1 env rules wd c)
  show ?case
  proof (cases "d_originalCommand c = []")
    case True
    with "1.prems" show ?thesis by (simp add: parseCommand_empty)
  next
    case False
    with "1.prems" obtain c1 where
      c1: "parse_token env rules wd c = Inr c1" and
      rest: "parseCommand env rules wd c1 = Inr c'"
      by (cases "parse_token env rules wd c") (simp_all add: parseCommand_token)
    from "1.IH" [OF False c1 "1.prems"(1) rest] parse_token_compiler [OF c1 "1.prems"(1)]
    show ?thesis by simp
  qed
qed

lemma ParsedCommand_init_flags:
  "ParsedCommand_init env command wd = Inr pc \<Longrightarrow>
   \<not> d_compilerCommand pc \<and> \<not> d_linkerCommand pc \<and> \<not> d_containsUnsupportedOptions pc"
  by (auto simp: ParsedCommand_init_def ParsedCommand_default_def Let_def
      dest!: bnd_Inr split: if_splits)

lemma linker_rules_no_compile_option:
  "rule_parseIsCompileOption \<notin> snd ` set LdRules"
  "rule_parseIsCompileOption \<notin> snd ` set SolarisLdRules"
  by (simp_all add: LdRules_def SolarisLdRules_def)

lemma classify_parsed_command_flags:
  assumes "classify_parsed_command env command wd p1 = Inr pc" and "\<not> d_linkerCommand p1"
  shows "\<not> (d_compilerCommand pc \<and> d_linkerCommand pc) \<and>
         (d_containsUnsupportedOptions pc \<longrightarrow> \<not> d_compilerCommand pc \<and> \<not> d_linkerCommand pc)"
proof (cases "d_containsUnsupportedOptions p1 \<or> d_inputFiles p1 = []")
  case True
  with assms show ?thesis
    by (auto simp: classify_parsed_command_def)
next
  case False
  define p2 where "p2 = (if \<not> is_compiler_command p1 then p1\<lparr>d_linkerCommand := True\<rparr> else p1)"
  have p2: "\<not> (d_compilerCommand p2 \<and> d_linkerCommand p2)" "\<not> d_containsUnsupportedOptions p2"
    using False assms(2) by (auto simp: p2_def is_compiler_command_def)
  from assms(1) False obtain p3 where
    p3: "(if d_preProcessorOptions p2 \<noteq> [] then
            bnd (parseCommand env GccPreprocessorRules wd
                   (ParsedCommand_default\<lparr>d_originalCommand := d_preProcessorOptions p2\<rparr>))
              (\<lambda>preprocessorCommand. Inr (merge_preprocessor_command preprocessorCommand p2))
          else Inr p2) = Inr p3" and
    pc: "pc = p3\<lparr>d_dependenciesCommand := d_dependenciesCommand p3 @ d_defaultDepsCommand p3,
                  d_originalCommand := command @ d_originalCommand p3\<rparr>"
    unfolding classify_parsed_command_def Let_def p2_def [symmetric]
    by (cases "if d_preProcessorOptions p2 \<noteq> [] then
            bnd (parseCommand env GccPreprocessorRules wd
                   (ParsedCommand_default\<lparr>d_originalCommand := d_preProcessorOptions p2\<rparr>))
              (\<lambda>preprocessorCommand. Inr (merge_preprocessor_command preprocessorCommand p2))
          else Inr p2") (simp_all add: bnd_def)
  have "d_compilerCommand p3 = d_compilerCommand p2 \<and> d_linkerCommand p3 = d_linkerCommand p2 \<and>
      d_containsUnsupportedOptions p3 = d_containsUnsupportedOptions p2"
  proof (cases "d_preProcessorOptions p2 \<noteq> []")
    case True
    with p3 obtain pp where "p3 = merge_preprocessor_command pp p2"
      by (auto dest!: bnd_Inr)
    then show ?thesis by (simp add: merge_preprocessor_command_def)
  next
    case False
    with p3 show ?thesis by simp
  qed
  with p2 pc show ?thesis by simp
qed

lemma createParsedCommand_flags:
  assumes "createParsedCommand env command wd = Inr pc"
  shows "\<not> (d_compilerCommand pc \<and> d_linkerCommand pc) \<and>
         (d_containsUnsupportedOptions pc \<longrightarrow> \<not> d_compilerCommand pc \<and> \<not> d_linkerCommand pc)"
proof (cases "command = []")
  case True
  with assms show ?thesis
    by (auto simp: createParsedCommand_def ParsedCommand_default_def)
next
  case False
  with assms obtain p0 where
    p0: "ParsedCommand_init env command wd = Inr p0" and
    rest: "(case find (\<lambda>val. d_compiler p0 \<in> fst val) (getParsedCommandMap env) of
             None \<Rightarrow> Inr (p0\<lparr>d_containsUnsupportedOptions := True\<rparr>)
           | Some val \<Rightarrow>
               bnd (parseCommand env (snd val) wd p0)
                 (classify_parsed_command env command wd)) = Inr pc"
    unfolding createParsedCommand_def
    by (cases "ParsedCommand_init env command wd") (simp_all add: bnd_def)
  note f0 = ParsedCommand_init_flags [OF p0]
  show ?thesis
  proof (cases "find (\<lambda>val. d_compiler p0 \<in> fst val) (getParsedCommandMap env)")
    case None
    with rest f0 show ?thesis by auto
  next
    case (Some val)
    with rest obtain p1 where
      p1: "parseCommand env (snd val) wd p0 = Inr p1" and
      fin: "classify_parsed_command env command wd p1 = Inr pc"
      by (cases "parseCommand env (snd val) wd p0") (simp_all add: bnd_def)
    from parseCommand_frame [OF p1] f0 have l1: "\<not> d_linkerCommand p1" by simp
    from classify_parsed_command_flags [OF fin l1] show ?thesis .
  qed
qed

lemma createParsedLinkerCommand_flags:
  assumes "createParsedLinkerCommand env command wd = Inr pc"
  shows "\<not> d_compilerCommand pc \<and>
         (d_containsUnsupportedOptions pc \<longrightarrow> \<not> d_linkerCommand pc)"
proof (cases "ParsedCommand_init env command wd")
  case (Inl e)
  with assms show ?thesis by (simp add: createParsedLinkerCommand_def bnd_def)
next
  case p0: (Inr p0)
  let ?rules = "if on_solaris env then SolarisLdRules else LdRules"
  note f0 = ParsedCommand_init_flags [OF p0]
  show ?thesis
  proof (cases "parseCommand env ?rules wd p0")
    case (Inl e)
    with assms p0 show ?thesis by (simp add: createParsedLinkerCommand_def bnd_def)
  next
    case p1: (Inr p1)
    have "rule_parseIsCompileOption \<notin> snd ` set ?rules"
      using linker_rules_no_compile_option by simp
    from parseCommand_compiler [OF this p1] f0 have c1: "\<not> d_compilerCommand p1" by simp
    from parseCommand_frame [OF p1] f0 have l1: "\<not> d_linkerCommand p1" by simp
    from assms p0 p1 have "pc = (if d_containsUnsupportedOptions p1 \<or> is_compiler_command p1
        then p1 else p1\<lparr>d_linkerCommand := True,
                          d_originalCommand := command @ d_originalCommand p1\<rparr>)"
      by (auto simp: createParsedLinkerCommand_def bnd_def split: if_splits)
    with c1 l1 show ?thesis
      by (simp add: is_compiler_command_def)
  qed
qed

subsection \<open>Running the parser on example commands\<close>

lemmas parser_eval =
  createParsedCommand_def createParsedLinkerCommand_def classify_parsed_command_def
  ParsedCommand_init_def
  getParsedCommandMap_def parseCommand_empty parseCommand_token parse_token_def
  matchCompilerOptions_def isspace_def front_def pop_front_def bnd_def Let_def
  push_command_def push_dependencies_def set_unsupported_def record_output_def
  record_include_dir_def appendAndRemoveOption_def parseGccOption_def substr_from_def
  find_char_def rfind_char_def strip_version_def is_version_character_def
  modifyPathForRemote_def resolvePathFromPrefixMap_def rewritePathToRelative_def
  hasPathPrefix_def normalizePath_def c_str_def push_segment_def join_segments_def
  parseOptionIsUnsupported_def parseIsCompileOption_def parseOptionRedirectsOutput_def
  parseLdLibrary_def
  is_compiler_command_def is_linker_command_def is_sun_studio_def
  ParsedCommand_default_def example_environment_def

lemma parse_gcc_hello:
  "createParsedCommand example_environment [''gcc'', ''-c'', ''hello.c'', ''-o'', ''hello.o''] [] =
     Inr gcc_hello_command"
  by (simp add: parser_eval GccRules_def gcc_hello_command_def)

lemma parse_gcc_short_output:
  "createParsedCommand example_environment [''gcc'', ''-c'', ''foo.c'', ''-o'', ''a''] [] =
     Inr gcc_short_output_command"
  by (simp add: parser_eval GccRules_def gcc_short_output_command_def)

lemma parse_sun_inline:
  "createParsedCommand example_environment [''CC'', ''-c'', ''t.il'', ''-o'', ''x.o''] [] =
     Inr sun_inline_command"
  by (simp add: parser_eval SunCPPRules_def sun_inline_command_def)

lemma parse_gcc_text:
  "createParsedCommand example_environment [''gcc'', ''-c'', ''hello.txt''] [] =
     Inr gcc_text_command"
  by (simp add: parser_eval GccRules_def gcc_text_command_def)

lemma parse_gcc_stdin:
  "createParsedCommand example_environment [''gcc'', ''-'', ''hello.c''] [] =
     Inr gcc_stdin_command"
  by (simp add: parser_eval GccRules_def gcc_stdin_command_def)

lemma parse_gcc_response_file:
  "createParsedCommand example_environment [''gcc'', ''@args.rsp'', ''-c'', ''hello.c''] [] =
     Inr gcc_response_file_command"
  by (simp add: parser_eval GccRules_def gcc_response_file_command_def)

lemma parse_ld_main:
  "createParsedLinkerCommand example_environment [''ld'', ''main.o'', ''-lfoo'', ''-o'', ''x''] [] =
     Inr ld_main_command"
  by (simp add: parser_eval LdRules_def ld_main_command_def)

lemma match_dash:
  "parseRules \<in> {GccRules, GccPreprocessorRules, SunCPPRules, AixRules, LdRules, SolarisLdRules}
   \<Longrightarrow> matchCompilerOptions ''-'' parseRules = ([], None)"
  by (auto simp: matchCompilerOptions_def isspace_def GccRules_def GccPreprocessorRules_def
      SunCPPRules_def AixRules_def LdRules_def SolarisLdRules_def)

lemma match_at:
  "token \<noteq> [] \<Longrightarrow> hd token = CHR ''@'' \<Longrightarrow> matchCompilerOptions token parseRules = ([], None)"
  by (simp add: matchCompilerOptions_def)

lemma parse_token_stdin_or_response_file:
  assumes "token = ''-'' \<or> (token \<noteq> [] \<and> hd token = CHR ''@'')"
    and "matchCompilerOptions token parseRules = ([], None)"
  shows "parse_token env parseRules wd (command\<lparr>d_originalCommand := token # rest\<rparr>) =
         Inr (command\<lparr>d_containsUnsupportedOptions := True, d_originalCommand := rest\<rparr>)"
  using assms
  by (auto simp: parse_token_def front_def pop_front_def bnd_def set_unsupported_def)

subsection \<open>C1: the longest matching prefix wins\<close>

text \<open>
  C1 (as amended). Take a rule table (keys in descending lexicographic order, as the
  map keeps them) and a token that begins with \<open>-\<close> or \<open>+\<close> and has no exact match,
  where the exact match is tried on the token cut at its first \<open>=\<close> and with its
  whitespace characters deleted. Then \<open>matchCompilerOptions\<close> returns the entry found by
  scanning the table in descending key-length order for the first key that is a prefix
  of the token, and nothing if there is none; that entry's key is the longest key of
  the table that is a prefix of the token.
\<close>

theorem matchCompilerOptions_longest_prefix:
  assumes "rules_map_ordered options"
    and "option \<noteq> []" and "hd option = CHR ''-'' \<or> hd option = CHR ''+''"
    and "map_of options (filter (\<lambda>c. \<not> isspace c) (takeWhile (\<lambda>c. c \<noteq> CHR ''='') option)) = None"
  shows "matchCompilerOptions option options =
           (case longest_prefix_rule options option of
              Some (key, handler) \<Rightarrow> (key, Some handler)
            | None \<Rightarrow> ([], None)) \<and>
         (\<forall>key handler. longest_prefix_rule options option = Some (key, handler) \<longrightarrow>
            (key, handler) \<in> set options \<and> prefix key option \<and>
            (\<forall>entry\<in>set options. prefix (fst entry) option \<longrightarrow>
               length (fst entry) \<le> length key))"
proof
  have guard: "(option \<noteq> [] \<and> (hd option = CHR ''-'' \<or> hd option = CHR ''+'')) = True"
    using assms(2,3) by simp
  show "matchCompilerOptions option options =
           (case longest_prefix_rule options option of
              Some (key, handler) \<Rightarrow> (key, Some handler)
            | None \<Rightarrow> ([], None))"
    unfolding matchCompilerOptions_def Let_def guard assms(4)
      longest_prefix_rule_substring_search [OF assms(1)]
    by (simp only: if_True option.case)
  show "\<forall>key handler. longest_prefix_rule options option = Some (key, handler) \<longrightarrow>
            (key, handler) \<in> set options \<and> prefix key option \<and>
            (\<forall>entry\<in>set options. prefix (fst entry) option \<longrightarrow>
               length (fst entry) \<le> length key)"
    by (intro allI impI) (rule longest_prefix_rule_longest)
qed

theorem matchCompilerOptions_longest_prefix_witness:
  "rules_map_ordered GccRules \<and>
   matchCompilerOptions ''-xassembler'' GccRules = (''-x'', Some rule_parseOptionSetsGccLanguage) \<and>
   longest_prefix_rule GccRules ''-xassembler'' = Some (''-x'', rule_parseOptionSetsGccLanguage) \<and>
   matchCompilerOptions ''-MFfoo'' GccRules = (''-MF'', Some rule_parseOptionRedirectsDepsOutput) \<and>
   longest_prefix_rule GccRules ''-MFfoo'' = Some (''-MF'', rule_parseOptionRedirectsDepsOutput)"
proof -
  have x: "map_of GccRules (filter (\<lambda>c. \<not> isspace c)
      (takeWhile (\<lambda>c. c \<noteq> CHR ''='') ''-xassembler'')) = None"
    by (simp add: GccRules_def isspace_def)
  have m: "map_of GccRules (filter (\<lambda>c. \<not> isspace c)
      (takeWhile (\<lambda>c. c \<noteq> CHR ''='') ''-MFfoo'')) = None"
    by (simp add: GccRules_def isspace_def)
  have nx: "''-xassembler'' \<noteq> []" and hx: "hd ''-xassembler'' = CHR ''-'' \<or> hd ''-xassembler'' = CHR ''+''"
    and nm: "''-MFfoo'' \<noteq> []" and hm: "hd ''-MFfoo'' = CHR ''-'' \<or> hd ''-MFfoo'' = CHR ''+''"
    by simp_all
  have lx: "longest_prefix_rule GccRules ''-xassembler'' =
      Some (''-x'', rule_parseOptionSetsGccLanguage)"
    unfolding longest_prefix_rule_substring_search [OF GccRules_ordered]
    by (simp add: GccRules_def)
  have lm: "longest_prefix_rule GccRules ''-MFfoo'' =
      Some (''-MF'', rule_parseOptionRedirectsDepsOutput)"
    unfolding longest_prefix_rule_substring_search [OF GccRules_ordered]
    by (simp add: GccRules_def)
  have mx: "matchCompilerOptions ''-xassembler'' GccRules =
      (''-x'', Some rule_parseOptionSetsGccLanguage)"
    using matchCompilerOptions_longest_prefix [OF GccRules_ordered nx hx x, THEN conjunct1]
    by (simp only: lx option.case prod.case)
  have mm: "matchCompilerOptions ''-MFfoo'' GccRules =
      (''-MF'', Some rule_parseOptionRedirectsDepsOutput)"
    using matchCompilerOptions_longest_prefix [OF GccRules_ordered nm hm m, THEN conjunct1]
    by (simp only: lm option.case prod.case)
  from GccRules_ordered mx lx mm lm show ?thesis by (intro conjI)
qed

text \<open>
  C1 as stated fails: the token \<open>-M D\<close> cut at \<open>=\<close> is not a key of the gcc table and
  its longest key prefix is \<open>-M\<close>, but with the blank deleted it is the key \<open>-MD\<close>,
  and that entry is returned.
\<close>

theorem matchCompilerOptions_exact_after_space_removal:
  "map_of GccRules (takeWhile (\<lambda>c. c \<noteq> CHR ''='') ''-M D'') = None \<and>
   longest_prefix_rule GccRules ''-M D'' = Some (''-M'', rule_parseOptionIsUnsupported) \<and>
   matchCompilerOptions ''-M D'' GccRules = (''-MD'', Some rule_parseInterfersWithDepsOption)"
proof -
  have "longest_prefix_rule GccRules ''-M D'' = Some (''-M'', rule_parseOptionIsUnsupported)"
    unfolding longest_prefix_rule_substring_search [OF GccRules_ordered]
    by (simp add: GccRules_def)
  then show ?thesis
    by (simp add: matchCompilerOptions_def GccRules_def isspace_def)
qed

subsection \<open>C2: the action salt\<close>



subsection \<open>C3: the REAPI version switches\<close>

text \<open>
  C3. With a valid configured REAPI version \<open>v\<close>, \<open>populateCommandProto\<close> puts the
  output files and directories into \<open>output_paths\<close> and leaves \<open>output_files\<close> and
  \<open>output_directories\<close> empty if \<open>v\<close> is at least 2.1, and otherwise fills the two
  split fields and leaves \<open>output_paths\<close> empty. \<open>BuildAction\<close> copies the platform of
  the Command into the Action if \<open>v\<close> is at least 2.2 and otherwise leaves the
  platform of the Action unset. The two switches are separate tests of the version.
\<close>

theorem reapi_version_switches:
  assumes "version_string_to_pair (RECC_REAPI_VERSION env) = Inr v"
  shows "(\<exists>c. populateCommandProto env command outputFiles outputDirectories
            remoteEnvironment platformProperties workingDirectory = Inr c \<and>
          (if version_ge v (2, 1)
           then output_paths c = outputFiles @ outputDirectories \<and>
                output_files c = [] \<and> output_directories c = []
           else output_paths c = [] \<and> output_files c = outputFiles \<and>
                output_directories c = outputDirectories)) \<and>
         (\<exists>b. BuildAction env command products remoteEnv commandWorkingDirectory
            directoryDigest = Inr b \<and>
          action_platform (action b) =
            (if version_ge v (2, 2)
             then Some (case platform (commandProto b) of None \<Rightarrow> []
                        | Some properties \<Rightarrow> properties)
             else None))"
  using populateCommandProto_outputs [OF assms] BuildAction_platform [OF assms] by blast

theorem reapi_version_switches_witness:
  "version_string_to_pair (RECC_REAPI_VERSION example_environment) = Inr (2, 2) \<and>
   (\<exists>c. populateCommandProto example_environment
           [''./gcc'', ''-c'', ''hello.cpp'', ''-o'', ''hello.o''] [''hello.o''] [] [] [] [] = Inr c \<and>
        output_paths c = [''hello.o''] \<and> output_files c = [] \<and> output_directories c = []) \<and>
   (\<exists>b. BuildAction example_environment
           [''./gcc'', ''-c'', ''hello.cpp'', ''-o'', ''hello.o''] [''hello.o''] [] []
           \<lparr>hash_hex = [], size_bytes = 0\<rparr> = Inr b \<and>
        action_platform (action b) = Some [(''ISA'', ''x86-64'')]) \<and>
   version_string_to_pair (RECC_REAPI_VERSION old_reapi_environment) = Inr (2, 0) \<and>
   (\<exists>c. populateCommandProto old_reapi_environment
           [''./gcc'', ''-c'', ''hello.cpp'', ''-o'', ''hello.o''] [''hello.o''] [] [] [] [] = Inr c \<and>
        output_paths c = [] \<and> output_files c = [''hello.o''] \<and> output_directories c = []) \<and>
   (\<exists>b. BuildAction old_reapi_environment
           [''./gcc'', ''-c'', ''hello.cpp'', ''-o'', ''hello.o''] [''hello.o''] [] []
           \<lparr>hash_hex = [], size_bytes = 0\<rparr> = Inr b \<and>
        action_platform (action b) = None)"
proof -
  have new: "version_string_to_pair (RECC_REAPI_VERSION example_environment) = Inr (2, 2)"
    by (simp add: action_eval)
  have old: "version_string_to_pair (RECC_REAPI_VERSION old_reapi_environment) = Inr (2, 0)"
    by (simp add: old_reapi_environment_def action_eval)
  have plat: "\<And>b. BuildAction example_environment
           [''./gcc'', ''-c'', ''hello.cpp'', ''-o'', ''hello.o''] [''hello.o''] [] []
           \<lparr>hash_hex = [], size_bytes = 0\<rparr> = Inr b \<Longrightarrow>
        platform (commandProto b) = Some [(''ISA'', ''x86-64'')]"
    by (auto simp: action_eval)
  show ?thesis
    using reapi_version_switches [OF new, of "[''./gcc'', ''-c'', ''hello.cpp'', ''-o'', ''hello.o'']"
        "[''hello.o'']" "[]" "[]" "[]" "[]" "[''hello.o'']" "[]" "[]" "\<lparr>hash_hex = [], size_bytes = 0\<rparr>"]
      reapi_version_switches [OF old, of "[''./gcc'', ''-c'', ''hello.cpp'', ''-o'', ''hello.o'']"
        "[''hello.o'']" "[]" "[]" "[]" "[]" "[''hello.o'']" "[]" "[]" "\<lparr>hash_hex = [], size_bytes = 0\<rparr>"]
      new old plat
    by (auto simp: version_ge_def)
qed

subsection \<open>Dependencies from make rules\<close>

lemma make_rules_run_append:
  "make_rules_run st (xs @ ys) = make_rules_run (make_rules_run st xs) ys"
  by (simp add: make_rules_run_def)

lemma make_rules_run_Nil: "make_rules_run st [] = st"
  by (simp add: make_rules_run_def)

lemma make_rules_run_Cons:
  "make_rules_run st (x # xs) = make_rules_run (make_rules_step False st x) xs"
  by (simp add: make_rules_run_def)

lemma insert_current_in_body:
  "insert_current (in_body deps current) = (if current \<noteq> [] then insert current deps else deps)"
  by (simp add: insert_current_def in_body_def)

lemma insert_current_before_colon: "insert_current (before_colon deps) = deps"
  by (simp add: insert_current_def before_colon_def)

lemma run_name_char:
  assumes "valid_name_char nc"
  shows "make_rules_run (in_body deps current) (render_name_char nc) =
         in_body deps (current @ [name_char_text nc])"
  using assms
  by (cases nc)
     (simp_all add: valid_name_char_def render_name_char_def name_char_text_def
                    make_rules_run_def make_rules_step_def in_body_def)

lemma run_name:
  assumes "list_all valid_name_char name"
  shows "make_rules_run (in_body deps current) (render_name name) =
         in_body deps (current @ name_text name)"
  using assms
proof (induction name arbitrary: current)
  case Nil
  then show ?case by (simp add: render_name_def name_text_def make_rules_run_Nil)
next
  case (Cons nc name)
  have "make_rules_run (in_body deps current) (render_name (nc # name)) =
        make_rules_run (in_body deps (current @ [name_char_text nc])) (render_name name)"
    using Cons.prems by (simp add: render_name_def make_rules_run_append run_name_char)
  also have "\<dots> = in_body deps ((current @ [name_char_text nc]) @ name_text name)"
    using Cons.prems by (intro Cons.IH) simp
  finally show ?case by (simp add: name_text_def)
qed

lemma run_gap_item_blank:
  "make_rules_run (in_body deps current) (render_gap_item Blank) =
   in_body (insert_current (in_body deps current)) []"
  by (simp add: render_gap_item_def make_rules_run_def make_rules_step_def in_body_def)

lemma run_gap_item_continuation:
  "make_rules_run (in_body deps current) (render_gap_item Continuation) = in_body deps current"
  by (simp add: render_gap_item_def make_rules_run_def make_rules_step_def in_body_def)

lemma run_gap:
  "make_rules_run (in_body deps current) (render_gap gap) =
   (if Blank \<in> set gap then in_body (insert_current (in_body deps current)) []
    else in_body deps current)"
proof (induction gap arbitrary: deps current)
  case Nil
  then show ?case by (simp add: render_gap_def make_rules_run_Nil)
next
  case (Cons item gap)
  show ?case
  proof (cases item)
    case Blank
    have "make_rules_run (in_body deps current) (render_gap (item # gap)) =
          make_rules_run (in_body (insert_current (in_body deps current)) []) (render_gap gap)"
      using Blank by (simp add: render_gap_def make_rules_run_append run_gap_item_blank)
    also have "\<dots> = in_body (insert_current (in_body deps current)) []"
      by (simp add: Cons.IH insert_current_in_body)
    finally show ?thesis using Blank by simp
  next
    case Continuation
    have "make_rules_run (in_body deps current) (render_gap (item # gap)) =
          make_rules_run (in_body deps current) (render_gap gap)"
      using Continuation
      by (simp add: render_gap_def make_rules_run_append run_gap_item_continuation)
    then show ?thesis using Continuation by (simp add: Cons.IH)
  qed
qed

lemma run_target:
  assumes "valid_target t"
  shows "make_rules_run (before_colon deps) t = before_colon deps"
  using assms
proof (induction t)
  case Nil
  then show ?case by (simp add: make_rules_run_Nil)
next
  case (Cons c t)
  have "make_rules_step False (before_colon deps) c = before_colon deps"
    using Cons.prems
    by (simp add: valid_target_def make_rules_step_def before_colon_def insert_current_def)
  then show ?case using Cons by (simp add: make_rules_run_Cons valid_target_def)
qed

lemma run_colon:
  "make_rules_run (before_colon deps) (CHR '':'' # rest) = make_rules_run (in_body deps []) rest"
  by (simp add: make_rules_run_def make_rules_step_def before_colon_def in_body_def)

lemma run_newline:
  "make_rules_run (in_body deps current) (CHR 0x0A # rest) =
   make_rules_run (before_colon (insert_current (in_body deps current))) rest"
  by (simp add: make_rules_run_def make_rules_step_def before_colon_def in_body_def
                insert_current_def)

text \<open>The dependencies of a rule whose names are kept apart by blanks: when the line
  ends, the names read are exactly the names written.\<close>

lemma run_dependencies:
  assumes "list_all (\<lambda>dep. valid_name (fst dep)) deps_list"
      and "gaps_ok (\<lambda>gap. Blank \<in> set gap) deps_list"
  shows "\<exists>deps' current.
           make_rules_run (in_body deps []) (concat (map render_dependency deps_list)) =
             in_body deps' current \<and>
           insert_current (in_body deps' current) =
             deps \<union> set (map (\<lambda>dep. name_text (fst dep)) deps_list)"
  using assms
proof (induction deps_list arbitrary: deps)
  case Nil
  have "make_rules_run (in_body deps []) (concat (map render_dependency [])) = in_body deps []"
    by (simp add: make_rules_run_Nil)
  moreover have "insert_current (in_body deps []) =
      deps \<union> set (map (\<lambda>dep. name_text (fst dep)) [])"
    by (simp add: insert_current_in_body)
  ultimately show ?case by blast
next
  case (Cons dep rest)
  obtain name gap where dep: "dep = (name, gap)" by (cases dep)
  have name: "name \<noteq> []" "list_all valid_name_char name"
    using Cons.prems(1) dep by (simp_all add: valid_name_def)
  have text_name: "name_text name \<noteq> []" using name(1) by (simp add: name_text_def)
  have after_name:
    "make_rules_run (in_body deps []) (render_dependency dep) =
     make_rules_run (in_body deps (name_text name)) (render_gap gap)"
    using run_name [OF name(2), of deps "[]"]
    by (simp add: render_dependency_def dep make_rules_run_append)
  show ?case
  proof (cases "Blank \<in> set gap")
    case True
    have first: "make_rules_run (in_body deps []) (render_dependency dep) =
                 in_body (insert (name_text name) deps) []"
      using after_name True text_name by (simp add: run_gap insert_current_in_body)
    have rest_valid: "list_all (\<lambda>dep. valid_name (fst dep)) rest"
      using Cons.prems(1) by simp
    have rest_gaps: "gaps_ok (\<lambda>gap. Blank \<in> set gap) rest"
      using Cons.prems(2) by (cases rest) simp_all
    obtain deps' current where
      run: "make_rules_run (in_body (insert (name_text name) deps) [])
              (concat (map render_dependency rest)) = in_body deps' current"
      and fin: "insert_current (in_body deps' current) =
              insert (name_text name) deps \<union> set (map (\<lambda>dep. name_text (fst dep)) rest)"
      using Cons.IH [OF rest_valid rest_gaps, of "insert (name_text name) deps"] by blast
    have "make_rules_run (in_body deps []) (concat (map render_dependency (dep # rest))) =
          in_body deps' current"
      using first run by (simp add: make_rules_run_append)
    moreover have "insert_current (in_body deps' current) =
          deps \<union> set (map (\<lambda>dep. name_text (fst dep)) (dep # rest))"
      using fin dep by simp
    ultimately show ?thesis by blast
  next
    case False
    have last_dep: "rest = []"
    proof (cases rest)
      case Nil
      then show ?thesis .
    next
      case (Cons next_dep deps'')
      then show ?thesis using Cons.prems(2) False dep by simp
    qed
    have "make_rules_run (in_body deps []) (concat (map render_dependency (dep # rest))) =
          in_body deps (name_text name)"
      using after_name False last_dep by (simp add: run_gap)
    moreover have "insert_current (in_body deps (name_text name)) =
          deps \<union> set (map (\<lambda>dep. name_text (fst dep)) (dep # rest))"
      using text_name last_dep dep by (simp add: insert_current_in_body)
    ultimately show ?thesis by blast
  qed
qed

lemma run_rule:
  assumes "well_formed_rule (\<lambda>gap. Blank \<in> set gap) rule"
  shows "\<exists>deps' current.
           make_rules_run (before_colon deps) (render_rule rule) = in_body deps' current \<and>
           insert_current (in_body deps' current) = deps \<union> set (rule_names rule)"
proof -
  have t: "valid_target (target rule)"
    and v: "list_all (\<lambda>dep. valid_name (fst dep)) (dependencies rule)"
    and g: "gaps_ok (\<lambda>gap. Blank \<in> set gap) (dependencies rule)"
    using assms by (simp_all add: well_formed_rule_def)
  have gap: "make_rules_run (in_body deps []) (render_gap (first_gap rule)) = in_body deps []"
    by (simp add: run_gap insert_current_in_body)
  have "make_rules_run (before_colon deps) (render_rule rule) =
        make_rules_run (in_body deps []) (concat (map render_dependency (dependencies rule)))"
    by (simp add: render_rule_def make_rules_run_append run_target [OF t] run_colon gap)
  then show ?thesis
    using run_dependencies [OF v g, of deps] by (simp add: rule_names_def)
qed

lemma run_rules:
  assumes "spaced rules"
  shows "make_rules_run (before_colon deps) (render_rules rules) =
         before_colon (deps \<union> set (concat (map rule_names rules)))"
  using assms
proof (induction rules arbitrary: deps)
  case Nil
  then show ?case by (simp add: render_rules_def make_rules_run_Nil)
next
  case (Cons rule rules)
  have wf: "well_formed_rule (\<lambda>gap. Blank \<in> set gap) rule" and rest: "spaced rules"
    using Cons.prems by (simp_all add: spaced_def)
  obtain deps' current where
    run: "make_rules_run (before_colon deps) (render_rule rule) = in_body deps' current"
    and fin: "insert_current (in_body deps' current) = deps \<union> set (rule_names rule)"
    using run_rule [OF wf, of deps] by blast
  have "make_rules_run (before_colon deps) (render_rules (rule # rules)) =
        make_rules_run (before_colon (deps \<union> set (rule_names rule))) (render_rules rules)"
    using run fin by (simp add: render_rules_def make_rules_run_append run_newline)
  then show ?case using Cons.IH [OF rest] by (simp add: Un_assoc)
qed

text \<open>Without the newline of the last rule the loop ends inside the rule, and the
  insertion after the loop does what the newline would have done.\<close>

lemma run_rules_unterminated:
  assumes "spaced rules"
  shows "insert_current (make_rules_run (before_colon {}) (butlast (render_rules rules))) =
         set (concat (map rule_names rules))"
proof (cases rules rule: rev_cases)
  case Nil
  then show ?thesis
    by (simp add: render_rules_def make_rules_run_Nil insert_current_before_colon)
next
  case (snoc front rule)
  have front: "spaced front" and wf: "well_formed_rule (\<lambda>gap. Blank \<in> set gap) rule"
    using assms snoc by (simp_all add: spaced_def)
  have rendered: "butlast (render_rules rules) = render_rules front @ render_rule rule"
    using snoc by (simp add: render_rules_def butlast_append)
  obtain deps' current where
    run: "make_rules_run (before_colon (set (concat (map rule_names front))))
            (render_rule rule) = in_body deps' current"
    and fin: "insert_current (in_body deps' current) =
            set (concat (map rule_names front)) \<union> set (rule_names rule)"
    using run_rule [OF wf] by blast
  have "make_rules_run (before_colon {}) (butlast (render_rules rules)) =
        in_body deps' current"
    unfolding rendered make_rules_run_append run_rules [OF front] using run by simp
  then show ?thesis using fin snoc by simp
qed

lemma make_rules_start_before_colon: "make_rules_start = before_colon {}"
  by (simp add: make_rules_start_def before_colon_def)

lemma dependencies_from_make_rules_spaced:
  assumes "spaced rules"
  shows "dependencies_from_make_rules (render_file final_newline rules) False =
         set (concat (map rule_names rules))"
proof (cases final_newline)
  case True
  then show ?thesis
    using run_rules [OF assms, of "{}"]
    by (simp add: dependencies_from_make_rules_def render_file_def
                  make_rules_start_before_colon make_rules_run_def [symmetric]
                  insert_current_before_colon)
next
  case False
  then show ?thesis
    using run_rules_unterminated [OF assms]
    by (simp add: dependencies_from_make_rules_def render_file_def
                  make_rules_start_before_colon make_rules_run_def [symmetric])
qed

lemmas make_rules_eval =
  dependencies_from_make_rules_def make_rules_start_def make_rules_step_def insert_current_def
  render_file_def render_rules_def render_rule_def render_dependency_def render_gap_def
  render_gap_item_def render_name_def render_name_char_def rule_names_def name_text_def
  name_char_text_def same_dependencies_def spaced_def separated_def well_formed_rule_def
  valid_target_def valid_name_def valid_name_char_def
  rule_blank_def rule_continued_def rule_gcc_layout_def

text \<open>
  C4 (as amended). Take two lists of well-formed make rules with the same dependency
  names, rule by rule, in each of which two consecutive names of a rule are kept apart by
  at least one blank. Whatever the layout of the two lists - the blanks and
  backslash-newline continuations after the colon and after every name, the layout of
  the targets, and whether the last rule is ended by a newline - the set that
  \<open>dependencies_from_make_rules\<close> computes with \<open>is_sun_format = false\<close> is the same for
  both, and it is the set of the names written.
\<close>

theorem make_rules_layout_invariant:
  assumes "spaced rules" and "spaced rules'" and "same_dependencies rules rules'"
  shows "dependencies_from_make_rules (render_file final_newline rules) False =
         dependencies_from_make_rules (render_file final_newline' rules') False \<and>
         dependencies_from_make_rules (render_file final_newline rules) False =
         set (concat (map rule_names rules))"
  using assms
  by (simp add: dependencies_from_make_rules_spaced same_dependencies_def)

text \<open>The rule \<open>a: b c\<close> on one line with its newline, and as gcc lays it out, continued
  after \<open>b\<close> and without the final newline: both give the two names.\<close>

theorem make_rules_layout_invariant_witness:
  "spaced [rule_blank] \<and> spaced [rule_gcc_layout] \<and>
   same_dependencies [rule_blank] [rule_gcc_layout] \<and>
   render_file True [rule_blank] = ''a: b c'' @ [CHR 0x0A] \<and>
   render_file False [rule_gcc_layout] = ''a: b '' @ [CHR 0x5C, CHR 0x0A] @ ''   c'' \<and>
   dependencies_from_make_rules (render_file True [rule_blank]) False =
   dependencies_from_make_rules (render_file False [rule_gcc_layout]) False \<and>
   dependencies_from_make_rules (render_file True [rule_blank]) False = {''b'', ''c''}"
proof -
  have s1: "spaced [rule_blank]" by (simp add: make_rules_eval)
  have s2: "spaced [rule_gcc_layout]" by (simp add: make_rules_eval)
  have s3: "same_dependencies [rule_blank] [rule_gcc_layout]" by (simp add: make_rules_eval)
  have r1: "render_file True [rule_blank] = ''a: b c'' @ [CHR 0x0A]"
    by (simp add: make_rules_eval)
  have r2: "render_file False [rule_gcc_layout] =
            ''a: b '' @ [CHR 0x5C, CHR 0x0A] @ ''   c''"
    by (simp add: make_rules_eval)
  have names: "set (concat (map rule_names [rule_blank])) = {''b'', ''c''}"
    by (simp add: make_rules_eval)
  note invariant = make_rules_layout_invariant [OF s1 s2 s3, of True False]
  have e1: "dependencies_from_make_rules (render_file True [rule_blank]) False =
            dependencies_from_make_rules (render_file False [rule_gcc_layout]) False"
    by (rule conjunct1 [OF invariant])
  have e2: "dependencies_from_make_rules (render_file True [rule_blank]) False = {''b'', ''c''}"
    unfolding names [symmetric] by (rule conjunct2 [OF invariant])
  show ?thesis by (intro conjI s1 s2 s3 r1 r2 e1 e2)
qed

text \<open>
  C4 (as stated) fails. In a make rule a backslash-newline between two names separates
  them as a blank does, so \<open>a: b c\<close> may be split after \<open>b\<close> with nothing but the
  continuation between \<open>b\<close> and \<open>c\<close>. The loop drops the two characters of the
  continuation without ending the name, and returns the single name \<open>bc\<close>.
\<close>

theorem make_rules_continuation_joins_names:
  "separated [rule_blank] \<and> separated [rule_continued] \<and>
   same_dependencies [rule_blank] [rule_continued] \<and>
   render_rules [rule_blank] = ''a: b c'' @ [CHR 0x0A] \<and>
   render_rules [rule_continued] = ''a: b'' @ [CHR 0x5C, CHR 0x0A] @ ''c'' @ [CHR 0x0A] \<and>
   dependencies_from_make_rules (''a: b c'' @ [CHR 0x0A]) False = {''b'', ''c''} \<and>
   dependencies_from_make_rules (''a: b'' @ [CHR 0x5C, CHR 0x0A] @ ''c'' @ [CHR 0x0A]) False =
     {''bc''}"
  by (simp add: make_rules_eval insert_commute)

subsection \<open>C5: the tokens \<open>-\<close> and \<open>@file\<close>\<close>

text \<open>
  C5 (as amended). With any of the rule tables of the source: when the next token is
  exactly \<open>-\<close>, or begins with \<open>@\<close>, the parser marks the command unsupported and
  drops that token, passing it to neither command line; parsing then goes on with the
  tokens that follow, exactly as it would from the marked state. The mark is never
  removed: a command the parser returns after such a token is unsupported.
\<close>

theorem stdin_or_response_file_token:
  assumes "token = ''-'' \<or> (token \<noteq> [] \<and> hd token = CHR ''@'')"
    and "parseRules \<in>
      {GccRules, GccPreprocessorRules, SunCPPRules, AixRules, LdRules, SolarisLdRules}"
  shows "parseCommand env parseRules workingDirectory
           (command\<lparr>d_originalCommand := token # rest\<rparr>) =
         parseCommand env parseRules workingDirectory
           (command\<lparr>d_containsUnsupportedOptions := True, d_originalCommand := rest\<rparr>) \<and>
         (\<forall>result. parseCommand env parseRules workingDirectory
                      (command\<lparr>d_originalCommand := token # rest\<rparr>) = Inr result \<longrightarrow>
            d_containsUnsupportedOptions result \<and> d_originalCommand result = [])"
proof -
  have m: "matchCompilerOptions token parseRules = ([], None)"
    using assms match_dash [OF assms(2)] match_at [of token parseRules] by blast
  have step: "parseCommand env parseRules workingDirectory
           (command\<lparr>d_originalCommand := token # rest\<rparr>) =
         parseCommand env parseRules workingDirectory
           (command\<lparr>d_containsUnsupportedOptions := True, d_originalCommand := rest\<rparr>)"
    using parseCommand_token [of "command\<lparr>d_originalCommand := token # rest\<rparr>" env parseRules
        workingDirectory]
    by (simp add: parse_token_stdin_or_response_file [OF assms(1) m])
  have "d_containsUnsupportedOptions result \<and> d_originalCommand result = []"
    if "parseCommand env parseRules workingDirectory
         (command\<lparr>d_originalCommand := token # rest\<rparr>) = Inr result" for result
    using parseCommand_frame [of env parseRules workingDirectory
        "command\<lparr>d_containsUnsupportedOptions := True, d_originalCommand := rest\<rparr>" result]
      that step by simp
  with step show ?thesis by blast
qed

theorem stdin_or_response_file_token_witness:
  "GccRules \<in> {GccRules, GccPreprocessorRules, SunCPPRules, AixRules, LdRules, SolarisLdRules} \<and>
   parseCommand example_environment GccRules []
     (ParsedCommand_default\<lparr>d_originalCommand := [''-'', ''hello.c'']\<rparr>) =
   parseCommand example_environment GccRules []
     (ParsedCommand_default\<lparr>d_containsUnsupportedOptions := True,
                             d_originalCommand := [''hello.c'']\<rparr>) \<and>
   parseCommand example_environment GccRules []
     (ParsedCommand_default\<lparr>d_originalCommand := [''@args.rsp'', ''hello.c'']\<rparr>) =
   parseCommand example_environment GccRules []
     (ParsedCommand_default\<lparr>d_containsUnsupportedOptions := True,
                             d_originalCommand := [''hello.c'']\<rparr>)"
proof -
  have r: "GccRules \<in>
      {GccRules, GccPreprocessorRules, SunCPPRules, AixRules, LdRules, SolarisLdRules}"
    by simp
  have t1: "''-'' = ''-'' \<or> (''-'' \<noteq> [] \<and> hd ''-'' = CHR ''@'')" by simp
  have t2: "''@args.rsp'' = ''-'' \<or> (''@args.rsp'' \<noteq> [] \<and> hd ''@args.rsp'' = CHR ''@'')"
    by simp
  from stdin_or_response_file_token [OF t1 r, where env = example_environment
      and workingDirectory = "[]" and command = ParsedCommand_default
      and rest = "[''hello.c'']", THEN conjunct1]
    stdin_or_response_file_token [OF t2 r, where env = example_environment
      and workingDirectory = "[]" and command = ParsedCommand_default
      and rest = "[''hello.c'']", THEN conjunct1] r
  show ?thesis by (intro conjI)
qed

text \<open>
  C5 as stated fails: parsing does not stop. After \<open>-\<close> the token \<open>hello.c\<close> is still
  parsed and recorded as an input file, and after \<open>@args.rsp\<close> the option \<open>-c\<close> is
  still handled by its rule, which sets the compile flag.
\<close>

theorem tokens_after_stdin_are_parsed:
  "parseCommand example_environment GccRules []
     (ParsedCommand_default\<lparr>d_originalCommand := [''-'', ''hello.c'']\<rparr>) =
   Inr (ParsedCommand_default\<lparr>d_containsUnsupportedOptions := True,
          d_command := [''hello.c''], d_dependenciesCommand := [''hello.c''],
          d_inputFiles := [''hello.c'']\<rparr>) \<and>
   parseCommand example_environment GccRules []
     (ParsedCommand_default\<lparr>d_originalCommand := [''@args.rsp'', ''-c'']\<rparr>) =
   Inr (ParsedCommand_default\<lparr>d_compilerCommand := True, d_containsUnsupportedOptions := True,
          d_command := [''-c''], d_dependenciesCommand := [''-c'']\<rparr>)"
  by (simp add: parser_eval GccRules_def)

subsection \<open>C6: modifyPathForRemote is idempotent without project root and prefix map\<close>

text \<open>
  C6. When \<open>RECC_PROJECT_ROOT\<close> is empty, the prefix map is empty and path rewriting is
  not disabled, \<open>modifyPathForRemote\<close> with its default normalisation is exactly the
  lexical normalisation of the path, because the empty project root is never a path
  prefix; applying it twice gives the same path as applying it once, for every path and
  working directory. The same holds when the caller switches normalisation off, where the
  function is the identity.
\<close>

theorem modifyPathForRemote_idempotent:
  assumes "RECC_PROJECT_ROOT env = []" and "RECC_PREFIX_REPLACEMENT env = []"
    and "\<not> RECC_NO_PATH_REWRITE env"
  shows "modifyPathForRemote env p cwd True = normalizePath p \<and>
         modifyPathForRemote env (modifyPathForRemote env p cwd True) cwd True =
           modifyPathForRemote env p cwd True \<and>
         modifyPathForRemote env (modifyPathForRemote env p cwd False) cwd False =
           modifyPathForRemote env p cwd False"
  using assms
  by (simp add: modifyPathForRemote_def resolvePathFromPrefixMap_def rewritePathToRelative_def
      hasPathPrefix_empty normalizePath_idempotent)

theorem modifyPathForRemote_idempotent_witness:
  "RECC_PROJECT_ROOT example_environment = [] \<and>
   RECC_PREFIX_REPLACEMENT example_environment = [] \<and>
   \<not> RECC_NO_PATH_REWRITE example_environment \<and>
   modifyPathForRemote example_environment ''/usr//lib/../include/./x.h'' ''/home/user'' True =
     ''/usr/include/x.h'' \<and>
   modifyPathForRemote example_environment ''/usr/include/x.h'' ''/home/user'' True =
     ''/usr/include/x.h''"
proof -
  have e: "RECC_PROJECT_ROOT example_environment = []"
    "RECC_PREFIX_REPLACEMENT example_environment = []"
    "\<not> RECC_NO_PATH_REWRITE example_environment"
    by (simp_all add: example_environment_def)
  have n: "normalizePath ''/usr//lib/../include/./x.h'' = ''/usr/include/x.h''"
    by (simp add: normalizePath_def c_str_def push_segment_def join_segments_def)
  note idem = modifyPathForRemote_idempotent [OF e, of "''/usr//lib/../include/./x.h''"
      "''/home/user''"]
  from idem have "modifyPathForRemote example_environment ''/usr//lib/../include/./x.h''
      ''/home/user'' True = normalizePath ''/usr//lib/../include/./x.h''"
    by blast
  then have m: "modifyPathForRemote example_environment ''/usr//lib/../include/./x.h''
      ''/home/user'' True = ''/usr/include/x.h''"
    by (simp only: n)
  from idem have "modifyPathForRemote example_environment
      (modifyPathForRemote example_environment ''/usr//lib/../include/./x.h'' ''/home/user'' True)
      ''/home/user'' True =
      modifyPathForRemote example_environment ''/usr//lib/../include/./x.h'' ''/home/user'' True"
    by blast
  then have "modifyPathForRemote example_environment ''/usr/include/x.h'' ''/home/user'' True =
      ''/usr/include/x.h''"
    by (simp only: m)
  with e m show ?thesis by simp
qed

subsection \<open>C8: compile and link are exclusive, unsupported is neither\<close>

text \<open>
  C8. Whatever the argument vector, the working directory, the configuration and the
  file system are: a \<open>ParsedCommand\<close> returned by \<open>createParsedCommand\<close> or by
  \<open>createParsedLinkerCommand\<close> is never both a compiler command and a linker command,
  and if it contains unsupported options it is neither.
\<close>

theorem parsed_command_classification:
  "(createParsedCommand env command workingDirectory = Inr pc \<longrightarrow>
      \<not> (is_compiler_command pc \<and> is_linker_command pc) \<and>
      (d_containsUnsupportedOptions pc \<longrightarrow>
         \<not> is_compiler_command pc \<and> \<not> is_linker_command pc)) \<and>
   (createParsedLinkerCommand env command workingDirectory = Inr pc \<longrightarrow>
      \<not> (is_compiler_command pc \<and> is_linker_command pc) \<and>
      (d_containsUnsupportedOptions pc \<longrightarrow>
         \<not> is_compiler_command pc \<and> \<not> is_linker_command pc))"
  using createParsedCommand_flags [of env command workingDirectory pc]
    createParsedLinkerCommand_flags [of env command workingDirectory pc]
  by (auto simp: is_compiler_command_def is_linker_command_def)

theorem parsed_command_classification_witness:
  "createParsedCommand example_environment
     [''gcc'', ''-c'', ''hello.c'', ''-o'', ''hello.o''] [] = Inr gcc_hello_command \<and>
   is_compiler_command gcc_hello_command \<and> \<not> is_linker_command gcc_hello_command \<and>
   createParsedCommand example_environment [''gcc'', ''-'', ''hello.c''] [] =
     Inr gcc_stdin_command \<and>
   d_containsUnsupportedOptions gcc_stdin_command \<and>
   \<not> is_compiler_command gcc_stdin_command \<and> \<not> is_linker_command gcc_stdin_command \<and>
   createParsedLinkerCommand example_environment
     [''ld'', ''main.o'', ''-lfoo'', ''-o'', ''x''] [] = Inr ld_main_command \<and>
   is_linker_command ld_main_command \<and> \<not> is_compiler_command ld_main_command"
proof -
  have c: "is_compiler_command gcc_hello_command"
    and u: "d_containsUnsupportedOptions gcc_stdin_command"
    and l: "is_linker_command ld_main_command"
    by (simp_all add: gcc_hello_command_def gcc_stdin_command_def ld_main_command_def
        is_compiler_command_def is_linker_command_def ParsedCommand_default_def)
  from parsed_command_classification [of example_environment
      "[''gcc'', ''-c'', ''hello.c'', ''-o'', ''hello.o'']" "[]" gcc_hello_command]
    parse_gcc_hello c
  have 1: "\<not> is_linker_command gcc_hello_command" by blast
  from parsed_command_classification [of example_environment
      "[''gcc'', ''-'', ''hello.c'']" "[]" gcc_stdin_command]
    parse_gcc_stdin u
  have 2: "\<not> is_compiler_command gcc_stdin_command \<and> \<not> is_linker_command gcc_stdin_command"
    by blast
  from parsed_command_classification [of example_environment
      "[''ld'', ''main.o'', ''-lfoo'', ''-o'', ''x'']" "[]" ld_main_command]
    parse_ld_main l
  have 3: "\<not> is_compiler_command ld_main_command" by blast
  from parse_gcc_hello c 1 parse_gcc_stdin u 2 parse_ld_main l 3 show ?thesis by blast
qed

subsection \<open>C7: base products of determine_products\<close>

text \<open>
  C7 (as amended). When every input file is recognised for the kind of command and at
  least one of them is a header, a source or (for a linker command) an object file,
  \<open>determine_products\<close> returns the base products together with the products of the
  \<open>-MD\<close>, coverage and split-dwarf options, and nothing but the base products when
  none of these options is set. The base products are the \<open>-o\<close> products verbatim if
  there are any, else \<open>a.out\<close> for a linker command, else \<open>header.gch\<close> for every
  header and the directory-stripped source name with its suffix replaced by \<open>.o\<close> for
  every source. When every input is recognised but none is a header, source or object
  file, the result is empty whatever \<open>-o\<close> says. An input that is not recognised makes
  the function throw \<open>std::invalid_argument\<close>.
\<close>

theorem determine_products_base:
  "((\<forall>f\<in>set (d_inputFiles pc). recognized_input pc f) \<and>
     (headers_of pc \<noteq> {} \<or> sources_of pc \<noteq> {} \<or> objects_of pc \<noteq> {}) \<longrightarrow>
     (\<exists>extra. determine_products pc =
        Inr ((if d_commandProducts pc \<noteq> {} then d_commandProducts pc
              else if is_linker_command pc then {''a.out''}
              else (\<lambda>header. header @ ''.gch'') ` headers_of pc \<union>
                   (\<lambda>source. stripDirectory (replaceSuffix source ''.o'')) ` sources_of pc)
             \<union> extra) \<and>
        (\<not> d_md_option_set pc \<and> \<not> d_qmakedep_option_set pc \<and> \<not> d_coverage_option_set pc \<and>
         \<not> d_split_dwarf_option_set pc \<longrightarrow> extra = {}))) \<and>
   ((\<forall>f\<in>set (d_inputFiles pc). recognized_input pc f) \<and>
     headers_of pc = {} \<and> sources_of pc = {} \<and> objects_of pc = {} \<longrightarrow>
     determine_products pc = Inr {}) \<and>
   ((\<exists>f\<in>set (d_inputFiles pc). \<not> recognized_input pc f) \<longrightarrow>
     (\<exists>msg. determine_products pc = Inl (invalid_argument msg)))"
proof (intro conjI impI)
  assume a: "(\<forall>f\<in>set (d_inputFiles pc). recognized_input pc f) \<and>
     (headers_of pc \<noteq> {} \<or> sources_of pc \<noteq> {} \<or> objects_of pc \<noteq> {})"
  then have v: "validate_inputs pc (d_inputFiles pc) ({}, {}, {}) =
      Inr (headers_of pc, sources_of pc, objects_of pc)"
    using validate_inputs_recognized [of "d_inputFiles pc" pc "{}" "{}" "{}"]
    by (simp add: headers_of_def sources_of_def objects_of_def)
  let ?extra = "makedep_products pc (headers_of pc) (sources_of pc) \<union>
      coverage_products pc (headers_of pc) (sources_of pc) \<union> dwarf_products pc (sources_of pc)"
  have "determine_products pc =
      Inr (base_products pc (headers_of pc) (sources_of pc) \<union> ?extra)"
    using a v by (auto simp: determine_products_def bnd_def Un_assoc)
  moreover have "\<not> d_md_option_set pc \<and> \<not> d_qmakedep_option_set pc \<and>
      \<not> d_coverage_option_set pc \<and> \<not> d_split_dwarf_option_set pc \<longrightarrow> ?extra = {}"
    by (simp add: makedep_products_def coverage_products_def dwarf_products_def)
  ultimately show "\<exists>extra. determine_products pc =
        Inr ((if d_commandProducts pc \<noteq> {} then d_commandProducts pc
              else if is_linker_command pc then {''a.out''}
              else (\<lambda>header. header @ ''.gch'') ` headers_of pc \<union>
                   (\<lambda>source. stripDirectory (replaceSuffix source ''.o'')) ` sources_of pc)
             \<union> extra) \<and>
        (\<not> d_md_option_set pc \<and> \<not> d_qmakedep_option_set pc \<and> \<not> d_coverage_option_set pc \<and>
         \<not> d_split_dwarf_option_set pc \<longrightarrow> extra = {})"
    unfolding base_products_def by blast
next
  assume a: "(\<forall>f\<in>set (d_inputFiles pc). recognized_input pc f) \<and>
     headers_of pc = {} \<and> sources_of pc = {} \<and> objects_of pc = {}"
  then have v: "validate_inputs pc (d_inputFiles pc) ({}, {}, {}) =
      Inr (headers_of pc, sources_of pc, objects_of pc)"
    using validate_inputs_recognized [of "d_inputFiles pc" pc "{}" "{}" "{}"]
    by (simp add: headers_of_def sources_of_def objects_of_def)
  with a show "determine_products pc = Inr {}"
    by (simp add: determine_products_def bnd_def)
next
  assume "\<exists>f\<in>set (d_inputFiles pc). \<not> recognized_input pc f"
  from validate_inputs_unrecognized [OF this, of "({}, {}, {})"]
  obtain msg where "validate_inputs pc (d_inputFiles pc) ({}, {}, {}) = Inl (invalid_argument msg)"
    by blast
  then show "\<exists>msg. determine_products pc = Inl (invalid_argument msg)"
    by (simp add: determine_products_def bnd_def)
qed


theorem determine_products_base_witness:
  "recognized_input gcc_hello_command ''hello.c'' \<and>
   ''hello.c'' \<in> sources_of gcc_hello_command \<and>
   determine_products gcc_hello_command = Inr {''hello.o''} \<and>
   recognized_input sun_inline_command ''t.il'' \<and>
   determine_products sun_inline_command = Inr {} \<and>
   \<not> recognized_input gcc_text_command ''hello.txt'' \<and>
   (\<exists>msg. determine_products gcc_text_command = Inl (invalid_argument msg))"
proof -
  have r1: "\<forall>f\<in>set (d_inputFiles gcc_hello_command). recognized_input gcc_hello_command f"
    and s1: "''hello.c'' \<in> sources_of gcc_hello_command"
    and h1: "headers_of gcc_hello_command = {}"
    by (auto simp: gcc_hello_command_def command_eval)
  have s1': "sources_of gcc_hello_command = {''hello.c''}"
    using s1 by (auto simp: sources_of_def gcc_hello_command_def ParsedCommand_default_def)
  have flags1: "d_commandProducts gcc_hello_command = {''hello.o''}"
    "\<not> d_md_option_set gcc_hello_command" "\<not> d_qmakedep_option_set gcc_hello_command"
    "\<not> d_coverage_option_set gcc_hello_command" "\<not> d_split_dwarf_option_set gcc_hello_command"
    by (simp_all add: gcc_hello_command_def ParsedCommand_default_def)
  have c1: "determine_products gcc_hello_command = Inr {''hello.o''}"
    using determine_products_base [of gcc_hello_command] r1 s1 flags1 by auto
  have r2: "\<forall>f\<in>set (d_inputFiles sun_inline_command). recognized_input sun_inline_command f"
    and e2: "headers_of sun_inline_command = {}" "sources_of sun_inline_command = {}"
      "objects_of sun_inline_command = {}"
    by (auto simp: sun_inline_command_def command_eval)
  have c2: "determine_products sun_inline_command = Inr {}"
    using determine_products_base [of sun_inline_command] r2 e2 by blast
  have r3: "\<not> recognized_input gcc_text_command ''hello.txt''"
    and i3: "d_inputFiles gcc_text_command = [''hello.txt'']"
    by (auto simp: gcc_text_command_def command_eval)
  have c3: "\<exists>msg. determine_products gcc_text_command = Inl (invalid_argument msg)"
    using determine_products_base [of gcc_text_command] r3 i3 by simp
  from r1 s1 c1 r2 c2 r3 c3 show ?thesis
    by (simp add: gcc_hello_command_def sun_inline_command_def ParsedCommand_default_def)
qed

text \<open>
  C7 as stated fails: for the Sun Studio command \<open>CC -c t.il -o x.o\<close> the only input
  is an inline-template file, which is recognised, and \<open>-o\<close> names a product, yet the
  result is empty, not the \<open>-o\<close> product.
\<close>

theorem determine_products_output_not_verbatim:
  "createParsedCommand example_environment [''CC'', ''-c'', ''t.il'', ''-o'', ''x.o''] [] =
     Inr sun_inline_command \<and>
   d_inputFiles sun_inline_command = [''t.il''] \<and>
   recognized_input sun_inline_command ''t.il'' \<and>
   d_commandProducts sun_inline_command = {''x.o''} \<and>
   determine_products sun_inline_command = Inr {}"
  using parse_sun_inline
  by (simp add: sun_inline_command_def determine_products_def bnd_def command_eval)

subsection \<open>C9: lastNSegments\<close>

text \<open>
  C9. \<open>lastNSegments(path, n)\<close> is to return the last \<open>n\<close> segments of the path when
  it has that many and to throw only when it has fewer. The code counts the slashes in
  front of segments, so for a relative path the first segment is only ever returned by
  the special case for a path without slashes: \<open>a/b\<close> has two segments, yet asking
  for two throws \<open>std::logic_error\<close>, while the same request succeeds on \<open>/a/b\<close> and
  the one-segment request succeeds on \<open>ab\<close>.
\<close>

theorem lastNSegments_relative_path_throws:
  "lastNSegments ''a/b'' 2 = Inl (logic_error ''Not enough segments in path'') \<and>
   lastNSegments ''/a/b'' 2 = Inr ''a/b'' \<and>
   lastNSegments ''a/b'' 1 = Inr ''b'' \<and>
   lastNSegments ''ab'' 1 = Inr ''ab''"
  by (simp add: lastNSegments_def c_str_def)

subsection \<open>C10: one-character products in get_file_info\<close>

text \<open>
  C10. For a command that is not a linker command, \<open>get_file_info\<close> tests every
  product with \<open>product.substr(product.size() - 2)\<close>. If the product set holds a name
  shorter than two characters the subtraction wraps around and \<open>substr\<close> throws
  \<open>std::out_of_range\<close>, so no file information is returned; if every product has at
  least two characters the loop completes and the function goes on to the dependency
  scan with the normalised products and the \<open>.o\<close> targets.
\<close>

theorem get_file_info_short_product:
  "(\<not> is_linker_command pc \<and> determine_products pc = Inr products \<and> finite products \<and>
      (\<exists>p\<in>products. length p < 2)
    \<longrightarrow> get_file_info link_file_info scan_dependencies pc = Inl out_of_range) \<and>
   (\<not> is_linker_command pc \<and> determine_products pc = Inr products \<and> finite products \<and>
      (\<forall>p\<in>products. 2 \<le> length p \<and> length p < 2 ^ 64)
    \<longrightarrow> get_file_info link_file_info scan_dependencies pc =
          scan_dependencies pc (normalizePath ` products)
            (filter (\<lambda>p. drop (length p - 2) p = ''.o'') (sorted_list_of_set products)))"
proof (intro conjI impI)
  assume a: "\<not> is_linker_command pc \<and> determine_products pc = Inr products \<and>
      finite products \<and> (\<exists>p\<in>products. length p < 2)"
  then have "\<exists>p\<in>set (sorted_list_of_set products). length p < 2" by simp
  then have "products_loop (sorted_list_of_set products) ({}, []) = Inl out_of_range"
    by (rule products_loop_short)
  with a show "get_file_info link_file_info scan_dependencies pc = Inl out_of_range"
    by (simp add: get_file_info_def bnd_def)
next
  assume a: "\<not> is_linker_command pc \<and> determine_products pc = Inr products \<and>
      finite products \<and> (\<forall>p\<in>products. 2 \<le> length p \<and> length p < 2 ^ 64)"
  then have "\<forall>p\<in>set (sorted_list_of_set products). 2 \<le> length p \<and> length p < 2 ^ 64"
    by simp
  then have "products_loop (sorted_list_of_set products) ({}, []) =
     Inr ({} \<union> normalizePath ` set (sorted_list_of_set products),
          [] @ filter (\<lambda>p. drop (length p - 2) p = ''.o'') (sorted_list_of_set products))"
    by (rule products_loop_long)
  with a show "get_file_info link_file_info scan_dependencies pc =
          scan_dependencies pc (normalizePath ` products)
            (filter (\<lambda>p. drop (length p - 2) p = ''.o'') (sorted_list_of_set products))"
    by (simp add: get_file_info_def bnd_def)
qed

theorem get_file_info_short_product_witness:
  "createParsedCommand example_environment [''gcc'', ''-c'', ''foo.c'', ''-o'', ''a''] [] =
     Inr gcc_short_output_command \<and>
   \<not> is_linker_command gcc_short_output_command \<and>
   determine_products gcc_short_output_command = Inr {''a''} \<and>
   get_file_info stub_link_file_info stub_scan_dependencies gcc_short_output_command =
     Inl out_of_range \<and>
   \<not> is_linker_command gcc_hello_command \<and>
   determine_products gcc_hello_command = Inr {''hello.o''} \<and>
   get_file_info stub_link_file_info stub_scan_dependencies gcc_hello_command =
     Inr \<lparr>d_dependencies = {''hello.o''}, d_possibleProducts = {''hello.o''}\<rparr>"
proof -
  have short: "determine_products gcc_short_output_command = Inr {''a''}"
    by (simp add: gcc_short_output_command_def determine_products_def bnd_def command_eval
        base_products_def makedep_products_def coverage_products_def dwarf_products_def)
  have long: "determine_products gcc_hello_command = Inr {''hello.o''}"
    by (simp add: gcc_hello_command_def determine_products_def bnd_def command_eval
        base_products_def makedep_products_def coverage_products_def dwarf_products_def)
  have norm: "normalizePath ''hello.o'' = ''hello.o''"
    by (simp add: normalizePath_def c_str_def push_segment_def join_segments_def)
  have nl: "\<not> is_linker_command gcc_short_output_command"
    "\<not> is_linker_command gcc_hello_command"
    by (simp_all add: gcc_short_output_command_def gcc_hello_command_def command_eval)
  show ?thesis
    using get_file_info_short_product [of gcc_short_output_command "{''a''}"
        stub_link_file_info stub_scan_dependencies]
      get_file_info_short_product [of gcc_hello_command "{''hello.o''}"
        stub_link_file_info stub_scan_dependencies]
      short long nl parse_gcc_short_output
    by (simp add: norm stub_scan_dependencies_def)
qed

end
